(* ===== verification/Ogon_Prelude.thy ===== *)
theory Ogon_Prelude
  imports Main "HOL-Library.Word"
begin

text \<open>
  Shared vocabulary of the development: names for the machine integers of the C code, the
  contracts every component with a step function meets (an invariant that each step keeps,
  a latch that only named events release), and generic facts on lists and words.
\<close>

unbundle bit_operations_syntax

type_synonym u8 = "8 word"
type_synonym u16 = "16 word"
type_synonym u32 = "32 word"
type_synonym u64 = "64 word"

named_theorems ogon_simps

section \<open>Contracts of components that are driven by events\<close>

text \<open>
  A latch: a condition on the state that every event keeps, but for the events of
  \<open>release\<close>. Whatever the interleaving, the condition holds until such an event occurs.
\<close>

locale latch =
  fixes step :: "'s \<Rightarrow> 'e \<Rightarrow> 's"
    and held :: "'s \<Rightarrow> bool"
    and release :: "'e \<Rightarrow> bool"
  assumes keep: "held s \<Longrightarrow> \<not> release e \<Longrightarrow> held (step s e)"
begin

lemma held_run:
  "held s \<Longrightarrow> (\<And>e. e \<in> set es \<Longrightarrow> \<not> release e) \<Longrightarrow> held (foldl step s es)"
  by (induction es arbitrary: s) (auto intro: keep)

lemma released_by:
  assumes "held s" and "\<not> held (foldl step s es)"
  shows "\<exists>e \<in> set es. release e"
  using assms held_run by blast

end

text \<open>An invariant is a latch that nothing releases.\<close>

locale step_invariant =
  fixes step :: "'s \<Rightarrow> 'e \<Rightarrow> 's"
    and inv :: "'s \<Rightarrow> bool"
  assumes step_inv: "inv s \<Longrightarrow> inv (step s e)"
begin

sublocale latch step inv "\<lambda>_. False"
  by unfold_locales (simp add: step_inv)

lemma run_inv: "inv s \<Longrightarrow> inv (foldl step s es)"
  by (rule held_run) simp_all

end

section \<open>Results with errors\<close>

text \<open>An error is \<open>Inl\<close>; a sequence of operations stops at the first one.\<close>

fun res_bind :: "'e + 'a \<Rightarrow> ('a \<Rightarrow> 'e + 'b) \<Rightarrow> 'e + 'b" where
  "res_bind (Inl e) f = Inl e"
| "res_bind (Inr x) f = f x"

fun res_fold :: "('x \<Rightarrow> 's \<Rightarrow> 'e + 's) \<Rightarrow> 'x list \<Rightarrow> 's \<Rightarrow> 'e + 's" where
  "res_fold f [] s = Inr s"
| "res_fold f (x # xs) s = res_bind (f x s) (res_fold f xs)"

text \<open>
  The postcondition of an operation with errors: it does not fail with one of the errors
  \<open>E\<close>, and if it does not fail its result satisfies \<open>P\<close>.
\<close>

definition res_ok :: "'e set \<Rightarrow> ('s \<Rightarrow> bool) \<Rightarrow> ('e + 's) \<Rightarrow> bool" where
  "res_ok E P r = (case r of Inl e \<Rightarrow> e \<notin> E | Inr s \<Rightarrow> P s)"

lemma res_ok_simps [simp]:
  "res_ok E P (Inl e) = (e \<notin> E)" "res_ok E P (Inr s) = P s"
  by (simp_all add: res_ok_def)

lemma res_ok_bind:
  "res_ok E P r \<Longrightarrow> (\<And>s. P s \<Longrightarrow> res_ok E Q (f s)) \<Longrightarrow> res_ok E Q (res_bind r f)"
  by (cases r) simp_all

lemma res_ok_mono: "res_ok E P r \<Longrightarrow> (\<And>s. P s \<Longrightarrow> Q s) \<Longrightarrow> res_ok E Q r"
  by (cases r) simp_all

lemma res_bind_Inr [simp]: "res_bind r f = Inr y \<longleftrightarrow> (\<exists>x. r = Inr x \<and> f x = Inr y)"
  by (cases r) simp_all

lemma res_ok_fold:
  "P s \<Longrightarrow> (\<And>x s. x \<in> set xs \<Longrightarrow> P s \<Longrightarrow> res_ok E P (f x s)) \<Longrightarrow> res_ok E P (res_fold f xs s)"
proof (induction xs arbitrary: s)
  case (Cons x xs)
  have "res_ok E P (f x s)" using Cons.prems by simp
  then show ?case using Cons by (auto intro: res_ok_bind)
qed simp

section \<open>Memory\<close>

text \<open>\<open>memset\<close> in a buffer; None is an access outside of it.\<close>

definition memset :: "u8 list \<Rightarrow> nat \<Rightarrow> u8 \<Rightarrow> nat \<Rightarrow> u8 list option" where
  "memset buf at v n =
     (if at + n \<le> length buf then Some (take at buf @ replicate n v @ drop (at + n) buf) else None)"

section \<open>Words\<close>

lemma unat_pred_less:
  fixes x :: "'a::len word"
  shows "x \<noteq> 0 \<Longrightarrow> unat (x - 1) < unat x"
  by (simp add: unat_minus_one unat_gt_0)

lemma unat_pred2_less:
  fixes x :: "'a::len word"
  shows "x \<noteq> 1 \<Longrightarrow> unat (x - 2) < unat (x - 1)"
  using unat_pred_less [of "x - 1"] by simp

lemma unat_diff_le:
  fixes a b :: "'a::len word"
  shows "b \<le> a \<Longrightarrow> unat (a - b) = unat a - unat b"
  by (simp add: unat_sub word_le_nat_alt)

lemma unat_succ:
  fixes x y :: "'a::len word"
  assumes "x < y"
  shows "unat (x + 1) = Suc (unat x)" and "x + 1 \<le> y"
proof -
  have "unat x < unat y" using assms by (simp add: word_less_nat_alt)
  moreover have "unat y < 2 ^ LENGTH('a)" by (rule unsigned_less)
  ultimately have less: "Suc (unat x) < 2 ^ LENGTH('a)" by linarith
  have "unat (x + 1) = unat x + unat (1 :: 'a word)"
    using less by (intro unat_add_lem [THEN iffD1]) simp
  then show succ: "unat (x + 1) = Suc (unat x)" by simp
  with \<open>unat x < unat y\<close> show "x + 1 \<le> y" by (simp add: word_le_nat_alt)
qed

lemma uint_less_of_unat: "unat w < n \<Longrightarrow> uint w < int n"
  and uint_le_of_unat: "unat w \<le> n \<Longrightarrow> uint w \<le> int n"
  unfolding uint_nat by linarith+

lemma unat_ucast_u16_u32 [simp]: "unat (ucast (w :: u16) :: u32) = unat w"
proof -
  have "unat w < 2 ^ LENGTH(16)" by (rule unsigned_less)
  then have "unat w < 2 ^ 32" by simp
  then show ?thesis by (simp add: unsigned_ucast_eq take_bit_nat_eq_self)
qed

lemma unat_of_nat_u32: "n < 2 ^ 32 \<Longrightarrow> unat (of_nat n :: u32) = n"
  and unat_of_nat_u16: "k < 2 ^ 16 \<Longrightarrow> unat (of_nat k :: u16) = k"
  by (simp_all add: unat_of_nat take_bit_nat_eq_self)

section \<open>Lists\<close>

lemma sum_list_update_nat:
  fixes xs :: "nat list"
  shows "i < length xs \<Longrightarrow> sum_list (xs[i := v]) + xs ! i = sum_list xs + v"
  by (induction xs arbitrary: i) (auto split: nat.splits simp: nth_Cons)

lemma sum_list_update_unat:
  "i < length xs \<Longrightarrow>
     sum_list (map unat (xs[i := v])) + unat (xs ! i) = sum_list (map unat xs) + unat v"
  using sum_list_update_nat [of i "map unat xs" "unat v"] by (simp add: map_update)

lemma sint_u32: "unat (x :: u32) < 2 ^ 31 \<Longrightarrow> sint x = int (unat x)"
  and sint_u16: "unat (y :: u16) < 2 ^ 15 \<Longrightarrow> sint y = int (unat y)"
proof -
  assume "unat x < 2 ^ 31"
  then have "uint x < 2 ^ 31" using uint_less_of_unat [of x "2 ^ 31"] by simp
  moreover have "- (2 ^ 31) \<le> uint x" by (rule order_trans [OF _ unsigned_greater_eq]) simp
  ultimately show "sint x = int (unat x)" by (simp add: sint_uint signed_take_bit_int_eq_self)
next
  assume "unat y < 2 ^ 15"
  then have "uint y < 2 ^ 15" using uint_less_of_unat [of y "2 ^ 15"] by simp
  moreover have "- (2 ^ 15) \<le> uint y" by (rule order_trans [OF _ unsigned_greater_eq]) simp
  ultimately show "sint y = int (unat y)" by (simp add: sint_uint signed_take_bit_int_eq_self)
qed

lemma unat_ucast_le: "unat (x :: u32) < 2 ^ 16 \<Longrightarrow> unat (ucast x :: u16) = unat x"
  by (simp add: unsigned_ucast_eq take_bit_nat_eq_self)

end
