(* ===== verification/Frame_State.thy ===== *)
theory Frame_State
  imports Ogon_Prelude
begin

text \<open>
  The frame emitting automaton of the RDP server (\<open>rdp-server/state.c\<close>, \<open>state.h\<close>):
  its states, its events, \<open>ogon_state_set_event\<close> as a step function and the two questions
  the frame loop asks (\<open>ogon_state_get\<close>, \<open>ogon_state_should_create_frame\<close>). The lemmas
  are about whole event sequences: what blocks a frame, what releases it, what triggers it.
\<close>

section \<open>Model\<close>

datatype ogon_state =
    OGON_STATE_INVALID
  | OGON_STATE_WAITING_BACKEND
  | OGON_STATE_WAITING_TIMER
  | OGON_STATE_WAITING_SYNC_REPLY
  | OGON_STATE_WAITING_ACTIVE_OUTPUT
  | OGON_STATE_WAITING_FRAME_SENT
  | OGON_STATE_WAITING_ACK
  | OGON_STATE_EVENTLOOP_MOVE
  | OGON_STATE_WAITING_RESIZE

datatype ogon_event =
    OGON_EVENT_INVALID
  | OGON_EVENT_BACKEND_ATTACHED
  | OGON_EVENT_BACKEND_SYNC_REPLY_RECEIVED
  | OGON_EVENT_BACKEND_SYNC_REQUESTED
  | OGON_EVENT_BACKEND_REWIRE_ORIGINAL
  | OGON_EVENT_BACKEND_TRIGGER_REWIRE
  | OGON_EVENT_BACKEND_SWITCH
  | OGON_EVENT_FRONTEND_ENABLE_OUTPUT
  | OGON_EVENT_FRONTEND_DISABLE_OUTPUT
  | OGON_EVENT_FRONTEND_FRAME_ACK_SEND
  | OGON_EVENT_FRONTEND_FRAME_ACK_RECEIVED
  | OGON_EVENT_FRONTEND_FRAME_SENT
  | OGON_EVENT_FRONTEND_IMMEDIATE_REQUEST
  | OGON_EVENT_FRONTEND_NEW_SHADOWING
  | OGON_EVENT_FRONTEND_REWIRE_ERROR
  | OGON_EVENT_FRONTEND_TRIGGER_RESIZE
  | OGON_EVENT_FRONTEND_RESIZED
  | OGON_EVENT_FRAME_TIMER
  | OGON_EVENT_FRONTEND_WAITING_GFX
  | OGON_EVENT_FRONTEND_STOP_WAITING_GFX
  | OGON_EVENT_FRONTEND_BANDWIDTH_FAIL
  | OGON_EVENT_FRONTEND_BANDWIDTH_GOOD

record ogon_state_machine =
  currentState :: ogon_state
  resizePending :: bool
  outputSuppressed :: bool
  waitingForBandwidth :: bool
  waitingGraphicsPipeline :: bool
  handleFrame :: bool

definition get_state_name :: "ogon_state \<Rightarrow> string" where
  "get_state_name st = (case st of
      OGON_STATE_INVALID \<Rightarrow> ''INVALID''
    | OGON_STATE_WAITING_BACKEND \<Rightarrow> ''WAITING_BACKEND''
    | OGON_STATE_WAITING_TIMER \<Rightarrow> ''WAITING_TIMER''
    | OGON_STATE_WAITING_SYNC_REPLY \<Rightarrow> ''WAITING_SYNC_REPLY''
    | OGON_STATE_WAITING_ACTIVE_OUTPUT \<Rightarrow> ''WAITING_ACTIVE_OUTPUT''
    | OGON_STATE_WAITING_FRAME_SENT \<Rightarrow> ''WAITING_FRAME_SENT''
    | OGON_STATE_WAITING_ACK \<Rightarrow> ''WAITING_ACK''
    | OGON_STATE_EVENTLOOP_MOVE \<Rightarrow> ''EVENTLOOP_MOVE''
    | OGON_STATE_WAITING_RESIZE \<Rightarrow> ''WAITING_RESIZE'')"

definition get_event_name :: "ogon_event \<Rightarrow> string" where
  "get_event_name ev = (case ev of
      OGON_EVENT_INVALID \<Rightarrow> ''INVALID''
    | OGON_EVENT_BACKEND_ATTACHED \<Rightarrow> ''BACKEND_ATTACHED''
    | OGON_EVENT_BACKEND_SYNC_REPLY_RECEIVED \<Rightarrow> ''BACKEND_SYNC_REPLY_RECEIVED''
    | OGON_EVENT_BACKEND_SYNC_REQUESTED \<Rightarrow> ''BACKEND_SYNC_REQUESTED''
    | OGON_EVENT_BACKEND_REWIRE_ORIGINAL \<Rightarrow> ''BACKEND_REWIRE_ORIGINAL''
    | OGON_EVENT_BACKEND_TRIGGER_REWIRE \<Rightarrow> ''BACKEND_TRIGGER_REWIRE''
    | OGON_EVENT_BACKEND_SWITCH \<Rightarrow> ''BACKEND_SWITCH''
    | OGON_EVENT_FRONTEND_ENABLE_OUTPUT \<Rightarrow> ''FRONTEND_ENABLE_OUTPUT''
    | OGON_EVENT_FRONTEND_DISABLE_OUTPUT \<Rightarrow> ''FRONTEND_DISABLE_OUTPUT''
    | OGON_EVENT_FRONTEND_FRAME_ACK_SEND \<Rightarrow> ''FRONTEND_FRAME_ACK_SEND''
    | OGON_EVENT_FRONTEND_FRAME_ACK_RECEIVED \<Rightarrow> ''FRONTENhandle_D_FRAME_ACK_RECEIVED''
    | OGON_EVENT_FRONTEND_FRAME_SENT \<Rightarrow> ''FRONTEND_FRAME_SENT''
    | OGON_EVENT_FRONTEND_IMMEDIATE_REQUEST \<Rightarrow> ''FRONTEND_IMMEDIATE_REQUEST''
    | OGON_EVENT_FRONTEND_NEW_SHADOWING \<Rightarrow> ''FRONTEND_NEW_SHADOWING''
    | OGON_EVENT_FRONTEND_REWIRE_ERROR \<Rightarrow> ''FRONTEND_REWIRE_ERROR''
    | OGON_EVENT_FRONTEND_TRIGGER_RESIZE \<Rightarrow> ''FRONTEND_TRIGGER_RESIZE''
    | OGON_EVENT_FRONTEND_RESIZED \<Rightarrow> ''FRONTEND_RESIZED''
    | OGON_EVENT_FRAME_TIMER \<Rightarrow> ''FRAME_TIMER''
    | OGON_EVENT_FRONTEND_WAITING_GFX \<Rightarrow> ''FRONTEND_WAITING_GFX''
    | OGON_EVENT_FRONTEND_STOP_WAITING_GFX \<Rightarrow> ''FRONTEND_STOP_WAITING_GFX''
    | _ \<Rightarrow> ''UNKNOWN EVENT!'')"

text \<open>\<open>calloc\<close> may fail: \<open>mem\<close> says whether it succeeded; a cleared struct is all false.\<close>

definition ogon_state_new :: "bool \<Rightarrow> ogon_state_machine option" where
  "ogon_state_new mem =
     (if \<not> mem then None
      else Some \<lparr>currentState = OGON_STATE_WAITING_BACKEND, resizePending = False,
                 outputSuppressed = False, waitingForBandwidth = False,
                 waitingGraphicsPipeline = False, handleFrame = False\<rparr>)"

definition ogon_state_set_wait_frame_sent :: "ogon_state_machine \<Rightarrow> ogon_state_machine" where
  "ogon_state_set_wait_frame_sent m = m\<lparr>currentState := OGON_STATE_WAITING_FRAME_SENT\<rparr>"

definition ogon_state_set_waiting_active_output :: "ogon_state_machine \<Rightarrow> ogon_state_machine" where
  "ogon_state_set_waiting_active_output m = m\<lparr>currentState := OGON_STATE_WAITING_ACTIVE_OUTPUT\<rparr>"

definition ogon_state_set_waiting_timer :: "ogon_state_machine \<Rightarrow> ogon_state_machine" where
  "ogon_state_set_waiting_timer m = m\<lparr>currentState := OGON_STATE_WAITING_TIMER\<rparr>"

definition ogon_state_set_waiting_sync_reply :: "ogon_state_machine \<Rightarrow> ogon_state_machine" where
  "ogon_state_set_waiting_sync_reply m =
     (if resizePending m \<and> currentState m = OGON_STATE_WAITING_TIMER then m
      else m\<lparr>currentState := OGON_STATE_WAITING_SYNC_REPLY\<rparr>)"

definition ogon_state_set_waiting_ack :: "ogon_state_machine \<Rightarrow> ogon_state_machine" where
  "ogon_state_set_waiting_ack m = m\<lparr>currentState := OGON_STATE_WAITING_ACK\<rparr>"

definition ogon_state_set_eventloop_move :: "ogon_state_machine \<Rightarrow> ogon_state_machine" where
  "ogon_state_set_eventloop_move m = m\<lparr>currentState := OGON_STATE_EVENTLOOP_MOVE\<rparr>"

definition ogon_state_set_waiting_backend :: "ogon_state_machine \<Rightarrow> ogon_state_machine" where
  "ogon_state_set_waiting_backend m = m\<lparr>currentState := OGON_STATE_WAITING_BACKEND\<rparr>"

fun ogon_state_set_event :: "ogon_state_machine \<Rightarrow> ogon_event \<Rightarrow> ogon_state_machine" where
  "ogon_state_set_event m OGON_EVENT_BACKEND_SYNC_REPLY_RECEIVED =
     (if outputSuppressed m \<or> waitingGraphicsPipeline m
      then ogon_state_set_waiting_active_output m
      else ogon_state_set_wait_frame_sent m)"
| "ogon_state_set_event m OGON_EVENT_FRONTEND_DISABLE_OUTPUT = m\<lparr>outputSuppressed := True\<rparr>"
| "ogon_state_set_event m OGON_EVENT_FRONTEND_ENABLE_OUTPUT =
     (let m = (if \<not> waitingGraphicsPipeline m \<and>
                  currentState m = OGON_STATE_WAITING_ACTIVE_OUTPUT
               then ogon_state_set_waiting_timer (m\<lparr>handleFrame := True\<rparr>) else m)
      in m\<lparr>outputSuppressed := False\<rparr>)"
| "ogon_state_set_event m OGON_EVENT_FRONTEND_WAITING_GFX = m\<lparr>waitingGraphicsPipeline := True\<rparr>"
| "ogon_state_set_event m OGON_EVENT_FRONTEND_STOP_WAITING_GFX =
     (let m = (if \<not> outputSuppressed m \<and> currentState m = OGON_STATE_WAITING_ACTIVE_OUTPUT
               then ogon_state_set_waiting_timer (m\<lparr>handleFrame := True\<rparr>) else m)
      in m\<lparr>waitingGraphicsPipeline := False\<rparr>)"
| "ogon_state_set_event m OGON_EVENT_FRONTEND_BANDWIDTH_FAIL = m\<lparr>waitingForBandwidth := True\<rparr>"
| "ogon_state_set_event m OGON_EVENT_FRONTEND_BANDWIDTH_GOOD = m\<lparr>waitingForBandwidth := False\<rparr>"
| "ogon_state_set_event m OGON_EVENT_FRONTEND_FRAME_ACK_RECEIVED = ogon_state_set_waiting_timer m"
| "ogon_state_set_event m OGON_EVENT_BACKEND_SYNC_REQUESTED =
     ogon_state_set_waiting_sync_reply (m\<lparr>handleFrame := False\<rparr>)"
| "ogon_state_set_event m OGON_EVENT_FRONTEND_FRAME_ACK_SEND = ogon_state_set_waiting_ack m"
| "ogon_state_set_event m OGON_EVENT_FRONTEND_FRAME_SENT = ogon_state_set_waiting_timer m"
| "ogon_state_set_event m OGON_EVENT_FRONTEND_IMMEDIATE_REQUEST =
     ogon_state_set_waiting_sync_reply (m\<lparr>handleFrame := True\<rparr>)"
| "ogon_state_set_event m OGON_EVENT_BACKEND_TRIGGER_REWIRE =
     ogon_state_set_eventloop_move (m\<lparr>handleFrame := True\<rparr>)"
| "ogon_state_set_event m OGON_EVENT_FRONTEND_NEW_SHADOWING =
     ogon_state_set_waiting_timer (m\<lparr>handleFrame := True\<rparr>)"
| "ogon_state_set_event m OGON_EVENT_BACKEND_REWIRE_ORIGINAL =
     ogon_state_set_waiting_timer (m\<lparr>handleFrame := True\<rparr>)"
| "ogon_state_set_event m OGON_EVENT_FRONTEND_REWIRE_ERROR = ogon_state_set_waiting_timer m"
| "ogon_state_set_event m OGON_EVENT_BACKEND_SWITCH =
     ogon_state_set_waiting_backend (m\<lparr>handleFrame := True\<rparr>)"
| "ogon_state_set_event m OGON_EVENT_FRONTEND_TRIGGER_RESIZE = m\<lparr>resizePending := True\<rparr>"
| "ogon_state_set_event m OGON_EVENT_BACKEND_ATTACHED =
     ogon_state_set_waiting_timer (m\<lparr>handleFrame := True\<rparr>)"
| "ogon_state_set_event m OGON_EVENT_FRONTEND_RESIZED = m\<lparr>resizePending := False\<rparr>"
| "ogon_state_set_event m OGON_EVENT_FRAME_TIMER = m\<lparr>handleFrame := True\<rparr>"
| "ogon_state_set_event m OGON_EVENT_INVALID = m"

definition ogon_state_get :: "ogon_state_machine \<Rightarrow> ogon_state" where
  "ogon_state_get m = (if resizePending m then OGON_STATE_WAITING_RESIZE else currentState m)"

definition ogon_state_prepare_shadowing ::
    "ogon_state_machine \<Rightarrow> ogon_state_machine \<Rightarrow> ogon_state_machine" where
  "ogon_state_prepare_shadowing spy src = spy\<lparr>handleFrame := handleFrame src\<rparr>"

definition ogon_state_should_create_frame :: "ogon_state_machine \<Rightarrow> bool" where
  "ogon_state_should_create_frame m \<longleftrightarrow>
     (currentState m = OGON_STATE_WAITING_TIMER \<or> currentState m = OGON_STATE_WAITING_SYNC_REPLY)
     \<and> handleFrame m \<and> \<not> resizePending m \<and> \<not> outputSuppressed m \<and> \<not> waitingForBandwidth m"

text \<open>A run of the automaton is the code's calls of \<open>ogon_state_set_event\<close>, in order.\<close>

abbreviation ogon_state_run :: "ogon_state_machine \<Rightarrow> ogon_event list \<Rightarrow> ogon_state_machine" where
  "ogon_state_run \<equiv> foldl ogon_state_set_event"

text \<open>The events on which the code arms the next frame (\<open>handleFrame = TRUE\<close>).\<close>

fun arms_frame :: "ogon_event \<Rightarrow> bool" where
  "arms_frame OGON_EVENT_FRAME_TIMER = True"
| "arms_frame OGON_EVENT_FRONTEND_IMMEDIATE_REQUEST = True"
| "arms_frame OGON_EVENT_FRONTEND_ENABLE_OUTPUT = True"
| "arms_frame OGON_EVENT_FRONTEND_STOP_WAITING_GFX = True"
| "arms_frame OGON_EVENT_BACKEND_TRIGGER_REWIRE = True"
| "arms_frame OGON_EVENT_FRONTEND_NEW_SHADOWING = True"
| "arms_frame OGON_EVENT_BACKEND_REWIRE_ORIGINAL = True"
| "arms_frame OGON_EVENT_BACKEND_SWITCH = True"
| "arms_frame OGON_EVENT_BACKEND_ATTACHED = True"
| "arms_frame _ = False"

text \<open>The events after which the automaton is no longer waiting for a sent frame.\<close>

fun leaves_frame_sent :: "ogon_event \<Rightarrow> bool" where
  "leaves_frame_sent OGON_EVENT_FRONTEND_FRAME_SENT = True"
| "leaves_frame_sent OGON_EVENT_FRONTEND_FRAME_ACK_SEND = True"
| "leaves_frame_sent OGON_EVENT_FRONTEND_FRAME_ACK_RECEIVED = True"
| "leaves_frame_sent OGON_EVENT_FRONTEND_IMMEDIATE_REQUEST = True"
| "leaves_frame_sent OGON_EVENT_FRONTEND_NEW_SHADOWING = True"
| "leaves_frame_sent OGON_EVENT_FRONTEND_REWIRE_ERROR = True"
| "leaves_frame_sent OGON_EVENT_BACKEND_SYNC_REQUESTED = True"
| "leaves_frame_sent OGON_EVENT_BACKEND_SYNC_REPLY_RECEIVED = True"
| "leaves_frame_sent OGON_EVENT_BACKEND_TRIGGER_REWIRE = True"
| "leaves_frame_sent OGON_EVENT_BACKEND_REWIRE_ORIGINAL = True"
| "leaves_frame_sent OGON_EVENT_BACKEND_SWITCH = True"
| "leaves_frame_sent OGON_EVENT_BACKEND_ATTACHED = True"
| "leaves_frame_sent _ = False"

definition stored_state_ok :: "ogon_state_machine \<Rightarrow> bool" where
  "stored_state_ok m \<longleftrightarrow>
     currentState m \<noteq> OGON_STATE_INVALID \<and> currentState m \<noteq> OGON_STATE_WAITING_RESIZE"

text \<open>
  A machine is parked when a backend frame is ready but may not be sent yet: there must be
  something that still holds it, or nothing would ever wake it up again.
\<close>

definition parked_ok :: "ogon_state_machine \<Rightarrow> bool" where
  "parked_ok m \<longleftrightarrow> (currentState m = OGON_STATE_WAITING_ACTIVE_OUTPUT \<longrightarrow>
                    outputSuppressed m \<or> waitingGraphicsPipeline m)"

section \<open>Steps and runs\<close>

lemmas ogon_state_setters [ogon_simps] =
  ogon_state_set_wait_frame_sent_def ogon_state_set_waiting_active_output_def
  ogon_state_set_waiting_timer_def ogon_state_set_waiting_sync_reply_def
  ogon_state_set_waiting_ack_def ogon_state_set_eventloop_move_def
  ogon_state_set_waiting_backend_def

interpretation output_latch: latch ogon_state_set_event outputSuppressed
    "\<lambda>e. e = OGON_EVENT_FRONTEND_ENABLE_OUTPUT"
proof
  fix m :: ogon_state_machine and e
  assume "outputSuppressed m" and "e \<noteq> OGON_EVENT_FRONTEND_ENABLE_OUTPUT"
  then show "outputSuppressed (ogon_state_set_event m e)"
    by (cases e) (simp_all add: ogon_simps Let_def)
qed

interpretation resize_latch: latch ogon_state_set_event resizePending
    "\<lambda>e. e = OGON_EVENT_FRONTEND_RESIZED"
proof
  fix m :: ogon_state_machine and e
  assume "resizePending m" and "e \<noteq> OGON_EVENT_FRONTEND_RESIZED"
  then show "resizePending (ogon_state_set_event m e)"
    by (cases e) (simp_all add: ogon_simps Let_def)
qed

interpretation bandwidth_latch: latch ogon_state_set_event waitingForBandwidth
    "\<lambda>e. e = OGON_EVENT_FRONTEND_BANDWIDTH_GOOD"
proof
  fix m :: ogon_state_machine and e
  assume "waitingForBandwidth m" and "e \<noteq> OGON_EVENT_FRONTEND_BANDWIDTH_GOOD"
  then show "waitingForBandwidth (ogon_state_set_event m e)"
    by (cases e) (simp_all add: ogon_simps Let_def)
qed

interpretation unarmed_latch: latch ogon_state_set_event "\<lambda>m. \<not> handleFrame m" arms_frame
proof
  fix m :: ogon_state_machine and e
  assume "\<not> handleFrame m" and "\<not> arms_frame e"
  then show "\<not> handleFrame (ogon_state_set_event m e)"
    by (cases e) (simp_all add: ogon_simps Let_def)
qed

interpretation frame_sent_latch: latch ogon_state_set_event
    "\<lambda>m. currentState m = OGON_STATE_WAITING_FRAME_SENT" leaves_frame_sent
proof
  fix m :: ogon_state_machine and e
  assume "currentState m = OGON_STATE_WAITING_FRAME_SENT" and "\<not> leaves_frame_sent e"
  then show "currentState (ogon_state_set_event m e) = OGON_STATE_WAITING_FRAME_SENT"
    by (cases e) (simp_all add: ogon_simps Let_def)
qed

interpretation state_inv: step_invariant ogon_state_set_event
    "\<lambda>m. stored_state_ok m \<and> parked_ok m"
proof
  fix m :: ogon_state_machine and e
  assume "stored_state_ok m \<and> parked_ok m"
  then show "stored_state_ok (ogon_state_set_event m e) \<and> parked_ok (ogon_state_set_event m e)"
    by (cases e) (simp_all add: ogon_simps stored_state_ok_def parked_ok_def Let_def)
qed

lemma ogon_state_new_inv: "ogon_state_new mem = Some m \<Longrightarrow> stored_state_ok m \<and> parked_ok m"
  by (auto simp: ogon_state_new_def stored_state_ok_def parked_ok_def split: if_splits)

lemma should_create_frame_unblocked:
  "ogon_state_should_create_frame m \<Longrightarrow>
     \<not> outputSuppressed m \<and> \<not> resizePending m \<and> \<not> waitingForBandwidth m \<and> handleFrame m"
  by (simp add: ogon_state_should_create_frame_def)

section \<open>Properties\<close>

text \<open>
  C3. Nothing but the matching release event lifts a block. Once output is disabled, a
  resize is triggered or the bandwidth is exhausted, no sequence of events in whatever order
  lets a frame be created unless it contains, respectively, an enable-output event, a
  resized event, a bandwidth-good event.
\<close>

theorem frame_blocked_until_released:
  "(ogon_state_should_create_frame
      (ogon_state_run (ogon_state_set_event m OGON_EVENT_FRONTEND_DISABLE_OUTPUT) es)
      \<longrightarrow> OGON_EVENT_FRONTEND_ENABLE_OUTPUT \<in> set es) \<and>
   (ogon_state_should_create_frame
      (ogon_state_run (ogon_state_set_event m OGON_EVENT_FRONTEND_TRIGGER_RESIZE) es)
      \<longrightarrow> OGON_EVENT_FRONTEND_RESIZED \<in> set es) \<and>
   (ogon_state_should_create_frame
      (ogon_state_run (ogon_state_set_event m OGON_EVENT_FRONTEND_BANDWIDTH_FAIL) es)
      \<longrightarrow> OGON_EVENT_FRONTEND_BANDWIDTH_GOOD \<in> set es)"
  using output_latch.released_by [of "m\<lparr>outputSuppressed := True\<rparr>" es]
    resize_latch.released_by [of "m\<lparr>resizePending := True\<rparr>" es]
    bandwidth_latch.released_by [of "m\<lparr>waitingForBandwidth := True\<rparr>" es]
  by (auto dest: should_create_frame_unblocked)

definition example_machine :: ogon_state_machine where
  "example_machine = \<lparr>currentState = OGON_STATE_WAITING_TIMER, resizePending = False,
     outputSuppressed = False, waitingForBandwidth = False,
     waitingGraphicsPipeline = False, handleFrame = True\<rparr>"

theorem frame_blocked_until_released_witness:
  "OGON_EVENT_FRONTEND_ENABLE_OUTPUT \<in>
     set [OGON_EVENT_FRAME_TIMER, OGON_EVENT_FRONTEND_ENABLE_OUTPUT] \<and>
   OGON_EVENT_FRONTEND_RESIZED \<in> set [OGON_EVENT_FRONTEND_RESIZED] \<and>
   OGON_EVENT_FRONTEND_BANDWIDTH_GOOD \<in> set [OGON_EVENT_FRONTEND_BANDWIDTH_GOOD]"
proof -
  have a: "ogon_state_should_create_frame (ogon_state_run
      (ogon_state_set_event example_machine OGON_EVENT_FRONTEND_DISABLE_OUTPUT)
      [OGON_EVENT_FRAME_TIMER, OGON_EVENT_FRONTEND_ENABLE_OUTPUT])"
    by (simp add: example_machine_def ogon_state_should_create_frame_def)
  have b: "ogon_state_should_create_frame (ogon_state_run
      (ogon_state_set_event example_machine OGON_EVENT_FRONTEND_TRIGGER_RESIZE)
      [OGON_EVENT_FRONTEND_RESIZED])"
    by (simp add: example_machine_def ogon_state_should_create_frame_def)
  have c: "ogon_state_should_create_frame (ogon_state_run
      (ogon_state_set_event example_machine OGON_EVENT_FRONTEND_BANDWIDTH_FAIL)
      [OGON_EVENT_FRONTEND_BANDWIDTH_GOOD])"
    by (simp add: example_machine_def ogon_state_should_create_frame_def)
  show ?thesis
    using a b c
      frame_blocked_until_released
        [of example_machine "[OGON_EVENT_FRAME_TIMER, OGON_EVENT_FRONTEND_ENABLE_OUTPUT]"]
      frame_blocked_until_released [of example_machine "[OGON_EVENT_FRONTEND_RESIZED]"]
      frame_blocked_until_released [of example_machine "[OGON_EVENT_FRONTEND_BANDWIDTH_GOOD]"]
    by blast
qed

text \<open>
  C4. One request, one frame. After a sync request to the backend has been sent, the code
  does not create another frame until an event that arms one occurs (the frame timer, an
  immediate request, output or graphics pipeline becoming available, a backend change).
\<close>

theorem frame_needs_arming:
  assumes "ogon_state_should_create_frame
    (ogon_state_run (ogon_state_set_event m OGON_EVENT_BACKEND_SYNC_REQUESTED) es)"
  shows "\<exists>e \<in> set es. arms_frame e"
proof (rule unarmed_latch.released_by)
  show "\<not> handleFrame (ogon_state_set_event m OGON_EVENT_BACKEND_SYNC_REQUESTED)"
    by (simp add: ogon_simps)
  show "\<not> \<not> handleFrame
    (ogon_state_run (ogon_state_set_event m OGON_EVENT_BACKEND_SYNC_REQUESTED) es)"
    using assms by (simp add: should_create_frame_unblocked)
qed

theorem frame_needs_arming_witness:
  "\<exists>e \<in> set [OGON_EVENT_BACKEND_SYNC_REPLY_RECEIVED, OGON_EVENT_FRONTEND_FRAME_SENT,
             OGON_EVENT_FRAME_TIMER]. arms_frame e"
  by (rule frame_needs_arming [of example_machine])
     (simp add: example_machine_def ogon_state_should_create_frame_def ogon_simps)

text \<open>
  C5. No lost wake-up. In every state the automaton reaches from its creation, the stored
  state is neither INVALID nor WAITING_RESIZE (the latter is only ever computed), and if it
  is parked in WAITING_ACTIVE_OUTPUT then output is still suppressed or the graphics
  pipeline is still awaited; and the event that lifts the last of these blocks makes a frame
  be created at once unless a resize or the bandwidth forbids it.
\<close>

theorem no_lost_wakeup:
  assumes "ogon_state_new mem = Some m0"
    and "m = ogon_state_run m0 es"
  shows "stored_state_ok m \<and> parked_ok m \<and>
    (currentState m = OGON_STATE_WAITING_ACTIVE_OUTPUT \<and> \<not> waitingGraphicsPipeline m \<longrightarrow>
       ogon_state_should_create_frame (ogon_state_set_event m OGON_EVENT_FRONTEND_ENABLE_OUTPUT)
       = (\<not> resizePending m \<and> \<not> waitingForBandwidth m)) \<and>
    (currentState m = OGON_STATE_WAITING_ACTIVE_OUTPUT \<and> \<not> outputSuppressed m \<longrightarrow>
       ogon_state_should_create_frame (ogon_state_set_event m OGON_EVENT_FRONTEND_STOP_WAITING_GFX)
       = (\<not> resizePending m \<and> \<not> waitingForBandwidth m))"
proof -
  have "stored_state_ok m \<and> parked_ok m"
    using assms state_inv.run_inv [of m0 es] ogon_state_new_inv by blast
  then show ?thesis
    by (auto simp: ogon_state_should_create_frame_def ogon_simps Let_def)
qed

theorem no_lost_wakeup_witness:
  "ogon_state_should_create_frame
     (ogon_state_set_event
        (ogon_state_run (the (ogon_state_new True))
           [OGON_EVENT_BACKEND_ATTACHED, OGON_EVENT_FRONTEND_DISABLE_OUTPUT,
            OGON_EVENT_BACKEND_SYNC_REPLY_RECEIVED])
        OGON_EVENT_FRONTEND_ENABLE_OUTPUT)"
proof -
  have new: "ogon_state_new True = Some (the (ogon_state_new True))"
    by (simp add: ogon_state_new_def)
  show ?thesis
    using no_lost_wakeup [OF new refl, of
        "[OGON_EVENT_BACKEND_ATTACHED, OGON_EVENT_FRONTEND_DISABLE_OUTPUT,
          OGON_EVENT_BACKEND_SYNC_REPLY_RECEIVED]"]
    by (simp add: ogon_state_new_def ogon_simps)
qed

text \<open>
  C6. The frame cycle. When a frame may be created and the graphics pipeline is up, a sync
  request and its reply bring the automaton to WAITING_FRAME_SENT; there no frame is created
  until one of the events that leave that state occurs; and the sent notification followed
  by the frame timer allows the next frame.
\<close>

theorem frame_cycle:
  assumes "ogon_state_should_create_frame m" and "\<not> waitingGraphicsPipeline m"
  shows "(\<forall>es. ogon_state_should_create_frame
            (ogon_state_run (ogon_state_run m [OGON_EVENT_BACKEND_SYNC_REQUESTED,
               OGON_EVENT_BACKEND_SYNC_REPLY_RECEIVED]) es)
            \<longrightarrow> (\<exists>e \<in> set es. leaves_frame_sent e)) \<and>
         ogon_state_get (ogon_state_run m [OGON_EVENT_BACKEND_SYNC_REQUESTED,
               OGON_EVENT_BACKEND_SYNC_REPLY_RECEIVED]) = OGON_STATE_WAITING_FRAME_SENT \<and>
         ogon_state_should_create_frame
            (ogon_state_run m [OGON_EVENT_BACKEND_SYNC_REQUESTED,
               OGON_EVENT_BACKEND_SYNC_REPLY_RECEIVED, OGON_EVENT_FRONTEND_FRAME_SENT,
               OGON_EVENT_FRAME_TIMER])"
proof -
  let ?m = "ogon_state_run m [OGON_EVENT_BACKEND_SYNC_REQUESTED,
               OGON_EVENT_BACKEND_SYNC_REPLY_RECEIVED]"
  have sent: "currentState ?m = OGON_STATE_WAITING_FRAME_SENT" and "\<not> resizePending ?m"
    using assms by (auto simp: ogon_state_should_create_frame_def ogon_simps)
  moreover have "\<exists>e \<in> set es. leaves_frame_sent e"
    if "ogon_state_should_create_frame (ogon_state_run ?m es)" for es
    using frame_sent_latch.released_by [OF sent, of es] that
    by (auto simp: ogon_state_should_create_frame_def)
  moreover have "ogon_state_should_create_frame
            (ogon_state_run m [OGON_EVENT_BACKEND_SYNC_REQUESTED,
               OGON_EVENT_BACKEND_SYNC_REPLY_RECEIVED, OGON_EVENT_FRONTEND_FRAME_SENT,
               OGON_EVENT_FRAME_TIMER])"
    using assms by (auto simp: ogon_state_should_create_frame_def ogon_simps)
  ultimately show ?thesis
    by (auto simp: ogon_state_get_def)
qed

theorem frame_cycle_witness:
  "ogon_state_get (ogon_state_run example_machine [OGON_EVENT_BACKEND_SYNC_REQUESTED,
       OGON_EVENT_BACKEND_SYNC_REPLY_RECEIVED]) = OGON_STATE_WAITING_FRAME_SENT"
proof -
  have "ogon_state_should_create_frame example_machine"
    and "\<not> waitingGraphicsPipeline example_machine"
    by (simp_all add: example_machine_def ogon_state_should_create_frame_def)
  then show ?thesis using frame_cycle by blast
qed

end
