(* ===== verification/Bandwidth.thy ===== *)
theory Bandwidth
  imports Ogon_Prelude "HOL-Library.Signed_Division"
begin

text \<open>
  Bandwidth management of a front connection (\<open>rdp-server/bandwidth_mgmt.c\<close>, the structs of
  \<open>peer.h\<close> and the bandwidth part of the frame timer in \<open>frontend.c\<close>): a ring of
  per-frame bit budgets (buckets), the carry-over of what was sent too much, the suppression
  counter, and the round trip and bandwidth measurements. C's unsigned arithmetic is word
  arithmetic; a division by zero and an array access out of bounds are \<open>None\<close>. What comes
  from FreeRDP (bytes sent, the clock, the result of a send) is an argument.
\<close>

section \<open>Model\<close>

record ogon_bandwidth_statistic =
  timedelta :: u32
  bits :: u32

record ogon_bandwidth_mgmt =
  configured_bitrate :: u32
  autodetect_bitRateKBit :: u32
  autodetect_bandwidth_seq :: u16
  autodetect_rtt_sent :: bool
  autodetect_rtt_starttime :: u32
  autodetect_rtt_seq :: u16
  statistics :: "ogon_bandwidth_statistic list"
  current_statistic :: u16
  bucket :: "u32 list"
  current_bucket :: u32
  future_data_size_used :: u32
  suppressed_frames :: u32

text \<open>
  The parts of \<open>ogon_connection\<close>, of its front connection, statistics and FreeRDP peer
  that the component reads and writes.
\<close>

record bw_connection =
  fps :: int
  bandwidthMgmt :: ogon_bandwidth_mgmt
  frameAcknowledge :: u32
  lastAckFrame :: u32
  nextFrameId :: u32
  bytes_sent_current :: u32
  activated :: bool
  networkAutoDetect :: bool
  netCharBaseRTT :: u32
  netCharAverageRTT :: u32
  netCharBandwidth :: u32
  bandwidthMeasureByteCount :: u32
  bandwidthMeasureTimeDelta :: u32

definition OGON_MAX_BUCKET :: nat where "OGON_MAX_BUCKET = 15"
definition OGON_MAX_STATISTIC :: nat where "OGON_MAX_STATISTIC = 30"
definition MIN_DATA_SIZE :: u32 where "MIN_DATA_SIZE = 7 * 1024"
definition STD_USED_ENCODING_BITRATE :: u32 where "STD_USED_ENCODING_BITRATE = 10 * 1024 * 1024"

text \<open>\<open>UINT32 / int\<close>: the divisor is converted to unsigned; division by zero is undefined.\<close>

definition div_fps :: "u32 \<Rightarrow> int \<Rightarrow> u32 option" where
  "div_fps a f = (if (word_of_int f :: u32) = 0 then None else Some (a div word_of_int f))"

definition bucket_at :: "ogon_bandwidth_mgmt \<Rightarrow> int \<Rightarrow> u32 option" where
  "bucket_at bw i =
     (if 0 \<le> i \<and> i < int (length (bucket bw)) then Some (bucket bw ! nat i) else None)"

definition bucket_set :: "ogon_bandwidth_mgmt \<Rightarrow> int \<Rightarrow> u32 \<Rightarrow> ogon_bandwidth_mgmt" where
  "bucket_set bw i v = bw\<lparr>bucket := (bucket bw)[nat i := v]\<rparr>"

definition ogon_bwmgmt_init_buckets :: "bw_connection \<Rightarrow> u32 \<Rightarrow> bw_connection option" where
  "ogon_bwmgmt_init_buckets conn bitrate =
     (let bitrate = (if bitrate = 0 then STD_USED_ENCODING_BITRATE else bitrate) in
      case div_fps bitrate (fps conn) of
        None \<Rightarrow> None
      | Some target \<Rightarrow>
          Some (conn\<lparr>bandwidthMgmt := (bandwidthMgmt conn)\<lparr>bucket := replicate OGON_MAX_BUCKET target\<rparr>\<rparr>))"

text \<open>The frame budget before the carried-over usage is charged (first half of \<open>update_bucket\<close>).\<close>

definition target_frame_size :: "bw_connection \<Rightarrow> u32 option" where
  "target_frame_size conn =
     (let bw = bandwidthMgmt conn in
      if configured_bitrate bw = 0 \<and> autodetect_bitRateKBit bw > 20
      then div_fps (autodetect_bitRateKBit bw * 1024) (fps conn)
      else if configured_bitrate bw \<noteq> 0 then div_fps (configured_bitrate bw) (fps conn)
      else div_fps STD_USED_ENCODING_BITRATE (fps conn))"

definition charge_future ::
    "int \<Rightarrow> u32 \<Rightarrow> ogon_bandwidth_mgmt \<Rightarrow> u32 \<times> ogon_bandwidth_mgmt" where
  "charge_future f target bw =
     (if target < future_data_size_used bw
      then let bw = bw\<lparr>future_data_size_used := future_data_size_used bw - target\<rparr> in
           if suppressed_frames bw = word_of_int f
           then (target, bw\<lparr>suppressed_frames := 0\<rparr>)
           else (0, bw\<lparr>suppressed_frames := suppressed_frames bw + 1\<rparr>)
      else (target - future_data_size_used bw,
            bw\<lparr>future_data_size_used := 0, suppressed_frames := 0\<rparr>))"

definition ogon_bwmgmt_update_bucket :: "bw_connection \<Rightarrow> (u32 \<times> bw_connection) option" where
  "ogon_bwmgmt_update_bucket conn =
     (let bw = bandwidthMgmt conn;
          cur = current_bucket bw + 1;
          cur = (if cur \<ge> of_nat OGON_MAX_BUCKET then 0 else cur);
          bw = bw\<lparr>current_bucket := cur\<rparr>
      in case target_frame_size conn of
           None \<Rightarrow> None
         | Some target \<Rightarrow>
             (let (target, bw) = (if configured_bitrate bw \<noteq> 0 then (target, bw)
                                  else charge_future (fps conn) target bw)
              in case bucket_at bw (uint (current_bucket bw)) of
                   None \<Rightarrow> None
                 | Some _ \<Rightarrow>
                     Some (target, conn\<lparr>bandwidthMgmt :=
                             bucket_set bw (uint (current_bucket bw)) target\<rparr>)))"

definition ogon_bwmgmt_calc_using_buckets :: "bw_connection \<Rightarrow> u16" where
  "ogon_bwmgmt_calc_using_buckets conn =
     (let using_buckets = (ucast (frameAcknowledge conn) :: u16);
          using_buckets = (if using_buckets = 0
             then word_of_int (if fps conn sdiv 2 > int OGON_MAX_BUCKET
                               then int OGON_MAX_BUCKET else fps conn sdiv 2)
             else using_buckets)
      in if using_buckets > of_nat OGON_MAX_BUCKET then of_nat OGON_MAX_BUCKET else using_buckets)"

text \<open>
  The recursion decrements the \<open>UINT16\<close> depth before it tests it, so it ends after
  \<open>depth\<close> buckets, and after 65536 when it is entered with depth 0.
\<close>

function ogon_bwmgmt_update_bucket_usage_rec ::
    "ogon_bandwidth_mgmt \<Rightarrow> u32 \<Rightarrow> u16 \<Rightarrow> int \<Rightarrow> (u32 \<times> ogon_bandwidth_mgmt) option" where
  "ogon_bwmgmt_update_bucket_usage_rec bw size_used depth current_index =
     (let i = (if current_index < 0 then current_index + int OGON_MAX_BUCKET
               else if current_index \<ge> int OGON_MAX_BUCKET
               then current_index - int OGON_MAX_BUCKET else current_index) in
      case bucket_at bw i of
        None \<Rightarrow> None
      | Some currentBucketSize \<Rightarrow>
          if size_used > currentBucketSize
          then if depth - 1 = 0
               then Some (size_used - currentBucketSize, bucket_set bw i 0)
               else ogon_bwmgmt_update_bucket_usage_rec (bucket_set bw i 0)
                      (size_used - currentBucketSize) (depth - 1) (i + 1)
          else Some (0, bucket_set bw i (currentBucketSize - size_used)))"
  by pat_completeness auto
termination
  by (relation "measure (\<lambda>(bw, size_used, depth, current_index). unat (depth - 1))")
     (auto intro: unat_pred2_less)

declare ogon_bwmgmt_update_bucket_usage_rec.simps [simp del]

definition ogon_bwmgmt_update_bucket_usage ::
    "bw_connection \<Rightarrow> u32 \<Rightarrow> (u32 \<times> bw_connection) option" where
  "ogon_bwmgmt_update_bucket_usage conn size_used =
     (let bw = bandwidthMgmt conn;
          currentBucketIndex = current_bucket bw;
          usingBuckets = ogon_bwmgmt_calc_using_buckets conn
      in case bucket_at bw (uint currentBucketIndex) of
           None \<Rightarrow> None
         | Some currentBucketSize \<Rightarrow>
             if size_used > currentBucketSize
             then (case ogon_bwmgmt_update_bucket_usage_rec
                          (bucket_set bw (uint currentBucketIndex) 0)
                          (size_used - currentBucketSize) usingBuckets
                          (sint (currentBucketIndex - ucast usingBuckets)) of
                     None \<Rightarrow> None
                   | Some (left, bw) \<Rightarrow> Some (left, conn\<lparr>bandwidthMgmt := bw\<rparr>))
             else Some (0, conn\<lparr>bandwidthMgmt :=
                     bucket_set bw (uint currentBucketIndex) (currentBucketSize - size_used)\<rparr>))"

text \<open>\<open>dataWritten\<close> is what \<open>freerdp_get_transport_sent\<close> reports.\<close>

definition ogon_bwmgmt_update_data_usage :: "bw_connection \<Rightarrow> u32 \<Rightarrow> bw_connection option" where
  "ogon_bwmgmt_update_data_usage conn dataWritten =
     (let conn = conn\<lparr>bytes_sent_current := bytes_sent_current conn + dataWritten\<rparr> in
      if configured_bitrate (bandwidthMgmt conn) \<noteq> 0 then Some conn
      else case ogon_bwmgmt_update_bucket_usage conn (dataWritten * 8) of
             None \<Rightarrow> None
           | Some (left, conn) \<Rightarrow>
               Some (if left \<noteq> 0
                     then conn\<lparr>bandwidthMgmt := (bandwidthMgmt conn)\<lparr>future_data_size_used :=
                                  future_data_size_used (bandwidthMgmt conn) + left\<rparr>\<rparr>
                     else conn))"

text \<open>One turn of the loop per value of \<open>run\<close>, from \<open>using_buckets - 1\<close> down to 0.\<close>

fun sum_target_buckets :: "ogon_bandwidth_mgmt \<Rightarrow> nat \<Rightarrow> u32 option" where
  "sum_target_buckets bw 0 = Some 0"
| "sum_target_buckets bw (Suc run) =
     (let i = sint (current_bucket bw - of_nat run);
          i = (if i < 0 then i + int OGON_MAX_BUCKET else i)
      in case bucket_at bw i of
           None \<Rightarrow> None
         | Some v \<Rightarrow> map_option (\<lambda>rest. v + rest) (sum_target_buckets bw run))"

definition ogon_bwmgtm_calc_max_target_frame_size :: "bw_connection \<Rightarrow> u32 option" where
  "ogon_bwmgtm_calc_max_target_frame_size conn =
     (let bw = bandwidthMgmt conn in
      if configured_bitrate bw \<noteq> 0 then bucket_at bw (uint (current_bucket bw))
      else sum_target_buckets bw (unat (ogon_bwmgmt_calc_using_buckets conn)))"

text \<open>\<open>now\<close> is \<open>GetTickCount()\<close>; the second result says whether a request is sent.\<close>

definition ogon_bwmgmt_client_detect_rtt :: "bw_connection \<Rightarrow> u32 \<Rightarrow> bw_connection \<times> bool" where
  "ogon_bwmgmt_client_detect_rtt conn now =
     (let bw = bandwidthMgmt conn in
      if \<not> activated conn \<or> \<not> networkAutoDetect conn \<or> frameAcknowledge conn = 0
      then (conn, False)
      else if lastAckFrame conn + frameAcknowledge conn + 1 < nextFrameId conn then (conn, False)
      else if autodetect_rtt_sent bw then (conn, False)
      else if now - autodetect_rtt_starttime bw < 1000 then (conn, False)
      else (conn\<lparr>bandwidthMgmt := bw\<lparr>autodetect_rtt_starttime := now,
                                       autodetect_rtt_sent := True\<rparr>\<rparr>, True))"

definition ogon_bwmgmt_client_rtt_measure_response :: "bw_connection \<Rightarrow> bw_connection" where
  "ogon_bwmgmt_client_rtt_measure_response conn =
     (let conn = (if frameAcknowledge conn \<noteq> 0
                  then let frameack = min (max (netCharBaseRTT conn * word_of_int (fps conn) div 1000) 2)
                                          (word_of_int (fps conn))
                       in if frameack \<noteq> frameAcknowledge conn
                          then conn\<lparr>frameAcknowledge := frameack\<rparr> else conn
                  else conn);
          bw = bandwidthMgmt conn
      in conn\<lparr>bandwidthMgmt := bw\<lparr>autodetect_rtt_sent := False,
                                    autodetect_rtt_seq := autodetect_rtt_seq bw + 1\<rparr>,
              netCharAverageRTT := 0, netCharBaseRTT := 0\<rparr>)"

definition ogon_bwmgmt_client_bandwidth_meassure_average :: "ogon_bandwidth_mgmt \<Rightarrow> u32" where
  "ogon_bwmgmt_client_bandwidth_meassure_average bw =
     (let totalBitrates = sum_list (map bits (statistics bw));
          totaltimedelta = sum_list (map timedelta (statistics bw))
      in if totaltimedelta \<noteq> 0 then totalBitrates div totaltimedelta else 0)"

definition ogon_bwmgmt_client_bandwidth_measure_results ::
    "bw_connection \<Rightarrow> bw_connection option" where
  "ogon_bwmgmt_client_bandwidth_measure_results conn =
     (let bw = bandwidthMgmt conn;
          byte_count = bandwidthMeasureByteCount conn;
          time_delta = bandwidthMeasureTimeDelta conn
      in if byte_count < MIN_DATA_SIZE then Some conn
         else if time_delta < 2
         then let rate = autodetect_bitRateKBit bw in
              if rate > 100 * 1024 then Some conn
              else let rate = (if rate = 0 then STD_USED_ENCODING_BITRATE div 1024 else rate * 2)
                   in Some (conn\<lparr>bandwidthMgmt := bw\<lparr>
                              statistics := replicate OGON_MAX_STATISTIC \<lparr>timedelta = 1, bits = rate\<rparr>,
                              autodetect_bitRateKBit := rate\<rparr>\<rparr>)
         else let cur = current_statistic bw + 1;
                  cur = (if cur \<ge> of_nat OGON_MAX_STATISTIC then 0 else cur)
              in if unat cur < length (statistics bw)
                 then let bw = bw\<lparr>current_statistic := cur,
                                  statistics := (statistics bw)[unat cur :=
                                     \<lparr>timedelta = time_delta, bits = byte_count * 8\<rparr>]\<rparr>;
                          rate = ogon_bwmgmt_client_bandwidth_meassure_average bw
                      in Some (conn\<lparr>bandwidthMgmt := bw\<lparr>autodetect_bitRateKBit :=
                                 (if rate \<noteq> 0 then rate else netCharBandwidth conn)\<rparr>\<rparr>)
                 else None)"

text \<open>
  \<open>send\<close> is the result of FreeRDP's \<open>BandwidthMeasureStart\<close> (or \<open>Stop\<close>) for the
  sequence number it is called with.
\<close>

definition ogon_bwmgmt_detect_bandwidth_start :: "bw_connection \<Rightarrow> (u16 \<Rightarrow> bool) \<Rightarrow> bool" where
  "ogon_bwmgmt_detect_bandwidth_start conn send =
     (if \<not> activated conn \<or> \<not> networkAutoDetect conn then True
      else send (autodetect_bandwidth_seq (bandwidthMgmt conn)))"

definition ogon_bwmgmt_detect_bandwidth_stop :: "bw_connection \<Rightarrow> (u16 \<Rightarrow> bool) \<Rightarrow> bool" where
  "ogon_bwmgmt_detect_bandwidth_stop conn send =
     (if \<not> activated conn \<or> \<not> networkAutoDetect conn then True
      else send (autodetect_bandwidth_seq (bandwidthMgmt conn)))"

text \<open>
  The bandwidth part of one frame timer tick of an H.264 connection
  (\<open>handle_frame_timer_event\<close>): charge what was sent, open the next bucket; the budget
  0 means that no frame is created in this tick.
\<close>

definition frame_timer_bandwidth :: "bw_connection \<Rightarrow> u32 \<Rightarrow> (u32 \<times> bw_connection) option" where
  "frame_timer_bandwidth conn dataWritten =
     (case ogon_bwmgmt_update_data_usage conn dataWritten of
        None \<Rightarrow> None | Some conn \<Rightarrow> ogon_bwmgmt_update_bucket conn)"

fun frame_timer_budgets :: "bw_connection \<Rightarrow> u32 list \<Rightarrow> (u32 list \<times> bw_connection) option" where
  "frame_timer_budgets conn [] = Some ([], conn)"
| "frame_timer_budgets conn (w # ws) =
     (case frame_timer_bandwidth conn w of
        None \<Rightarrow> None
      | Some (b, conn) \<Rightarrow> map_option (\<lambda>(bs, conn). (b # bs, conn)) (frame_timer_budgets conn ws))"

definition bw_wf :: "ogon_bandwidth_mgmt \<Rightarrow> bool" where
  "bw_wf bw \<longleftrightarrow> length (bucket bw) = OGON_MAX_BUCKET \<and>
     unat (current_bucket bw) < OGON_MAX_BUCKET \<and>
     length (statistics bw) = OGON_MAX_STATISTIC \<and>
     unat (current_statistic bw) < OGON_MAX_STATISTIC"

text \<open>The ring position \<open>k\<close> buckets after position \<open>i\<close>.\<close>

definition ring_pos :: "int \<Rightarrow> nat" where
  "ring_pos i = nat (i mod int OGON_MAX_BUCKET)"

definition bucket_total :: "ogon_bandwidth_mgmt \<Rightarrow> nat" where
  "bucket_total bw = sum_list (map unat (bucket bw))"

text \<open>
  What one call of the recursion promises: it returns; only bucket sizes change, and they
  only shrink; the bits are neither lost nor invented; and if bits are left over, every
  bucket it was allowed to use is empty.
\<close>

definition usage_post ::
    "ogon_bandwidth_mgmt \<Rightarrow> u32 \<Rightarrow> u32 \<Rightarrow> ogon_bandwidth_mgmt \<Rightarrow> bool" where
  "usage_post bw size_used left bw' \<longleftrightarrow>
     bw' = bw\<lparr>bucket := bucket bw'\<rparr> \<and> length (bucket bw') = OGON_MAX_BUCKET \<and>
     (\<forall>j < OGON_MAX_BUCKET. bucket bw' ! j \<le> bucket bw ! j) \<and>
     bucket_total bw' + unat size_used = bucket_total bw + unat left"

text \<open>
  The operations the server's event handlers call on a connection, with what FreeRDP reports
  to them as arguments, and runs of them.
\<close>

definition bw_ok :: "bw_connection \<Rightarrow> bool" where
  "bw_ok conn \<longleftrightarrow> bw_wf (bandwidthMgmt conn) \<and> (word_of_int (fps conn) :: u32) \<noteq> 0"

datatype bw_op =
    InitBuckets u32
  | UpdateBucket
  | DataUsage u32
  | DetectRtt u32
  | RttResponse u32
  | MeasureResults u32 u32 u32

fun bw_step :: "bw_op \<Rightarrow> bw_connection \<Rightarrow> bw_connection option" where
  "bw_step (InitBuckets bitrate) conn = ogon_bwmgmt_init_buckets conn bitrate"
| "bw_step UpdateBucket conn = map_option snd (ogon_bwmgmt_update_bucket conn)"
| "bw_step (DataUsage written) conn = ogon_bwmgmt_update_data_usage conn written"
| "bw_step (DetectRtt now) conn = Some (fst (ogon_bwmgmt_client_detect_rtt conn now))"
| "bw_step (RttResponse rtt) conn =
     Some (ogon_bwmgmt_client_rtt_measure_response (conn\<lparr>netCharBaseRTT := rtt\<rparr>))"
| "bw_step (MeasureResults bytes time bandwidth) conn =
     ogon_bwmgmt_client_bandwidth_measure_results
       (conn\<lparr>bandwidthMeasureByteCount := bytes, bandwidthMeasureTimeDelta := time,
             netCharBandwidth := bandwidth\<rparr>)"

fun bw_run :: "bw_op list \<Rightarrow> bw_connection \<Rightarrow> bw_connection option" where
  "bw_run [] conn = Some conn"
| "bw_run (op # ops) conn = (case bw_step op conn of None \<Rightarrow> None | Some conn \<Rightarrow> bw_run ops conn)"

text \<open>The next bucket of the ring.\<close>

definition next_bucket :: "u32 \<Rightarrow> u32" where
  "next_bucket cur = (if cur + 1 \<ge> of_nat OGON_MAX_BUCKET then 0 else cur + 1)"

text \<open>A tick in which the carried-over usage is exactly the budget of the frame.\<close>

definition exact_hit :: "bw_connection \<Rightarrow> u32 \<Rightarrow> bool" where
  "exact_hit conn w = (case ogon_bwmgmt_update_data_usage conn w of
     None \<Rightarrow> False
   | Some conn \<Rightarrow> target_frame_size conn = Some (future_data_size_used (bandwidthMgmt conn)))"

fun any_exact_hit :: "bw_connection \<Rightarrow> u32 list \<Rightarrow> bool" where
  "any_exact_hit conn [] = False"
| "any_exact_hit conn (w # ws) = (exact_hit conn w \<or>
     (case frame_timer_bandwidth conn w of None \<Rightarrow> False | Some (_, conn) \<Rightarrow> any_exact_hit conn ws))"

definition auto_bitrate :: "bw_connection \<Rightarrow> u32 \<Rightarrow> bool" where
  "auto_bitrate conn t \<longleftrightarrow> bw_ok conn \<and> configured_bitrate (bandwidthMgmt conn) = 0 \<and>
     target_frame_size conn = Some t \<and> t \<noteq> 0"

text \<open>Exact usage: buckets stay empty, nothing is carried over, no frame is counted.\<close>

definition drained :: "bw_connection \<Rightarrow> u32 \<Rightarrow> bool" where
  "drained conn t \<longleftrightarrow> auto_bitrate conn t \<and> bucket_total (bandwidthMgmt conn) = 0 \<and>
     future_data_size_used (bandwidthMgmt conn) = 0"

text \<open>A connection with zeroed bookkeeping and an acknowledgement window of two frames.\<close>

definition fresh_bw :: "int \<Rightarrow> bw_connection" where
  "fresh_bw f = \<lparr>fps = f, bandwidthMgmt = \<lparr>configured_bitrate = 0, autodetect_bitRateKBit = 0,
     autodetect_bandwidth_seq = 0, autodetect_rtt_sent = False, autodetect_rtt_starttime = 0,
     autodetect_rtt_seq = 0, statistics = replicate 30 \<lparr>timedelta = 0, bits = 0\<rparr>,
     current_statistic = 0, bucket = replicate 15 0, current_bucket = 0,
     future_data_size_used = 0, suppressed_frames = 0\<rparr>,
     frameAcknowledge = 2, lastAckFrame = 0, nextFrameId = 0, bytes_sent_current = 0,
     activated = True, networkAutoDetect = True, netCharBaseRTT = 0, netCharAverageRTT = 0,
     netCharBandwidth = 0, bandwidthMeasureByteCount = 0, bandwidthMeasureTimeDelta = 0\<rparr>"

section \<open>The bucket ring\<close>

lemma ring_pos_less [simp]: "ring_pos i < 15"
  by (simp add: ring_pos_def OGON_MAX_BUCKET_def nat_less_iff)

lemma ring_index_norm:
  assumes "-15 \<le> i" "i < 30"
  shows "(if i < 0 then i + int OGON_MAX_BUCKET
          else if i \<ge> int OGON_MAX_BUCKET then i - int OGON_MAX_BUCKET else i) = int (ring_pos i)"
proof -
  have "i mod 15 = (if i < 0 then i + 15 else if i \<ge> 15 then i - 15 else i)"
    using assms by presburger
  then show ?thesis using assms by (simp add: ring_pos_def OGON_MAX_BUCKET_def)
qed

lemma ring_pos_shift: "ring_pos (int (ring_pos i) + 1 + k) = ring_pos (i + 1 + k)"
  using mod_add_left_eq [of i 15 "1 + k"]
  by (simp add: ring_pos_def OGON_MAX_BUCKET_def add.assoc)

lemma bucket_at_pos [simp]:
  "length (bucket bw) = OGON_MAX_BUCKET \<Longrightarrow>
     bucket_at bw (int (ring_pos i)) = Some (bucket bw ! ring_pos i)"
  by (simp add: bucket_at_def OGON_MAX_BUCKET_def)

lemma bucket_set_simps [simp]:
  "bucket (bucket_set bw i v) = (bucket bw)[nat i := v]"
  "current_bucket (bucket_set bw i v) = current_bucket bw"
  "statistics (bucket_set bw i v) = statistics bw"
  "current_statistic (bucket_set bw i v) = current_statistic bw"
  "configured_bitrate (bucket_set bw i v) = configured_bitrate bw"
  "autodetect_bitRateKBit (bucket_set bw i v) = autodetect_bitRateKBit bw"
  "future_data_size_used (bucket_set bw i v) = future_data_size_used bw"
  "suppressed_frames (bucket_set bw i v) = suppressed_frames bw"
  by (simp_all add: bucket_set_def)

lemma usage_rec_step:
  assumes "length (bucket bw) = OGON_MAX_BUCKET" "-15 \<le> i" "i < 30"
  shows "ogon_bwmgmt_update_bucket_usage_rec bw size_used depth i =
     (let p = ring_pos i; cur = bucket bw ! p in
      if size_used > cur
      then if depth = 1 then Some (size_used - cur, bucket_set bw (int p) 0)
           else ogon_bwmgmt_update_bucket_usage_rec (bucket_set bw (int p) 0)
                  (size_used - cur) (depth - 1) (int p + 1)
      else Some (0, bucket_set bw (int p) (cur - size_used)))"
  using assms ring_index_norm [OF assms(2,3)]
  by (subst ogon_bwmgmt_update_bucket_usage_rec.simps) (simp add: Let_def)

lemma bucket_total_set:
  assumes "length (bucket bw) = OGON_MAX_BUCKET"
  shows "bucket_total (bucket_set bw (int (ring_pos i)) v) + unat (bucket bw ! ring_pos i)
         = bucket_total bw + unat v"
  using assms sum_list_update_unat [of "ring_pos i" "bucket bw" v]
  by (simp add: bucket_total_def OGON_MAX_BUCKET_def)

lemma usage_postD:
  assumes "usage_post bw s l bw'"
  shows "bw' = bw\<lparr>bucket := bucket bw'\<rparr>" and "length (bucket bw') = OGON_MAX_BUCKET"
    and "j < OGON_MAX_BUCKET \<Longrightarrow> bucket bw' ! j \<le> bucket bw ! j"
    and "bucket_total bw' + unat s = bucket_total bw + unat l"
  using assms by (simp_all add: usage_post_def)

lemma usage_post_trans:
  assumes 1: "usage_post bw s0 s1 bw1" and 2: "usage_post bw1 s1 s2 bw2"
  shows "usage_post bw s0 s2 bw2"
proof -
  have "bw2 = bw\<lparr>bucket := bucket bw2\<rparr>"
  proof -
    have "bw2 = (bw\<lparr>bucket := bucket bw1\<rparr>)\<lparr>bucket := bucket bw2\<rparr>"
      using usage_postD(1) [OF 1] usage_postD(1) [OF 2] by simp
    then show ?thesis by simp
  qed
  moreover have "bucket bw2 ! j \<le> bucket bw ! j" if "j < OGON_MAX_BUCKET" for j
    using usage_postD(3) [OF 1 that] usage_postD(3) [OF 2 that] by (rule order_trans [rotated])
  moreover have "bucket_total bw2 + unat s0 = bucket_total bw + unat s2"
    using usage_postD(4) [OF 1] usage_postD(4) [OF 2] by linarith
  ultimately show ?thesis using usage_postD(2) [OF 2] by (simp add: usage_post_def)
qed

lemma usage_post_set:
  assumes "length (bucket bw) = OGON_MAX_BUCKET" and "v \<le> bucket bw ! ring_pos i"
    and "unat v + unat s = unat (bucket bw ! ring_pos i) + unat l"
  shows "usage_post bw s l (bucket_set bw (int (ring_pos i)) v)"
proof -
  have "bucket_total (bucket_set bw (int (ring_pos i)) v) + unat s = bucket_total bw + unat l"
    using bucket_total_set [OF assms(1), of i v] assms(3) by linarith
  then show ?thesis
    using assms(1,2)
    by (simp add: usage_post_def bucket_set_def nth_list_update OGON_MAX_BUCKET_def)
qed

lemma usage_post_drain:
  assumes "length (bucket bw) = OGON_MAX_BUCKET" "bucket bw ! ring_pos i < s"
  shows "usage_post bw s (s - bucket bw ! ring_pos i) (bucket_set bw (int (ring_pos i)) 0)"
  using assms unat_diff_le [of "bucket bw ! ring_pos i" s]
  by (intro usage_post_set) (simp_all add: word_less_nat_alt word_le_nat_alt)

lemma usage_post_charge:
  assumes "length (bucket bw) = OGON_MAX_BUCKET" "s \<le> bucket bw ! ring_pos i"
  shows "usage_post bw s 0 (bucket_set bw (int (ring_pos i)) (bucket bw ! ring_pos i - s))"
  using assms unat_diff_le [of s "bucket bw ! ring_pos i"]
  by (intro usage_post_set) (simp_all add: word_le_nat_alt)

lemma usage_rec_correct:
  assumes "length (bucket bw) = OGON_MAX_BUCKET" "-15 \<le> i" "i < 30"
  shows "\<exists>left bw'. ogon_bwmgmt_update_bucket_usage_rec bw s depth i = Some (left, bw') \<and>
           usage_post bw s left bw' \<and>
           (left \<noteq> 0 \<and> depth \<noteq> 0 \<longrightarrow>
              (\<forall>k < unat depth. bucket bw' ! ring_pos (i + int k) = 0))"
  using assms
proof (induction bw s depth i rule: ogon_bwmgmt_update_bucket_usage_rec.induct)
  case (1 bw s depth i)
  let ?p = "ring_pos i" and ?drained = "bucket_set bw (int (ring_pos i)) 0"
  note step = usage_rec_step [OF "1.prems", of s depth]
  show ?case
  proof (cases "s > bucket bw ! ?p")
    case False
    then show ?thesis
      using step usage_post_charge [OF "1.prems"(1), of s i] by (auto simp: Let_def)
  next
    case drain: True
    note post0 = usage_post_drain [OF "1.prems"(1) drain]
    show ?thesis
    proof (cases "depth = 1")
      case True
      then show ?thesis
        using step drain post0 "1.prems"(1) by (auto simp: Let_def OGON_MAX_BUCKET_def)
    next
      case False
      obtain left bw' where rest:
        "ogon_bwmgmt_update_bucket_usage_rec ?drained (s - bucket bw ! ?p) (depth - 1) (int ?p + 1)
           = Some (left, bw')"
        "usage_post ?drained (s - bucket bw ! ?p) left bw'"
        "left \<noteq> 0 \<and> depth - 1 \<noteq> 0 \<longrightarrow>
           (\<forall>k < unat (depth - 1). bucket bw' ! ring_pos (int ?p + 1 + int k) = 0)"
        using "1.IH" [OF ring_index_norm [OF "1.prems"(2,3), symmetric]] drain False "1.prems"(1)
          ring_pos_less [of i] by auto
      have "bucket bw' ! ring_pos (i + int k) = 0"
        if "left \<noteq> 0" "depth \<noteq> 0" "k < unat depth" for k
      proof (cases k)
        case 0
        have "bucket bw' ! ?p \<le> bucket ?drained ! ?p"
          using usage_postD(3) [OF rest(2)] by (simp add: OGON_MAX_BUCKET_def)
        then show ?thesis using 0 "1.prems"(1) by (simp add: OGON_MAX_BUCKET_def)
      next
        case (Suc k')
        with that have "k' < unat (depth - 1)" by (simp add: unat_minus_one)
        with rest(3) that False have "bucket bw' ! ring_pos (int ?p + 1 + int k') = 0" by auto
        then have "bucket bw' ! ring_pos (i + 1 + int k') = 0" by (simp only: ring_pos_shift)
        then show ?thesis using Suc by (simp add: add.assoc)
      qed
      then show ?thesis
        using step drain False rest(1) usage_post_trans [OF post0 rest(2)] by (auto simp: Let_def)
    qed
  qed
qed

section \<open>The operations\<close>

lemma using_buckets_le: "unat (ogon_bwmgmt_calc_using_buckets conn) \<le> 15"
proof -
  have "unat (if w > of_nat OGON_MAX_BUCKET then of_nat OGON_MAX_BUCKET else w) \<le> 15" for w :: u16
    by (simp add: OGON_MAX_BUCKET_def word_less_nat_alt not_less)
  then show ?thesis
    unfolding ogon_bwmgmt_calc_using_buckets_def Let_def .
qed

lemma sint_ring_diff:
  fixes a b :: u32
  assumes "unat a \<le> 15" "unat b \<le> 15"
  shows "sint (a - b) = int (unat a) - int (unat b)"
proof -
  have "uint (a - b) = take_bit 32 (uint a - uint b)"
    by (simp add: uint_word_ariths take_bit_eq_mod)
  then have "sint (a - b) = signed_take_bit 31 (uint a - uint b)"
    by (simp add: sint_uint signed_take_bit_take_bit)
  moreover have "-15 \<le> uint a - uint b" "uint a - uint b \<le> 15"
    using assms [THEN uint_le_of_unat] uint_ge_0 [of a] uint_ge_0 [of b] by linarith+
  then have "signed_take_bit 31 (uint a - uint b) = uint a - uint b"
    by (intro signed_take_bit_int_eq_self) simp_all
  ultimately show ?thesis by (simp only: uint_nat)
qed

lemma current_bucket_pos:
  assumes "bw_wf bw"
  shows "uint (current_bucket bw) = int (ring_pos (uint (current_bucket bw)))"
    and "uint (current_bucket bw) < 15"
proof -
  show less: "uint (current_bucket bw) < 15"
    using assms uint_less_of_unat [of "current_bucket bw" 15]
    by (simp add: bw_wf_def OGON_MAX_BUCKET_def)
  then show "uint (current_bucket bw) = int (ring_pos (uint (current_bucket bw)))"
    by (simp add: ring_pos_def OGON_MAX_BUCKET_def)
qed

lemma usage_start_index:
  assumes "bw_wf bw"
  shows "sint (current_bucket bw - ucast (ogon_bwmgmt_calc_using_buckets conn)) =
         uint (current_bucket bw) - int (unat (ogon_bwmgmt_calc_using_buckets conn))"
  using assms using_buckets_le [of conn]
  by (subst sint_ring_diff) (simp_all add: bw_wf_def OGON_MAX_BUCKET_def)

text \<open>
  The recursion is entered \<open>usingBuckets\<close> places before the current bucket, after the
  current one has been emptied.
\<close>

lemma update_bucket_usage_correct:
  assumes wf: "bw_wf (bandwidthMgmt conn)"
  defines "cur \<equiv> uint (current_bucket (bandwidthMgmt conn))"
    and "win \<equiv> ogon_bwmgmt_calc_using_buckets conn"
  obtains left bw' where
    "ogon_bwmgmt_update_bucket_usage conn s = Some (left, conn\<lparr>bandwidthMgmt := bw'\<rparr>)"
    "usage_post (bandwidthMgmt conn) s left bw'"
    "left \<noteq> 0 \<Longrightarrow> bucket bw' ! ring_pos cur = 0"
    "left \<noteq> 0 \<Longrightarrow> \<forall>k < unat win. bucket bw' ! ring_pos (cur - int (unat win) + int k) = 0"
proof -
  let ?bw = "bandwidthMgmt conn" and ?p = "ring_pos cur"
  let ?drained = "bucket_set ?bw (int ?p) 0"
  have len: "length (bucket ?bw) = OGON_MAX_BUCKET" using wf by (simp add: bw_wf_def)
  have cur: "cur = int ?p" and "cur < 15"
    unfolding cur_def by (rule current_bucket_pos [OF wf])+
  then have at: "bucket_at ?bw (uint (current_bucket ?bw)) = Some (bucket ?bw ! ?p)"
    using len by (metis bucket_at_pos cur_def)
  have unf: "ogon_bwmgmt_update_bucket_usage conn s =
      (if s > bucket ?bw ! ?p
       then (case ogon_bwmgmt_update_bucket_usage_rec ?drained (s - bucket ?bw ! ?p) win
                    (cur - int (unat win)) of
               None \<Rightarrow> None | Some (left, bw) \<Rightarrow> Some (left, conn\<lparr>bandwidthMgmt := bw\<rparr>))
       else Some (0, conn\<lparr>bandwidthMgmt := bucket_set ?bw (int ?p) (bucket ?bw ! ?p - s)\<rparr>))"
    using cur at usage_start_index [OF wf, of conn]
    by (simp add: ogon_bwmgmt_update_bucket_usage_def Let_def cur_def win_def)
  show ?thesis
  proof (cases "s > bucket ?bw ! ?p")
    case False
    then show ?thesis
      using unf usage_post_charge [OF len, of s cur] that by simp
  next
    case True
    have "-15 \<le> cur - int (unat win)" "cur - int (unat win) < 30"
      using cur \<open>cur < 15\<close> using_buckets_le [of conn] unfolding win_def by linarith+
    moreover have "length (bucket ?drained) = OGON_MAX_BUCKET" using len by simp
    ultimately obtain left bw' where r:
      "ogon_bwmgmt_update_bucket_usage_rec ?drained (s - bucket ?bw ! ?p) win
         (cur - int (unat win)) = Some (left, bw')"
      "usage_post ?drained (s - bucket ?bw ! ?p) left bw'"
      "left \<noteq> 0 \<and> win \<noteq> 0 \<longrightarrow> (\<forall>k < unat win.
          bucket bw' ! ring_pos (cur - int (unat win) + int k) = 0)"
      using usage_rec_correct by blast
    have "bucket bw' ! ?p = 0"
      using usage_postD(3) [OF r(2), of ?p] len by (simp add: OGON_MAX_BUCKET_def)
    then show ?thesis
      using that [of left bw'] unf True r usage_post_trans [OF usage_post_drain [OF len True] r(2)]
      by auto
  qed
qed

lemma div_fps_total: "bw_ok conn \<Longrightarrow> div_fps a (fps conn) = Some (a div word_of_int (fps conn))"
  by (simp add: div_fps_def bw_ok_def)

lemma target_frame_size_total: "bw_ok conn \<Longrightarrow> \<exists>t. target_frame_size conn = Some t"
  by (simp add: target_frame_size_def div_fps_total Let_def)

lemma unat_next_bucket: "unat (next_bucket cur) < OGON_MAX_BUCKET"
  by (simp add: next_bucket_def OGON_MAX_BUCKET_def word_le_nat_alt not_le)

lemma update_bucket_eq:
  assumes "bw_ok conn" "target_frame_size conn = Some t"
  shows "ogon_bwmgmt_update_bucket conn =
     (let bw = (bandwidthMgmt conn)\<lparr>current_bucket := next_bucket (current_bucket (bandwidthMgmt conn))\<rparr>;
          (b, bw) = (if configured_bitrate bw \<noteq> 0 then (t, bw) else charge_future (fps conn) t bw)
      in Some (b, conn\<lparr>bandwidthMgmt := bucket_set bw (uint (current_bucket bw)) b\<rparr>))"
proof -
  let ?n = "next_bucket (current_bucket (bandwidthMgmt conn))"
  have "uint ?n < 15" "0 \<le> uint ?n"
    using uint_less_of_unat [OF unat_next_bucket] by (auto simp: OGON_MAX_BUCKET_def)
  moreover have "length (bucket (bandwidthMgmt conn)) = 15"
    using assms(1) by (simp add: bw_ok_def bw_wf_def OGON_MAX_BUCKET_def)
  ultimately show ?thesis
    unfolding ogon_bwmgmt_update_bucket_def Let_def next_bucket_def [symmetric]
    using assms(2) by (simp add: bucket_at_def charge_future_def Let_def)
qed

lemma charge_future_frame:
  assumes "charge_future f t bw = (b, bw')"
  shows "bucket bw' = bucket bw" "current_bucket bw' = current_bucket bw"
    "statistics bw' = statistics bw" "current_statistic bw' = current_statistic bw"
    "configured_bitrate bw' = configured_bitrate bw"
    "autodetect_bitRateKBit bw' = autodetect_bitRateKBit bw"
  using assms by (auto simp: charge_future_def Let_def split: if_splits)

lemma update_bucket_ok:
  assumes "bw_ok conn"
  obtains b conn' where "ogon_bwmgmt_update_bucket conn = Some (b, conn')" "bw_ok conn'"
    "fps conn' = fps conn"
    "target_frame_size conn' = target_frame_size conn"
proof -
  obtain t where t: "target_frame_size conn = Some t" using target_frame_size_total [OF assms] ..
  let ?bw = "(bandwidthMgmt conn)\<lparr>current_bucket := next_bucket (current_bucket (bandwidthMgmt conn))\<rparr>"
  obtain b bw' where r: "(if configured_bitrate ?bw \<noteq> 0 then (t, ?bw)
      else charge_future (fps conn) t ?bw) = (b, bw')" by (rule prod.exhaust)
  then have "bucket bw' = bucket ?bw" "current_bucket bw' = current_bucket ?bw"
    "statistics bw' = statistics ?bw" "current_statistic bw' = current_statistic ?bw"
    "configured_bitrate bw' = configured_bitrate ?bw"
    "autodetect_bitRateKBit bw' = autodetect_bitRateKBit ?bw"
    by (auto split: if_splits dest: charge_future_frame)
  then show ?thesis
    using that update_bucket_eq [OF assms t] r assms unat_next_bucket
    by (simp add: Let_def bw_ok_def bw_wf_def target_frame_size_def)
qed

lemma update_data_usage_ok:
  assumes "bw_ok conn"
  obtains conn' where "ogon_bwmgmt_update_data_usage conn w = Some conn'" "bw_ok conn'"
    "fps conn' = fps conn" "target_frame_size conn' = target_frame_size conn"
    "suppressed_frames (bandwidthMgmt conn') = suppressed_frames (bandwidthMgmt conn)"
    "configured_bitrate (bandwidthMgmt conn') = configured_bitrate (bandwidthMgmt conn)"
proof (cases "configured_bitrate (bandwidthMgmt conn) = 0")
  case False
  then show ?thesis
    using assms that
    by (simp add: ogon_bwmgmt_update_data_usage_def bw_ok_def target_frame_size_def Let_def)
next
  case True
  let ?conn = "conn\<lparr>bytes_sent_current := bytes_sent_current conn + w\<rparr>"
  have "bw_wf (bandwidthMgmt ?conn)" using assms by (simp add: bw_ok_def)
  then obtain left bw' where u:
    "ogon_bwmgmt_update_bucket_usage ?conn (w * 8) = Some (left, ?conn\<lparr>bandwidthMgmt := bw'\<rparr>)"
    "usage_post (bandwidthMgmt ?conn) (w * 8) left bw'"
    by (rule update_bucket_usage_correct [of ?conn "w * 8"])
  obtain bs where "bw' = (bandwidthMgmt conn)\<lparr>bucket := bs\<rparr>" "length bs = OGON_MAX_BUCKET"
    using usage_postD(1,2) [OF u(2)] by simp
  then show ?thesis
    using True u(1) assms that
    by (simp add: ogon_bwmgmt_update_data_usage_def Let_def bw_ok_def bw_wf_def
        target_frame_size_def)
qed

lemma measure_results_ok:
  assumes "bw_ok conn"
  shows "\<exists>conn'. ogon_bwmgmt_client_bandwidth_measure_results conn = Some conn' \<and> bw_ok conn'"
proof -
  let ?cur = "current_statistic (bandwidthMgmt conn) + 1"
  have "unat (if ?cur \<ge> of_nat OGON_MAX_STATISTIC then 0 else ?cur) < OGON_MAX_STATISTIC"
    by (simp add: OGON_MAX_STATISTIC_def word_le_nat_alt not_le)
  then show ?thesis
    using assms
    by (simp add: ogon_bwmgmt_client_bandwidth_measure_results_def Let_def bw_ok_def bw_wf_def)
qed

lemma bw_step_ok:
  assumes "bw_ok conn"
  shows "\<exists>conn'. bw_step op conn = Some conn' \<and> bw_ok conn'"
proof (cases op)
  case (InitBuckets bitrate)
  then show ?thesis using assms
    by (simp add: ogon_bwmgmt_init_buckets_def Let_def div_fps_total) (simp add: bw_ok_def bw_wf_def)
next
  case UpdateBucket
  obtain b conn' where "ogon_bwmgmt_update_bucket conn = Some (b, conn')" "bw_ok conn'"
    by (rule update_bucket_ok [OF assms])
  then show ?thesis using UpdateBucket by simp
next
  case (DataUsage w)
  obtain conn' where "ogon_bwmgmt_update_data_usage conn w = Some conn'" "bw_ok conn'"
    by (rule update_data_usage_ok [OF assms])
  then show ?thesis using DataUsage by simp
next
  case (DetectRtt now)
  then show ?thesis using assms
    by (simp add: ogon_bwmgmt_client_detect_rtt_def Let_def bw_ok_def bw_wf_def)
next
  case (RttResponse rtt)
  then show ?thesis using assms
    by (simp add: ogon_bwmgmt_client_rtt_measure_response_def Let_def bw_ok_def bw_wf_def)
next
  case (MeasureResults b t w)
  let ?conn = "conn\<lparr>bandwidthMeasureByteCount := b, bandwidthMeasureTimeDelta := t, netCharBandwidth := w\<rparr>"
  have "bw_ok ?conn" using assms by (simp add: bw_ok_def)
  then show ?thesis using MeasureResults measure_results_ok [of ?conn] by simp
qed

lemma bucket_total_zero_iff: "bucket_total bw = 0 \<longleftrightarrow> (\<forall>b \<in> set (bucket bw). b = 0)"
  by (auto simp: bucket_total_def unat_eq_0)

lemma auto_update_bucket:
  assumes "auto_bitrate conn t"
  obtains b conn' where "ogon_bwmgmt_update_bucket conn = Some (b, conn')"
    "auto_bitrate conn' t" "fps conn' = fps conn"
    "b = fst (charge_future (fps conn) t (bandwidthMgmt conn))"
    "suppressed_frames (bandwidthMgmt conn') =
       suppressed_frames (snd (charge_future (fps conn) t (bandwidthMgmt conn)))"
    "future_data_size_used (bandwidthMgmt conn') =
       future_data_size_used (snd (charge_future (fps conn) t (bandwidthMgmt conn)))"
    "bucket (bandwidthMgmt conn') = (bucket (bandwidthMgmt conn))
       [unat (next_bucket (current_bucket (bandwidthMgmt conn))) := b]"
proof -
  have ok: "bw_ok conn" and auto: "configured_bitrate (bandwidthMgmt conn) = 0"
    and t: "target_frame_size conn = Some t" "t \<noteq> 0"
    using assms by (auto simp: auto_bitrate_def)
  obtain b conn' where r: "ogon_bwmgmt_update_bucket conn = Some (b, conn')" "bw_ok conn'"
    "fps conn' = fps conn" "target_frame_size conn' = target_frame_size conn"
    by (rule update_bucket_ok [OF ok])
  let ?bw = "bandwidthMgmt conn"
  have c: "charge_future (fps conn) t (?bw\<lparr>current_bucket := c\<rparr>) =
     map_prod id (current_bucket_update (\<lambda>_. c)) (charge_future (fps conn) t ?bw)" for c
    by (simp add: charge_future_def Let_def)
  obtain b0 bw0 where c0: "charge_future (fps conn) t ?bw = (b0, bw0)" by (rule prod.exhaust)
  show ?thesis
    using that [OF r(1)] r update_bucket_eq [OF ok t(1)] auto t c c0 charge_future_frame [OF c0]
    by (auto simp: auto_bitrate_def Let_def)
qed

lemma auto_data_usage:
  assumes "auto_bitrate conn t"
  obtains conn' where "ogon_bwmgmt_update_data_usage conn w = Some conn'" "auto_bitrate conn' t"
    "fps conn' = fps conn"
    "suppressed_frames (bandwidthMgmt conn') = suppressed_frames (bandwidthMgmt conn)"
proof -
  have ok: "bw_ok conn" using assms by (auto simp: auto_bitrate_def)
  show ?thesis
    using that assms by (auto simp: auto_bitrate_def intro: update_data_usage_ok [OF ok, of w])
qed

text \<open>Without an exact hit, a budget of 0 is counted as a suppressed frame.\<close>

lemma charge_future_zero:
  assumes "charge_future f t bw = (0, bw')" "t \<noteq> 0" "t \<noteq> future_data_size_used bw"
  shows "suppressed_frames bw \<noteq> word_of_int f"
    "suppressed_frames bw' = suppressed_frames bw + 1"
  using assms by (auto simp: charge_future_def Let_def split: if_splits)

lemma frame_timer_zero:
  assumes "auto_bitrate conn t"
  obtains b conn' where "frame_timer_bandwidth conn w = Some (b, conn')" "auto_bitrate conn' t"
    "fps conn' = fps conn"
    "b = 0 \<and> \<not> exact_hit conn w \<longrightarrow>
       suppressed_frames (bandwidthMgmt conn) \<noteq> word_of_int (fps conn) \<and>
       suppressed_frames (bandwidthMgmt conn') = suppressed_frames (bandwidthMgmt conn) + 1"
proof -
  obtain c where c: "ogon_bwmgmt_update_data_usage conn w = Some c" "auto_bitrate c t"
    "fps c = fps conn" "suppressed_frames (bandwidthMgmt c) = suppressed_frames (bandwidthMgmt conn)"
    by (rule auto_data_usage [OF assms])
  obtain b conn' where u: "ogon_bwmgmt_update_bucket c = Some (b, conn')"
    "auto_bitrate conn' t" "fps conn' = fps c"
    "b = fst (charge_future (fps c) t (bandwidthMgmt c))"
    "suppressed_frames (bandwidthMgmt conn') =
       suppressed_frames (snd (charge_future (fps c) t (bandwidthMgmt c)))"
    by (rule auto_update_bucket [OF c(2)])
  have hit: "exact_hit conn w \<longleftrightarrow> t = future_data_size_used (bandwidthMgmt c)" and "t \<noteq> 0"
    using c by (auto simp: exact_hit_def auto_bitrate_def)
  show ?thesis
  proof (rule that)
    show "frame_timer_bandwidth conn w = Some (b, conn')"
      using c u by (simp add: frame_timer_bandwidth_def)
    show "auto_bitrate conn' t" "fps conn' = fps conn" using u c by simp_all
    show "b = 0 \<and> \<not> exact_hit conn w \<longrightarrow>
       suppressed_frames (bandwidthMgmt conn) \<noteq> word_of_int (fps conn) \<and>
       suppressed_frames (bandwidthMgmt conn') = suppressed_frames (bandwidthMgmt conn) + 1"
      using charge_future_zero [of "fps c" t "bandwidthMgmt c"
          "snd (charge_future (fps c) t (bandwidthMgmt c))"] u c hit \<open>t \<noteq> 0\<close>
      by (metis prod.collapse)
  qed
qed

lemma starved_length:
  assumes "auto_bitrate conn t" "frame_timer_budgets conn ws = Some (replicate (length ws) 0, conn')"
    "\<not> any_exact_hit conn ws"
    "suppressed_frames (bandwidthMgmt conn) \<le> word_of_int (fps conn)"
  shows "length ws + unat (suppressed_frames (bandwidthMgmt conn)) \<le> unat (word_of_int (fps conn) :: u32)"
  using assms
proof (induction ws arbitrary: conn)
  case Nil
  then show ?case by (simp add: word_le_nat_alt)
next
  case (Cons w ws)
  obtain b c where s: "frame_timer_bandwidth conn w = Some (b, c)" "auto_bitrate c t"
    "fps c = fps conn"
    "b = 0 \<and> \<not> exact_hit conn w \<longrightarrow>
       suppressed_frames (bandwidthMgmt conn) \<noteq> word_of_int (fps conn) \<and>
       suppressed_frames (bandwidthMgmt c) = suppressed_frames (bandwidthMgmt conn) + 1"
    by (rule frame_timer_zero [OF Cons.prems(1), of w])
  from Cons.prems(2) s(1) have "b = 0"
    and rest: "frame_timer_budgets c ws = Some (replicate (length ws) 0, conn')"
    by (auto split: option.splits)
  with s(4) Cons.prems(3) have less: "suppressed_frames (bandwidthMgmt conn) < word_of_int (fps conn)"
    and sup: "suppressed_frames (bandwidthMgmt c) = suppressed_frames (bandwidthMgmt conn) + 1"
    using Cons.prems(4) by auto
  then have "suppressed_frames (bandwidthMgmt c) \<le> word_of_int (fps c)"
    "unat (suppressed_frames (bandwidthMgmt c)) = Suc (unat (suppressed_frames (bandwidthMgmt conn)))"
    using s(3) unat_succ [OF less] by simp_all
  then show ?case using Cons.IH [OF s(2) rest] Cons.prems(3) s by simp
qed

lemma frame_timer_budgets_total:
  assumes "auto_bitrate conn t"
  shows "\<exists>bs conn'. frame_timer_budgets conn ws = Some (bs, conn') \<and> length bs = length ws"
  using assms
proof (induction ws arbitrary: conn)
  case (Cons w ws)
  obtain b c where "frame_timer_bandwidth conn w = Some (b, c)" "auto_bitrate c t"
    by (rule frame_timer_zero [OF Cons.prems, of w])
  then show ?case using Cons.IH [of c] by auto
qed simp

lemma frame_guarantee_run:
  assumes "auto_bitrate conn t"
    "suppressed_frames (bandwidthMgmt conn) \<le> word_of_int (fps conn)"
    "length ws = Suc (unat (word_of_int (fps conn) :: u32))"
    "\<not> any_exact_hit conn ws"
  shows "\<exists>bs conn'. frame_timer_budgets conn ws = Some (bs, conn') \<and> (\<exists>b \<in> set bs. b \<noteq> 0)"
proof -
  obtain bs conn' where r: "frame_timer_budgets conn ws = Some (bs, conn')" "length bs = length ws"
    using frame_timer_budgets_total [OF assms(1)] by blast
  have "\<exists>b \<in> set bs. b \<noteq> 0"
  proof (rule ccontr)
    assume "\<not> ?thesis"
    then have "bs = replicate (length ws) 0" using r(2) by (metis replicate_length_same)
    then show False
      using starved_length [OF assms(1) _ assms(4,2)] r(1) assms(3) by auto
  qed
  with r show ?thesis by blast
qed

lemma drained_data_usage:
  assumes "drained conn t" "w * 8 = t"
  obtains conn' where "ogon_bwmgmt_update_data_usage conn w = Some conn'"
    "auto_bitrate conn' t" "bucket_total (bandwidthMgmt conn') = 0"
    "future_data_size_used (bandwidthMgmt conn') = t"
proof -
  let ?conn = "conn\<lparr>bytes_sent_current := bytes_sent_current conn + w\<rparr>"
  have "bw_wf (bandwidthMgmt ?conn)" and "t \<noteq> 0" and auto: "configured_bitrate (bandwidthMgmt conn) = 0"
    using assms by (simp_all add: drained_def auto_bitrate_def bw_ok_def)
  then obtain left bw' where u:
    "ogon_bwmgmt_update_bucket_usage ?conn (w * 8) = Some (left, ?conn\<lparr>bandwidthMgmt := bw'\<rparr>)"
    "usage_post (bandwidthMgmt ?conn) (w * 8) left bw'"
    using update_bucket_usage_correct [of ?conn "w * 8"] by metis
  have "bucket_total bw' \<le> 0"
  proof -
    have "\<forall>b \<in> set (bucket bw'). b = 0"
    proof
      fix b assume "b \<in> set (bucket bw')"
      then obtain j where "j < OGON_MAX_BUCKET" "b = bucket bw' ! j"
        using usage_postD(2) [OF u(2)] by (auto simp: in_set_conv_nth)
      moreover have "\<forall>b \<in> set (bucket (bandwidthMgmt conn)). b = 0"
        "length (bucket (bandwidthMgmt conn)) = OGON_MAX_BUCKET"
        using assms(1) bucket_total_zero_iff
        by (auto simp: drained_def auto_bitrate_def bw_ok_def bw_wf_def)
      ultimately have "bucket (bandwidthMgmt conn) ! j = 0" by (metis nth_mem)
      then show "b = 0"
        using usage_postD(3) [OF u(2) \<open>j < OGON_MAX_BUCKET\<close>] \<open>b = bucket bw' ! j\<close> by simp
    qed
    then show ?thesis using bucket_total_zero_iff by auto
  qed
  moreover have "left = t"
    using usage_postD(4) [OF u(2)] calculation assms
    by (simp add: drained_def word_unat_eq_iff)
  moreover obtain bs where "bw' = (bandwidthMgmt conn)\<lparr>bucket := bs\<rparr>"
    using usage_postD(1) [OF u(2)] by simp
  moreover obtain c where "ogon_bwmgmt_update_data_usage conn w = Some c" "auto_bitrate c t"
    using assms(1) auto_data_usage [of conn t w] by (auto simp: drained_def)
  ultimately show ?thesis
    using that [of c] u(1) auto \<open>t \<noteq> 0\<close> assms
    by (auto simp: ogon_bwmgmt_update_data_usage_def Let_def drained_def bucket_total_def)
qed

lemma bucket_total_update_0:
  "bucket_total bw = 0 \<Longrightarrow> bucket bw' = (bucket bw)[i := 0] \<Longrightarrow> bucket_total bw' = 0"
  using set_update_subset_insert [of "bucket bw" i 0] by (auto simp: bucket_total_zero_iff)

lemma drained_tick:
  assumes "drained conn t" "w * 8 = t"
  obtains conn' where "frame_timer_bandwidth conn w = Some (0, conn')" "drained conn' t"
proof -
  obtain c where c: "ogon_bwmgmt_update_data_usage conn w = Some c"
    "auto_bitrate c t" "bucket_total (bandwidthMgmt c) = 0"
    "future_data_size_used (bandwidthMgmt c) = t"
    by (rule drained_data_usage [OF assms])
  obtain b conn' where u: "ogon_bwmgmt_update_bucket c = Some (b, conn')"
    "auto_bitrate conn' t"
    "b = fst (charge_future (fps c) t (bandwidthMgmt c))"
    "future_data_size_used (bandwidthMgmt conn') =
       future_data_size_used (snd (charge_future (fps c) t (bandwidthMgmt c)))"
    "bucket (bandwidthMgmt conn') = (bucket (bandwidthMgmt c))
       [unat (next_bucket (current_bucket (bandwidthMgmt c))) := b]"
    by (rule auto_update_bucket [OF c(2)])
  have "b = 0" "future_data_size_used (bandwidthMgmt conn') = 0"
    using u c by (simp_all add: charge_future_def)
  then show ?thesis
    using that [of conn'] c u bucket_total_update_0 [OF c(3)]
    by (simp add: frame_timer_bandwidth_def drained_def)
qed

lemma drained_run:
  assumes "drained conn t" "w * 8 = t"
  shows "\<exists>conn'. frame_timer_budgets conn (replicate n w) = Some (replicate n 0, conn')"
  using assms(1)
proof (induction n arbitrary: conn)
  case (Suc n)
  obtain c where "frame_timer_bandwidth conn w = Some (0, c)" "drained c t"
    by (rule drained_tick [OF Suc.prems assms(2)])
  then show ?case using Suc.IH [of c] by auto
qed simp

lemma sum_target_window:
  assumes "bw_wf bw" "n \<le> OGON_MAX_BUCKET"
  shows "sum_target_buckets bw n = Some (\<Sum>k<n. bucket bw ! ring_pos (uint (current_bucket bw) - int k))"
  using assms(2)
proof (induction n)
  case (Suc n)
  let ?i = "uint (current_bucket bw) - int n"
  have n: "n < 15" using Suc.prems by (simp add: OGON_MAX_BUCKET_def)
  then have "unat (of_nat n :: u32) = n" by (simp add: unat_of_nat take_bit_nat_eq_self)
  then have i: "sint (current_bucket bw - of_nat n) = ?i"
    using n assms(1) by (subst sint_ring_diff) (simp_all add: bw_wf_def OGON_MAX_BUCKET_def)
  have "-15 \<le> ?i" "?i < 15"
    using current_bucket_pos [OF assms(1)] n uint_ge_0 [of "current_bucket bw"] by linarith+
  then have "(if ?i < 0 then ?i + int OGON_MAX_BUCKET else ?i) = int (ring_pos ?i)"
    using ring_index_norm [of ?i] by (simp add: OGON_MAX_BUCKET_def split: if_splits)
  then show ?case
    using Suc i assms(1) by (simp add: Let_def bw_wf_def add.commute)
qed simp

lemma using_buckets_pos:
  assumes "2 \<le> fps conn" "fps conn < 2 ^ 31"
  shows "ogon_bwmgmt_calc_using_buckets conn \<noteq> 0"
proof -
  have "fps conn sdiv 2 = fps conn div 2" using assms by (simp add: signed_divide_int_def)
  moreover have "(word_of_int (if fps conn div 2 > 15 then 15 else fps conn div 2) :: u16) \<noteq> 0"
    if "\<not> fps conn div 2 > 15"
    using that assms by (auto simp: word_of_int_eq_0_iff dest!: zdvd_imp_le)
  ultimately show ?thesis
    by (simp add: ogon_bwmgmt_calc_using_buckets_def Let_def OGON_MAX_BUCKET_def)
qed

lemma rtt_response_ack:
  assumes "2 \<le> fps conn" "fps conn < 2 ^ 31" "frameAcknowledge conn \<noteq> 0"
  shows "2 \<le> frameAcknowledge (ogon_bwmgmt_client_rtt_measure_response conn) \<and>
    frameAcknowledge (ogon_bwmgmt_client_rtt_measure_response conn) \<le> word_of_int (fps conn)"
proof -
  have "(2 :: u32) \<le> word_of_int (fps conn)"
    using assms by (simp add: word_le_def uint_word_of_int)
  moreover have "frameAcknowledge (ogon_bwmgmt_client_rtt_measure_response conn) =
      min (max (netCharBaseRTT conn * word_of_int (fps conn) div 1000) 2) (word_of_int (fps conn))"
    using assms(3) by (simp add: ogon_bwmgmt_client_rtt_measure_response_def Let_def)
  ultimately show ?thesis by simp
qed

section \<open>Properties\<close>

text \<open>
  C7. No sequence of bandwidth operations, whatever the network and the client report, divides
  by zero or leaves the bucket ring and the statistics array: every run returns, in a
  well-formed state.
\<close>

theorem bandwidth_runs_safely:
  "bw_ok conn \<Longrightarrow> \<exists>conn'. bw_run ops conn = Some conn' \<and> bw_ok conn'"
proof (induction ops arbitrary: conn)
  case (Cons op ops)
  then show ?case using bw_step_ok [of conn op] by auto
qed simp

theorem bandwidth_runs_safely_witness:
  "\<exists>conn'. bw_run [InitBuckets 0, DataUsage 4294967295, UpdateBucket, MeasureResults 9000 3 0]
     (fresh_bw 20) = Some conn' \<and> bw_ok conn'"
  by (rule bandwidth_runs_safely)
     (simp add: bw_ok_def bw_wf_def fresh_bw_def OGON_MAX_BUCKET_def OGON_MAX_STATISTIC_def)

text \<open>
  C8. Charging sent bits conserves them: what leaves the buckets plus what is returned for the
  future is exactly what was sent, no bucket grows, and bits are carried to the future only
  when the current bucket and the whole acknowledgement window before it are used up.
\<close>

theorem bucket_usage_conserves:
  assumes "bw_ok conn"
  shows "\<exists>left bw'. ogon_bwmgmt_update_bucket_usage conn s = Some (left, conn\<lparr>bandwidthMgmt := bw'\<rparr>) \<and>
     bucket_total bw' + unat s = bucket_total (bandwidthMgmt conn) + unat left \<and>
     (\<forall>j < OGON_MAX_BUCKET. bucket bw' ! j \<le> bucket (bandwidthMgmt conn) ! j) \<and>
     (left \<noteq> 0 \<longrightarrow> (\<forall>k \<le> unat (ogon_bwmgmt_calc_using_buckets conn).
        bucket bw' ! ring_pos (uint (current_bucket (bandwidthMgmt conn)) - int k) = 0))"
proof -
  let ?cur = "uint (current_bucket (bandwidthMgmt conn))"
  let ?n = "unat (ogon_bwmgmt_calc_using_buckets conn)"
  have "bw_wf (bandwidthMgmt conn)" using assms by (simp add: bw_ok_def)
  then obtain left bw' where u:
    "ogon_bwmgmt_update_bucket_usage conn s = Some (left, conn\<lparr>bandwidthMgmt := bw'\<rparr>)"
    "usage_post (bandwidthMgmt conn) s left bw'"
    "left \<noteq> 0 \<Longrightarrow> bucket bw' ! ring_pos ?cur = 0"
    "left \<noteq> 0 \<Longrightarrow> \<forall>k < ?n. bucket bw' ! ring_pos (?cur - int ?n + int k) = 0"
    using update_bucket_usage_correct [of conn s] by metis
  have "bucket bw' ! ring_pos (?cur - int k) = 0" if "left \<noteq> 0" "k \<le> ?n" for k
  proof (cases k)
    case (Suc k')
    then have "?cur - int k = ?cur - int ?n + int (?n - k)" "?n - k < ?n" using that by auto
    then show ?thesis using u(4) [OF that(1)] by metis
  qed (use u(3) that in simp)
  with u(1,2) show ?thesis by (auto simp: usage_post_def)
qed

theorem bucket_usage_conserves_witness:
  "\<exists>left bw'. ogon_bwmgmt_update_bucket_usage (fresh_bw 20) 800 =
       Some (left, (fresh_bw 20)\<lparr>bandwidthMgmt := bw'\<rparr>) \<and>
     bucket_total bw' + 800 = bucket_total (bandwidthMgmt (fresh_bw 20)) + unat left"
proof -
  have "bw_ok (fresh_bw 20)"
    by (simp add: bw_ok_def bw_wf_def fresh_bw_def OGON_MAX_BUCKET_def OGON_MAX_STATISTIC_def)
  from bucket_usage_conserves [OF this, of 800] show ?thesis by auto
qed



text \<open>
  C10. The gap in the floor: when the buckets are empty and every tick sends exactly one frame
  budget, the counter of suppressed frames is reset with each budget of 0, so no frame gets a
  budget, however long this goes on.
\<close>

theorem exact_usage_starves:
  assumes "bw_ok conn" "configured_bitrate (bandwidthMgmt conn) = 0"
    "target_frame_size conn = Some (w * 8)" "w * 8 \<noteq> 0"
    "bucket_total (bandwidthMgmt conn) = 0" "future_data_size_used (bandwidthMgmt conn) = 0"
  shows "\<exists>conn'. frame_timer_budgets conn (replicate n w) = Some (replicate n 0, conn')"
  using assms by (intro drained_run [of conn "w * 8"]) (simp_all add: drained_def auto_bitrate_def)

theorem exact_usage_starves_witness:
  "\<exists>conn'. frame_timer_budgets (fresh_bw 20) (replicate 1000 65536) = Some (replicate 1000 0, conn')"
  by (rule exact_usage_starves; code_simp)



end
