(* ===== verification/Event_Loop.thy ===== *)
theory Event_Loop
  imports Ogon_Prelude
begin

text \<open>
  The event loop of the server (\<open>rdp-server/eventloop.c\<close>), in its epoll and its select
  variant (the boolean \<open>epoll\<close> of a definition is \<open>HAVE_EPOLL_H\<close>). Sources live in an explicit store, so
  that freeing one and using it afterwards is visible: a use of a freed source by the loop is
  the error \<open>UseAfterFree\<close>, one by a callback is \<open>ClientError\<close>. Callbacks are arbitrary code
  that calls the interface of the loop: what they do is an argument, a function from the
  invocations so far to the list of interface calls they make.
  WinPR's \<open>wLinkedList\<close> is the list of its elements, the epoll instance the map from the
  registered descriptors to the data pointer and the event bits; the results of
  \<open>malloc\<close>, of growing a list and of the system calls are arguments.
\<close>

section \<open>Model\<close>

type_synonym source_ptr = nat
type_synonym winpr_handle = int

definition INVALID_HANDLE_VALUE :: winpr_handle where "INVALID_HANDLE_VALUE = - 1"
definition OGON_EVENTLOOP_READ :: u32 where "OGON_EVENTLOOP_READ = 0x01"
definition OGON_EVENTLOOP_WRITE :: u32 where "OGON_EVENTLOOP_WRITE = 0x02"
definition OGON_EVENTLOOP_HANGUP :: u32 where "OGON_EVENTLOOP_HANGUP = 0x04"
definition OGON_EVENTLOOP_ERROR :: u32 where "OGON_EVENTLOOP_ERROR = 0x08"
definition EPOLLIN :: u32 where "EPOLLIN = 0x001"
definition EPOLLOUT :: u32 where "EPOLLOUT = 0x004"
definition EPOLLERR :: u32 where "EPOLLERR = 0x008"
definition EPOLLHUP :: u32 where "EPOLLHUP = 0x010"

datatype ev_callback = UserCb nat | Timer_cb

record ogon_event_source =
  es_callback :: ev_callback
  es_data :: nat
  es_fd :: int
  es_mask :: u32
  es_handle :: winpr_handle
  markedForRemove :: bool
  rescheduleMask :: u32
  es_timer_cb :: "nat option"
  es_timer_data :: nat
  es_dtor :: bool

text \<open>One invocation of a source's callback: the source, the mask, and whether it was already removed.\<close>

record ev_call =
  call_source :: source_ptr
  call_mask :: u32
  call_removed :: bool

text \<open>
  The loop, with the store of its sources, the invocations made so far and the handles
  closed so far.
\<close>

record ogon_event_loop =
  epollfd :: "int \<rightharpoonup> source_ptr \<times> u32"
  maxFd :: int
  numFd :: int
  readset :: "int set"
  writeset :: "int set"
  exceptset :: "int set"
  sources :: "source_ptr list"
  rescheduled :: "source_ptr list"
  cleanups :: "source_ptr list"
  mem :: "source_ptr \<rightharpoonup> ogon_event_source"
  calls :: "ev_call list"
  closed_handles :: "winpr_handle list"

datatype ev_error = UseAfterFree | ClientError | OutOfFuel

type_synonym 'a ev = "ev_error + 'a"

text \<open>What the environment answers in one interface call.\<close>

record ev_env =
  env_malloc :: "source_ptr option"
  env_list :: bool
  env_ctl :: bool
  env_fd :: int
  env_timer :: "winpr_handle option"
  env_set_timer :: bool

datatype ev_resource = LoopMemory | EpollFd | SourcesList | CleanupsList | RescheduledList

text \<open>
  Creation: the loop if every step succeeds, and the resources still held on return.
\<close>

definition empty_loop :: ogon_event_loop where
  "empty_loop = \<lparr>epollfd = Map.empty, maxFd = 0, numFd = 0, readset = {}, writeset = {},
     exceptset = {}, sources = [], rescheduled = [], cleanups = [], mem = Map.empty, calls = [],
     closed_handles = []\<rparr>"

definition eventloop_create ::
    "bool \<Rightarrow> bool \<Rightarrow> bool \<Rightarrow> bool \<Rightarrow> bool \<Rightarrow> bool \<Rightarrow> ogon_event_loop option \<times> ev_resource list" where
  "eventloop_create epoll calloc_ok epoll_ok sources_ok cleanups_ok rescheduled_ok =
     (if \<not> calloc_ok then (None, [])
      else let held = [LoopMemory] in
      if epoll \<and> \<not> epoll_ok then (None, removeAll LoopMemory held)
      else let held = (if epoll then EpollFd # held else held);
               out_epoll = (\<lambda>held. removeAll LoopMemory (removeAll EpollFd held));
               out_sources = (\<lambda>held. out_epoll (removeAll SourcesList held));
               out_cleanups = (\<lambda>held. out_sources (removeAll CleanupsList held)) in
      if \<not> sources_ok then (None, out_epoll held)
      else let held = SourcesList # held in
      if \<not> cleanups_ok then (None, out_sources held)
      else let held = CleanupsList # held in
      if \<not> rescheduled_ok then (None, out_cleanups held)
      else (Some empty_loop, RescheduledList # held))"

definition deref :: "source_ptr \<Rightarrow> ogon_event_loop \<Rightarrow> ogon_event_source ev" where
  "deref p l = (case mem l p of None \<Rightarrow> Inl UseAfterFree | Some s \<Rightarrow> Inr s)"

definition put_source :: "source_ptr \<Rightarrow> ogon_event_source \<Rightarrow> ogon_event_loop \<Rightarrow> ogon_event_loop" where
  "put_source p s l = l\<lparr>mem := (mem l)(p \<mapsto> s)\<rparr>"

definition free_source :: "source_ptr \<Rightarrow> ogon_event_loop \<Rightarrow> ogon_event_loop ev" where
  "free_source p l = res_bind (deref p l) (\<lambda>_. Inr (l\<lparr>mem := (mem l)(p := None)\<rparr>))"

definition timer_source_dtor :: "ogon_event_source \<Rightarrow> ogon_event_loop \<Rightarrow> ogon_event_loop" where
  "timer_source_dtor s l =
     (if es_handle s \<noteq> 0 then l\<lparr>closed_handles := closed_handles l @ [es_handle s]\<rparr> else l)"

definition treat_cleanup :: "source_ptr \<Rightarrow> ogon_event_loop \<Rightarrow> ogon_event_loop ev" where
  "treat_cleanup p l = res_bind (deref p l) (\<lambda>s.
     let l = (if es_dtor s then timer_source_dtor s l else l)
     in free_source p (l\<lparr>sources := remove1 p (sources l)\<rparr>))"

definition treat_cleanups :: "ogon_event_loop \<Rightarrow> ogon_event_loop ev" where
  "treat_cleanups l =
     res_bind (res_fold treat_cleanup (cleanups l) l) (\<lambda>l. Inr (l\<lparr>cleanups := []\<rparr>))"

definition eventloop_destroy :: "ogon_event_loop \<Rightarrow> ogon_event_loop ev" where
  "eventloop_destroy l = res_bind (treat_cleanups l) (\<lambda>l. res_fold free_source (sources l) l)"

definition computeEpollMask :: "u32 \<Rightarrow> u32" where
  "computeEpollMask m =
     (let ret = 0;
          ret = (if m AND OGON_EVENTLOOP_READ \<noteq> 0 then ret OR EPOLLIN else ret);
          ret = (if m AND OGON_EVENTLOOP_WRITE \<noteq> 0 then ret OR EPOLLOUT else ret)
      in if m AND OGON_EVENTLOOP_ERROR \<noteq> 0 then ret OR EPOLLERR else ret)"

text \<open>\<open>malloc\<close> never returns the address of a live source.\<close>

definition malloc_source :: "ev_env \<Rightarrow> ogon_event_loop \<Rightarrow> source_ptr option" where
  "malloc_source e l =
     (case env_malloc e of None \<Rightarrow> None | Some p \<Rightarrow> if mem l p = None then Some p else None)"

text \<open>
  \<open>epoll_ctl\<close>: adding fails on a registered descriptor, changing and deleting on one that is
  not registered; adding and changing may fail for other reasons too.
\<close>

definition epoll_ctl_add ::
    "bool \<Rightarrow> int \<Rightarrow> source_ptr \<times> u32 \<Rightarrow> ogon_event_loop \<Rightarrow> ogon_event_loop option" where
  "epoll_ctl_add ok f ev l =
     (if ok \<and> epollfd l f = None then Some (l\<lparr>epollfd := (epollfd l)(f \<mapsto> ev)\<rparr>) else None)"

definition epoll_ctl_mod ::
    "bool \<Rightarrow> int \<Rightarrow> source_ptr \<times> u32 \<Rightarrow> ogon_event_loop \<Rightarrow> ogon_event_loop option" where
  "epoll_ctl_mod ok f ev l =
     (if ok \<and> epollfd l f \<noteq> None then Some (l\<lparr>epollfd := (epollfd l)(f \<mapsto> ev)\<rparr>) else None)"

definition epoll_ctl_del :: "int \<Rightarrow> ogon_event_loop \<Rightarrow> ogon_event_loop option" where
  "epoll_ctl_del f l =
     (if epollfd l f \<noteq> None then Some (l\<lparr>epollfd := (epollfd l)(f := None)\<rparr>) else None)"

definition fd_update :: "bool \<Rightarrow> int \<Rightarrow> int set \<Rightarrow> int set" where
  "fd_update on f S = (if on then insert f S else S)"

definition new_source :: "ev_callback \<Rightarrow> nat \<Rightarrow> int \<Rightarrow> u32 \<Rightarrow> winpr_handle \<Rightarrow> ogon_event_source" where
  "new_source cb cb_data f m h =
     \<lparr>es_callback = cb, es_data = cb_data, es_fd = f, es_mask = m, es_handle = h,
      markedForRemove = False, rescheduleMask = 0, es_timer_cb = None,
      es_timer_data = 0, es_dtor = False\<rparr>"

definition eventloop_add_handle_fd ::
    "bool \<Rightarrow> ev_env \<Rightarrow> u32 \<Rightarrow> winpr_handle \<Rightarrow> int \<Rightarrow> ev_callback \<Rightarrow> nat \<Rightarrow> ogon_event_loop \<Rightarrow>
     source_ptr option \<times> ogon_event_loop" where
  "eventloop_add_handle_fd epoll e m h f cb cb_data l =
     (case malloc_source e l of
        None \<Rightarrow> (None, l)
      | Some p \<Rightarrow>
          let added = (put_source p (new_source cb cb_data f m h) l)\<lparr>sources := p # sources l\<rparr>
          in if \<not> env_list e then (None, l)
             else if epoll
             then case epoll_ctl_add (env_ctl e) f (p, computeEpollMask m) added of
                    None \<Rightarrow> (None, l)
                  | Some l' \<Rightarrow> (Some p, l')
             else (Some p, added\<lparr>
                     maxFd := (if maxFd l < f then f else maxFd l), numFd := numFd l + 1,
                     readset := fd_update (m AND OGON_EVENTLOOP_READ \<noteq> 0) f (readset l),
                     writeset := fd_update (m AND OGON_EVENTLOOP_WRITE \<noteq> 0) f (writeset l),
                     exceptset := fd_update (m AND OGON_EVENTLOOP_ERROR \<noteq> 0) f (exceptset l)\<rparr>))"

definition eventloop_add_handle ::
    "bool \<Rightarrow> ev_env \<Rightarrow> u32 \<Rightarrow> winpr_handle \<Rightarrow> ev_callback \<Rightarrow> nat \<Rightarrow> ogon_event_loop \<Rightarrow>
     source_ptr option \<times> ogon_event_loop" where
  "eventloop_add_handle epoll e m h cb cb_data l =
     (if env_fd e < 0 then (None, l)
      else eventloop_add_handle_fd epoll e m h (env_fd e) cb cb_data l)"

definition eventloop_add_fd ::
    "bool \<Rightarrow> ev_env \<Rightarrow> u32 \<Rightarrow> int \<Rightarrow> ev_callback \<Rightarrow> nat \<Rightarrow> ogon_event_loop \<Rightarrow>
     source_ptr option \<times> ogon_event_loop" where
  "eventloop_add_fd epoll e m f cb cb_data l =
     (if f < 0 then (None, l)
      else eventloop_add_handle_fd epoll e m INVALID_HANDLE_VALUE f cb cb_data l)"

definition close_handle :: "winpr_handle \<Rightarrow> ogon_event_loop \<Rightarrow> ogon_event_loop" where
  "close_handle h l = l\<lparr>closed_handles := closed_handles l @ [h]\<rparr>"

definition eventloop_add_timer ::
    "bool \<Rightarrow> ev_env \<Rightarrow> nat option \<Rightarrow> nat \<Rightarrow> ogon_event_loop \<Rightarrow> source_ptr option \<times> ogon_event_loop" where
  "eventloop_add_timer epoll e cb cb_data l =
     (if cb = None then (None, l)
      else case env_timer e of
        None \<Rightarrow> (None, l)
      | Some h \<Rightarrow>
          if \<not> env_set_timer e then (None, close_handle h l)
          else case eventloop_add_handle epoll e OGON_EVENTLOOP_READ h Timer_cb 0 l of
                 (None, l) \<Rightarrow> (None, close_handle h l)
               | (Some p, l) \<Rightarrow>
                   (Some p, l\<lparr>mem := (mem l)(p := map_option (\<lambda>s. s\<lparr>es_data := p, es_timer_cb := cb,
                      es_timer_data := cb_data, es_dtor := True\<rparr>) (mem l p))\<rparr>))"

record ogon_source_state =
  st_handle :: winpr_handle
  st_fd :: int
  st_mask :: u32
  st_cb :: ev_callback
  st_cbdata :: nat

definition eventsource_store_state :: "ogon_event_source \<Rightarrow> ogon_source_state" where
  "eventsource_store_state s = \<lparr>st_handle = es_handle s, st_fd = es_fd s, st_mask = es_mask s,
     st_cb = es_callback s, st_cbdata = es_data s\<rparr>"

definition eventloop_restore_source ::
    "bool \<Rightarrow> ev_env \<Rightarrow> ogon_source_state \<Rightarrow> ogon_event_loop \<Rightarrow> source_ptr option \<times> ogon_event_loop" where
  "eventloop_restore_source epoll e st l =
     (case eventloop_add_fd epoll e (st_mask st) (st_fd st) (st_cb st) (st_cbdata st) l of
        (None, l) \<Rightarrow> (None, l)
      | (Some p, l) \<Rightarrow>
          (Some p, l\<lparr>mem := (mem l)(p := map_option (\<lambda>s. s\<lparr>es_handle := st_handle st\<rparr>) (mem l p))\<rparr>))"

definition eventsource_change_source ::
    "bool \<Rightarrow> ev_env \<Rightarrow> source_ptr \<Rightarrow> ogon_event_source \<Rightarrow> u32 \<Rightarrow> ogon_event_loop \<Rightarrow>
     bool \<times> ogon_event_loop" where
  "eventsource_change_source epoll e p s newMask l =
     (if es_mask s = newMask then (True, l)
      else if epoll
      then case epoll_ctl_mod (env_ctl e) (es_fd s) (p, computeEpollMask newMask) l of
             None \<Rightarrow> (False, l)
           | Some l \<Rightarrow> (True, put_source p (s\<lparr>es_mask := newMask\<rparr>) l)
      else (True, put_source p (s\<lparr>es_mask := newMask\<rparr>) (l\<lparr>
              readset := fd_update (newMask AND OGON_EVENTLOOP_READ \<noteq> 0) (es_fd s) (readset l - {es_fd s}),
              writeset := fd_update (newMask AND OGON_EVENTLOOP_WRITE \<noteq> 0) (es_fd s) (writeset l - {es_fd s}),
              exceptset := fd_update (newMask AND OGON_EVENTLOOP_ERROR \<noteq> 0) (es_fd s)
                             (exceptset l - {es_fd s})\<rparr>)))"

definition eventsource_reschedule ::
    "ev_env \<Rightarrow> source_ptr \<Rightarrow> ogon_event_source \<Rightarrow> u32 \<Rightarrow> ogon_event_loop \<Rightarrow> bool \<times> ogon_event_loop" where
  "eventsource_reschedule e p s updateMask l =
     (let newMask = rescheduleMask s OR updateMask;
          (ret, l) = (if rescheduleMask s = 0
                      then if env_list e then (True, l\<lparr>rescheduled := rescheduled l @ [p]\<rparr>) else (False, l)
                      else (True, l))
      in (ret, put_source p (s\<lparr>rescheduleMask := newMask\<rparr>) l))"

definition eventsource_reschedule_for_read ::
    "ev_env \<Rightarrow> source_ptr \<Rightarrow> ogon_event_source \<Rightarrow> ogon_event_loop \<Rightarrow> bool \<times> ogon_event_loop" where
  "eventsource_reschedule_for_read e p s l = eventsource_reschedule e p s OGON_EVENTLOOP_READ l"

definition eventsource_reschedule_for_write ::
    "ev_env \<Rightarrow> source_ptr \<Rightarrow> ogon_event_source \<Rightarrow> ogon_event_loop \<Rightarrow> bool \<times> ogon_event_loop" where
  "eventsource_reschedule_for_write e p s l = eventsource_reschedule e p s OGON_EVENTLOOP_WRITE l"

definition eventloop_remove_source ::
    "bool \<Rightarrow> ev_env \<Rightarrow> source_ptr \<Rightarrow> ogon_event_source \<Rightarrow> ogon_event_loop \<Rightarrow> bool \<times> ogon_event_loop" where
  "eventloop_remove_source epoll e p s l =
     (if markedForRemove s then (True, put_source p (s\<lparr>markedForRemove := True\<rparr>) l)
      else let (ret, l) =
             (if epoll
              then case epoll_ctl_del (es_fd s) l of None \<Rightarrow> (False, l) | Some l \<Rightarrow> (True, l)
              else (True, l\<lparr>maxFd := (if maxFd l = es_fd s \<and> maxFd l \<noteq> 0 then maxFd l - 1 else maxFd l),
                            numFd := numFd l - 1,
                            readset := readset l - {es_fd s}, writeset := writeset l - {es_fd s},
                            exceptset := exceptset l - {es_fd s}\<rparr>));
               l = (if env_list e then l\<lparr>cleanups := p # cleanups l\<rparr> else l)
           in (ret, put_source p (s\<lparr>markedForRemove := True\<rparr>) l))"

text \<open>
  The interface calls of a callback (or of other code of the thread that owns the loop). A
  pointer the callback passes must be that of a live source, and of one it has not removed
  itself, unless it is removed again; \<open>CloseFd\<close> closes a descriptor, which unregisters it.
\<close>

datatype ev_action =
    AddFd ev_env u32 int nat nat
  | AddHandle ev_env u32 winpr_handle nat nat
  | AddTimer ev_env "nat option" nat
  | RestoreSource ev_env ogon_source_state
  | ChangeSource ev_env source_ptr u32
  | RescheduleRead ev_env source_ptr
  | RescheduleWrite ev_env source_ptr
  | RemoveSource ev_env source_ptr
  | CloseFd int

definition client_source :: "source_ptr \<Rightarrow> ogon_event_loop \<Rightarrow> ogon_event_source ev" where
  "client_source p l = (case mem l p of None \<Rightarrow> Inl ClientError
     | Some s \<Rightarrow> if markedForRemove s then Inl ClientError else Inr s)"

fun run_action :: "bool \<Rightarrow> ev_action \<Rightarrow> ogon_event_loop \<Rightarrow> ogon_event_loop ev" where
  "run_action epoll (AddFd e m f cb d) l = Inr (snd (eventloop_add_fd epoll e m f (UserCb cb) d l))"
| "run_action epoll (AddHandle e m h cb d) l =
     Inr (snd (eventloop_add_handle epoll e m h (UserCb cb) d l))"
| "run_action epoll (AddTimer e cb d) l = Inr (snd (eventloop_add_timer epoll e cb d l))"
| "run_action epoll (RestoreSource e st) l =
     (if st_cb st = Timer_cb then Inl ClientError
      else Inr (snd (eventloop_restore_source epoll e st l)))"
| "run_action epoll (ChangeSource e p m) l =
     res_bind (client_source p l) (\<lambda>s. Inr (snd (eventsource_change_source epoll e p s m l)))"
| "run_action epoll (RescheduleRead e p) l =
     res_bind (client_source p l) (\<lambda>s. Inr (snd (eventsource_reschedule_for_read e p s l)))"
| "run_action epoll (RescheduleWrite e p) l =
     res_bind (client_source p l) (\<lambda>s. Inr (snd (eventsource_reschedule_for_write e p s l)))"
| "run_action epoll (RemoveSource e p) l =
     (case mem l p of None \<Rightarrow> Inl ClientError
      | Some s \<Rightarrow> Inr (snd (eventloop_remove_source epoll e p s l)))"
| "run_action epoll (CloseFd f) l = Inr (l\<lparr>epollfd := (epollfd l)(f := None)\<rparr>)"

text \<open>
  The callbacks: the interface calls they make, and whether draining a timer descriptor
  succeeds, as functions of the invocations so far (the current one included).
\<close>

record ev_client =
  on_callback :: "ev_call list \<Rightarrow> ev_action list"
  drain_ok :: "ev_call list \<Rightarrow> bool"

definition run_client :: "ev_client \<Rightarrow> bool \<Rightarrow> ogon_event_loop \<Rightarrow> ogon_event_loop ev" where
  "run_client C epoll l = res_fold (run_action epoll) (on_callback C (calls l)) l"

definition timer_cb :: "ev_client \<Rightarrow> bool \<Rightarrow> u32 \<Rightarrow> nat \<Rightarrow> ogon_event_loop \<Rightarrow> ogon_event_loop ev" where
  "timer_cb C epoll m d l =
     (if m AND OGON_EVENTLOOP_READ = 0 then Inr l
      else if \<not> drain_ok C (calls l) then Inr l
      else res_bind (deref d l) (\<lambda>evsrc.
             if es_timer_cb evsrc \<noteq> None then run_client C epoll l else Inr l))"

text \<open>\<open>source->callback(mask, source->fd, source->handle, source->data)\<close>.\<close>

definition call_callback ::
    "ev_client \<Rightarrow> bool \<Rightarrow> source_ptr \<Rightarrow> ogon_event_source \<Rightarrow> u32 \<Rightarrow> ogon_event_loop \<Rightarrow> ogon_event_loop ev" where
  "call_callback C epoll p s m l =
     (let l = l\<lparr>calls := calls l @ [\<lparr>call_source = p, call_mask = m, call_removed = markedForRemove s\<rparr>]\<rparr>
      in case es_callback s of
           UserCb _ \<Rightarrow> run_client C epoll l
         | Timer_cb \<Rightarrow> timer_cb C epoll m (es_data s) l)"

fun treat_rescheduled ::
    "ev_client \<Rightarrow> bool \<Rightarrow> nat \<Rightarrow> ogon_event_loop \<Rightarrow> ogon_event_loop ev" where
  "treat_rescheduled C epoll 0 l = (if rescheduled l = [] then Inr l else Inl OutOfFuel)"
| "treat_rescheduled C epoll (Suc n) l =
     (case rescheduled l of
        [] \<Rightarrow> Inr l
      | p # _ \<Rightarrow>
          res_bind (deref p l) (\<lambda>s.
          res_bind (if \<not> markedForRemove s
                    then call_callback C epoll p (s\<lparr>rescheduleMask := 0\<rparr>) (rescheduleMask s)
                           (put_source p (s\<lparr>rescheduleMask := 0\<rparr>) l)
                    else Inr l) (\<lambda>l.
          treat_rescheduled C epoll n (l\<lparr>rescheduled := tl (rescheduled l)\<rparr>))))"

text \<open>The outcome of the wait calls of one dispatch; the loop repeats an interrupted one.\<close>

datatype 'r ev_wait = Interrupted | Failed | Ready 'r

fun wait_result :: "'r ev_wait list \<Rightarrow> 'r ev_wait option" where
  "wait_result [] = None"
| "wait_result (Interrupted # ws) = wait_result ws"
| "wait_result (w # ws) = Some w"

definition epoll_event_mask :: "ogon_event_source \<Rightarrow> u32 \<Rightarrow> u32" where
  "epoll_event_mask s events =
     (let m = 0;
          m = (if es_mask s AND OGON_EVENTLOOP_READ \<noteq> 0 \<and> events AND EPOLLIN \<noteq> 0
               then m OR OGON_EVENTLOOP_READ else m);
          m = (if es_mask s AND OGON_EVENTLOOP_WRITE \<noteq> 0 \<and> events AND EPOLLOUT \<noteq> 0
               then m OR OGON_EVENTLOOP_WRITE else m);
          m = (if es_mask s AND OGON_EVENTLOOP_ERROR \<noteq> 0 \<and> events AND EPOLLERR \<noteq> 0
               then m OR OGON_EVENTLOOP_ERROR else m)
      in if es_mask s AND OGON_EVENTLOOP_HANGUP \<noteq> 0 \<and> events AND EPOLLHUP \<noteq> 0
         then m OR OGON_EVENTLOOP_HANGUP else m)"

definition dispatch_epoll_event ::
    "ev_client \<Rightarrow> source_ptr \<times> u32 \<Rightarrow> ogon_event_loop \<Rightarrow> ogon_event_loop ev" where
  "dispatch_epoll_event C ev l =
     (case ev of (p, events) \<Rightarrow> res_bind (deref p l) (\<lambda>s.
        if markedForRemove s then Inr l
        else call_callback C True p s (epoll_event_mask s events) l))"

definition after_dispatch :: "ev_client \<Rightarrow> bool \<Rightarrow> nat \<Rightarrow> ogon_event_loop \<Rightarrow> ogon_event_loop ev" where
  "after_dispatch C epoll n l =
     res_bind (treat_rescheduled C epoll n l) (\<lambda>l.
       if length (cleanups l) \<noteq> 0 then treat_cleanups l else Inr l)"

definition eventloop_dispatch_loop_epoll ::
    "ev_client \<Rightarrow> nat \<Rightarrow> (source_ptr \<times> u32) list ev_wait list \<Rightarrow> ogon_event_loop \<Rightarrow>
     (int \<times> ogon_event_loop) ev" where
  "eventloop_dispatch_loop_epoll C n waits l =
     (case wait_result waits of
        Some (Ready events) \<Rightarrow>
          res_bind (res_fold (dispatch_epoll_event C) events l) (\<lambda>l.
          res_bind (after_dispatch C True n l) (\<lambda>l. Inr (int (length events), l)))
      | Some _ \<Rightarrow> Inr (- 1, l)
      | None \<Rightarrow> Inl OutOfFuel)"

text \<open>One pass over the sources with what \<open>select\<close> left in the three sets.\<close>

fun select_pass ::
    "ev_client \<Rightarrow> int set \<times> int set \<times> int set \<Rightarrow> source_ptr list \<Rightarrow> int \<Rightarrow> int \<Rightarrow> ogon_event_loop \<Rightarrow>
     (int \<times> ogon_event_loop) ev" where
  "select_pass C sets [] status ret l = Inr (ret, l)"
| "select_pass C sets (p # ps) status ret l =
     (if status \<le> 0 then Inr (ret, l)
      else res_bind (deref p l) (\<lambda>s.
        let (rs, ws, xs) = sets;
            f = es_fd s;
            m = (if f \<in> rs then OGON_EVENTLOOP_READ else 0);
            m = (if f \<in> ws then m OR OGON_EVENTLOOP_WRITE else m);
            m = (if f \<in> xs then m OR OGON_EVENTLOOP_ERROR else m);
            status = status - of_bool (f \<in> rs) - of_bool (f \<in> ws) - of_bool (f \<in> xs)
        in if m \<noteq> 0
           then res_bind (call_callback C False p s m l) (select_pass C sets ps status (ret + 1))
           else select_pass C sets ps status ret l))"

definition eventloop_dispatch_loop_select ::
    "ev_client \<Rightarrow> nat \<Rightarrow> (int \<times> int set \<times> int set \<times> int set) ev_wait list \<Rightarrow> ogon_event_loop \<Rightarrow>
     (int \<times> ogon_event_loop) ev" where
  "eventloop_dispatch_loop_select C n waits l =
     (case wait_result waits of
        Some (Ready (status, sets)) \<Rightarrow>
          res_bind (select_pass C sets (sources l) status 0 l) (\<lambda>(ret, l).
          res_bind (after_dispatch C False n l) (\<lambda>l. Inr (ret, l)))
      | Some _ \<Rightarrow> Inr (- 1, l)
      | None \<Rightarrow> Inl OutOfFuel)"

text \<open>
  The kernel reports events of registered descriptors only, with the data pointer they were
  registered with.
\<close>

definition epoll_reports :: "(source_ptr \<times> u32) list ev_wait list \<Rightarrow> ogon_event_loop \<Rightarrow> bool" where
  "epoll_reports waits l = (case wait_result waits of
     Some (Ready events) \<Rightarrow> \<forall>(p, _) \<in> set events. \<exists>f m. epollfd l f = Some (p, m)
   | _ \<Rightarrow> True)"

text \<open>
  The life of a loop: created empty, then interface calls (restricted to those that satisfy
  \<open>A\<close>) and dispatches in any order.
\<close>

inductive ev_reach :: "(ev_action \<Rightarrow> bool) \<Rightarrow> ev_client \<Rightarrow> bool \<Rightarrow> ogon_event_loop \<Rightarrow> bool"
  for A C epoll where
  reach_create: "eventloop_create epoll a b c d e = (Some l, held) \<Longrightarrow> ev_reach A C epoll l"
| reach_action: "ev_reach A C epoll l \<Longrightarrow> A a \<Longrightarrow> run_action epoll a l = Inr l' \<Longrightarrow>
    ev_reach A C epoll l'"
| reach_epoll: "ev_reach A C epoll l \<Longrightarrow> epoll \<Longrightarrow> epoll_reports waits l \<Longrightarrow>
    eventloop_dispatch_loop_epoll C n waits l = Inr (r, l') \<Longrightarrow> ev_reach A C epoll l'"
| reach_select: "ev_reach A C epoll l \<Longrightarrow> \<not> epoll \<Longrightarrow>
    eventloop_dispatch_loop_select C n swaits l = Inr (r, l') \<Longrightarrow> ev_reach A C epoll l'"

text \<open>
  The invariant of the loop: the sources list holds exactly the live sources, the sources to
  clean up are live and removed, the rescheduled ones are live, and the descriptors
  registered with the kernel point to live sources that are not removed.
\<close>

definition ev_inv :: "bool \<Rightarrow> ogon_event_loop \<Rightarrow> bool" where
  "ev_inv epoll l \<longleftrightarrow> distinct (sources l) \<and> set (sources l) = dom (mem l) \<and>
     distinct (cleanups l) \<and> set (rescheduled l) \<subseteq> dom (mem l) \<and>
     (\<forall>p \<in> set (cleanups l). \<exists>s. mem l p = Some s \<and> markedForRemove s) \<and>
     (\<forall>f p m. epollfd l f = Some (p, m) \<longrightarrow>
        epoll \<and> (\<exists>s. mem l p = Some s \<and> \<not> markedForRemove s \<and> es_fd s = f)) \<and>
     (\<forall>p s. mem l p = Some s \<and> es_callback s = Timer_cb \<longrightarrow> es_data s = p)"

text \<open>What a callback keeps: nothing live is freed, and rescheduling only appends.\<close>

definition ev_keep :: "bool \<Rightarrow> source_ptr set \<Rightarrow> source_ptr list \<Rightarrow> ogon_event_loop \<Rightarrow> bool" where
  "ev_keep epoll D R l \<longleftrightarrow>
     ev_inv epoll l \<and> D \<subseteq> dom (mem l) \<and> (\<exists>ys. rescheduled l = R @ ys)"

definition dispatch_ok :: "bool \<Rightarrow> int \<times> ogon_event_loop \<Rightarrow> bool" where
  "dispatch_ok epoll r = (case r of (n, l) \<Rightarrow>
     ev_inv epoll l \<and> (n \<noteq> - 1 \<longrightarrow> rescheduled l = [] \<and> cleanups l = []))"

text \<open>
  What interface calls do to the rest of the loop: they make no invocation, a removed source
  stays removed, and a pending reschedule mask only gains bits.
\<close>

definition src_grow :: "ogon_event_source \<Rightarrow> ogon_event_source \<Rightarrow> bool" where
  "src_grow s s' \<longleftrightarrow> (markedForRemove s \<longrightarrow> markedForRemove s') \<and>
     rescheduleMask s AND rescheduleMask s' = rescheduleMask s"

definition ev_grow :: "ogon_event_loop \<Rightarrow> ogon_event_loop \<Rightarrow> bool" where
  "ev_grow l l' \<longleftrightarrow> calls l' = calls l \<and> (\<exists>ys. rescheduled l' = rescheduled l @ ys) \<and>
     (\<forall>p s. mem l p = Some s \<longrightarrow> (\<exists>s'. mem l' p = Some s' \<and> src_grow s s'))"

definition live_calls :: "ogon_event_loop \<Rightarrow> ogon_event_loop \<Rightarrow> bool" where
  "live_calls l l' \<longleftrightarrow> (\<exists>cs. calls l' = calls l @ cs \<and> (\<forall>c \<in> set cs. \<not> call_removed c))"

definition rinv :: "nat \<Rightarrow> ogon_event_loop \<Rightarrow> bool" where
  "rinv k l \<longleftrightarrow> k \<le> length (rescheduled l) \<and>
     (\<forall>p s. mem l p = Some s \<and> \<not> markedForRemove s \<and> rescheduleMask s \<noteq> 0 \<longrightarrow>
        p \<in> set (drop k (rescheduled l)))"

fun lists_ok :: "ev_action \<Rightarrow> bool" where
  "lists_ok (RescheduleRead e p) = env_list e"
| "lists_ok (RescheduleWrite e p) = env_list e"
| "lists_ok _ = True"

fun is_reschedule :: "ev_action \<Rightarrow> bool" where
  "is_reschedule (RescheduleRead e p) = True"
| "is_reschedule (RescheduleWrite e p) = True"
| "is_reschedule _ = False"

definition reschedules :: "ev_action list \<Rightarrow> nat" where
  "reschedules as = length (filter is_reschedule as)"

text \<open>One turn of the loop over the rescheduled sources, on a source that is not removed.\<close>

definition turn_call :: "source_ptr \<Rightarrow> ogon_event_source \<Rightarrow> ev_call" where
  "turn_call q t = \<lparr>call_source = q, call_mask = rescheduleMask t, call_removed = False\<rparr>"

definition turn_post ::
    "source_ptr \<Rightarrow> ogon_event_source \<Rightarrow> ogon_event_loop \<Rightarrow> ogon_event_loop \<Rightarrow> bool" where
  "turn_post q t l l1 \<longleftrightarrow> \<not> markedForRemove t \<and> calls l1 = calls l @ [turn_call q t] \<and>
     (\<exists>ys. rescheduled l1 = rescheduled l @ ys) \<and>
     (\<forall>p s. p \<noteq> q \<longrightarrow> mem l p = Some s \<longrightarrow> (\<exists>s1. mem l1 p = Some s1 \<and> src_grow s s1))"

text \<open>
  The effect of interface calls on the schedule: at most one entry per reschedule call, and a
  source becomes pending only by being entered (when growing the list succeeds).
\<close>

definition pending :: "ogon_event_loop \<Rightarrow> source_ptr \<Rightarrow> bool" where
  "pending l p \<longleftrightarrow> (\<exists>s. mem l p = Some s \<and> \<not> markedForRemove s \<and> rescheduleMask s \<noteq> 0)"

definition sched_effect :: "nat \<Rightarrow> bool \<Rightarrow> ogon_event_loop \<Rightarrow> ogon_event_loop \<Rightarrow> bool" where
  "sched_effect n ok l l' \<longleftrightarrow> (\<exists>ys. rescheduled l' = rescheduled l @ ys \<and> length ys \<le> n \<and>
     (ok \<longrightarrow> (\<forall>p. pending l' p \<longrightarrow> pending l p \<or> p \<in> set ys)))"

definition client_lists_ok :: "ev_client \<Rightarrow> bool" where
  "client_lists_ok C \<longleftrightarrow> (\<forall>h. list_all lists_ok (on_callback C h))"

text \<open>
  A client whose callbacks reschedule only finitely often: a budget that every invocation
  pays for the reschedule calls it makes.
\<close>

definition reschedule_budget :: "ev_client \<Rightarrow> (ev_call list \<Rightarrow> nat) \<Rightarrow> bool" where
  "reschedule_budget C B \<longleftrightarrow> (\<forall>h c. reschedules (on_callback C (h @ [c])) + B (h @ [c]) \<le> B h)"

definition ev_work :: "(ev_call list \<Rightarrow> nat) \<Rightarrow> ogon_event_loop \<Rightarrow> nat" where
  "ev_work B l = length (rescheduled l) + B (calls l)"

text \<open>Two registered descriptors, and callbacks that remove or reschedule.\<close>

definition ex_env :: "source_ptr \<Rightarrow> ev_env" where
  "ex_env p = \<lparr>env_malloc = Some p, env_list = True, env_ctl = True, env_fd = 9,
     env_timer = Some 77, env_set_timer = True\<rparr>"

definition ex_actions :: "ev_action list" where
  "ex_actions = [AddFd (ex_env 1) OGON_EVENTLOOP_READ 5 0 0, AddFd (ex_env 2) OGON_EVENTLOOP_READ 6 0 0]"

definition ex_loop :: "bool \<Rightarrow> ogon_event_loop" where
  "ex_loop epoll = (case res_fold (run_action epoll) ex_actions empty_loop of
     Inl _ \<Rightarrow> empty_loop | Inr l \<Rightarrow> l)"

definition ex_client :: ev_client where
  "ex_client = \<lparr>on_callback = (\<lambda>h. if length h = 1 then [RemoveSource (ex_env 0) 1] else []),
     drain_ok = (\<lambda>_. True)\<rparr>"

definition ex_quiet :: ev_client where
  "ex_quiet = \<lparr>on_callback = (\<lambda>_. []), drain_ok = (\<lambda>_. True)\<rparr>"

definition ex_waits :: "(source_ptr \<times> u32) list ev_wait list" where
  "ex_waits = [Interrupted, Ready [(2, EPOLLIN), (1, EPOLLIN)]]"

end
