(* ===== verification/Event_Loop_Proofs.thy ===== *)
theory Event_Loop_Proofs
  imports Event_Loop
begin

text \<open>
  The proofs about the event loop: memory safety of callbacks, dispatch and destruction,
  which sources are invoked, delivery of rescheduled sources, and termination.
\<close>

section \<open>Memory safety\<close>

lemma ev_invD:
  assumes "ev_inv epoll l"
  shows "distinct (sources l)" "set (sources l) = dom (mem l)" "distinct (cleanups l)"
    "set (rescheduled l) \<subseteq> dom (mem l)"
    "p \<in> set (cleanups l) \<Longrightarrow> \<exists>s. mem l p = Some s \<and> markedForRemove s"
    "epollfd l f = Some (p, m) \<Longrightarrow>
       epoll \<and> (\<exists>s. mem l p = Some s \<and> \<not> markedForRemove s \<and> es_fd s = f)"
    "mem l p = Some s \<Longrightarrow> es_callback s = Timer_cb \<Longrightarrow> es_data s = p"
  using assms unfolding ev_inv_def by blast+

lemma ev_invI:
  assumes "distinct (sources l)" "set (sources l) = dom (mem l)" "distinct (cleanups l)"
    "set (rescheduled l) \<subseteq> dom (mem l)"
    "\<And>p. p \<in> set (cleanups l) \<Longrightarrow> \<exists>s. mem l p = Some s \<and> markedForRemove s"
    "\<And>f p m. epollfd l f = Some (p, m) \<Longrightarrow>
       epoll \<and> (\<exists>s. mem l p = Some s \<and> \<not> markedForRemove s \<and> es_fd s = f)"
    "\<And>p s. mem l p = Some s \<Longrightarrow> es_callback s = Timer_cb \<Longrightarrow> es_data s = p"
  shows "ev_inv epoll l"
  using assms unfolding ev_inv_def by simp

lemma add_handle_fd_cases:
  assumes "eventloop_add_handle_fd epoll e m h f cb d l = (r, l')"
  shows "r = None \<and> l' = l \<or>
    (\<exists>p. r = Some p \<and> mem l p = None \<and> sources l' = p # sources l \<and>
      mem l' = (mem l)(p \<mapsto> new_source cb d f m h) \<and>
      rescheduled l' = rescheduled l \<and> cleanups l' = cleanups l \<and> calls l' = calls l \<and>
      epollfd l' = (if epoll then (epollfd l)(f \<mapsto> (p, computeEpollMask m)) else epollfd l) \<and>
      closed_handles l' = closed_handles l)"
proof (cases "malloc_source e l")
  case None
  then show ?thesis using assms by (simp add: eventloop_add_handle_fd_def)
next
  case (Some p)
  then have "mem l p = None" by (simp add: malloc_source_def split: option.splits if_splits)
  then show ?thesis
    using assms Some
    by (auto simp: eventloop_add_handle_fd_def Let_def epoll_ctl_add_def put_source_def
        split: if_splits)
qed

lemma ev_keep_add:
  assumes "ev_keep epoll D R l" "mem l p = None" "mem l' = (mem l)(p \<mapsto> s)"
    "sources l' = p # sources l" "rescheduled l' = rescheduled l" "cleanups l' = cleanups l"
    "epollfd l' = (if epoll then (epollfd l)(es_fd s \<mapsto> (p, m)) else epollfd l)"
    "\<not> markedForRemove s" "es_callback s = Timer_cb \<Longrightarrow> es_data s = p"
  shows "ev_keep epoll D R l'"
proof -
  have inv: "ev_inv epoll l" and D: "D \<subseteq> dom (mem l)" and R: "\<exists>ys. rescheduled l = R @ ys"
    using assms(1) by (simp_all add: ev_keep_def)
  have old: "mem l' q = Some t" if "mem l q = Some t" for q t
    using that assms(2,3) by auto
  have "ev_inv epoll l'"
  proof (rule ev_invI)
    show "distinct (sources l')" "set (sources l') = dom (mem l')" "distinct (cleanups l')"
      "set (rescheduled l') \<subseteq> dom (mem l')"
      using ev_invD(1-4) [OF inv] assms(2-6) by (auto simp: domIff)
    show "\<exists>s. mem l' q = Some s \<and> markedForRemove s" if "q \<in> set (cleanups l')" for q
      using ev_invD(5) [OF inv, of q] old that assms(6) by metis
    show "epoll \<and> (\<exists>s. mem l' q = Some s \<and> \<not> markedForRemove s \<and> es_fd s = f)"
      if "epollfd l' f = Some (q, k)" for f q k
    proof (cases "epollfd l f = Some (q, k)")
      case True
      then show ?thesis using ev_invD(6) [OF inv, of f q k] old by metis
    next
      case False
      then show ?thesis using that assms(3,7,8) by (simp split: if_splits)
    qed
    show "es_data t = q" if "mem l' q = Some t" "es_callback t = Timer_cb" for q t
      using that assms(3,9) ev_invD(7) [OF inv] by (cases "q = p") auto
  qed
  then show ?thesis using D R assms(3,5) by (auto simp: ev_keep_def)
qed

lemma ev_keep_update:
  assumes "ev_keep epoll D R l" "mem l p = Some s" "mem l' = (mem l)(p \<mapsto> s')"
    "es_callback s' = es_callback s" "es_data s' = es_data s" "es_fd s' = es_fd s"
    "markedForRemove s \<Longrightarrow> markedForRemove s'"
    "sources l' = sources l"
    "cleanups l' = cleanups l \<or>
       cleanups l' = p # cleanups l \<and> markedForRemove s' \<and> \<not> markedForRemove s"
    "rescheduled l' = rescheduled l @ ys" "set ys \<subseteq> {p}"
    "\<And>f q m. epollfd l' f = Some (q, m) \<Longrightarrow>
       epoll \<and> q = p \<and> f = es_fd s \<and> \<not> markedForRemove s' \<or>
       epollfd l f = Some (q, m) \<and> (q = p \<longrightarrow> \<not> markedForRemove s')"
  shows "ev_keep epoll D R l'"
proof -
  have inv: "ev_inv epoll l" and D: "D \<subseteq> dom (mem l)" and R: "\<exists>ys. rescheduled l = R @ ys"
    using assms(1) by (simp_all add: ev_keep_def)
  have dom: "dom (mem l') = dom (mem l)" using assms(2,3) by auto
  have nc: "p \<notin> set (cleanups l)" if "\<not> markedForRemove s"
    using ev_invD(5) [OF inv, of p] assms(2) that by auto
  have "ev_inv epoll l'"
  proof (rule ev_invI)
    show "distinct (sources l')" "set (sources l') = dom (mem l')" "distinct (cleanups l')"
      using ev_invD(1-3) [OF inv] assms(8,9) dom nc by auto
    show "set (rescheduled l') \<subseteq> dom (mem l')"
      using ev_invD(4) [OF inv] assms(2,10,11) dom by auto
    show "\<exists>s. mem l' q = Some s \<and> markedForRemove s" if "q \<in> set (cleanups l')" for q
    proof (cases "q = p")
      case True
      then show ?thesis using that assms(2,3,7,9) ev_invD(5) [OF inv, of p] by auto
    next
      case False
      then show ?thesis using that assms(3,9) ev_invD(5) [OF inv, of q] by auto
    qed
    show "epoll \<and> (\<exists>s. mem l' q = Some s \<and> \<not> markedForRemove s \<and> es_fd s = f)"
      if "epollfd l' f = Some (q, k)" for f q k
      using assms(12) [OF that] ev_invD(6) [OF inv, of f q k] assms(2,3,6)
      by (cases "q = p") auto
    show "es_data t = q" if "mem l' q = Some t" "es_callback t = Timer_cb" for q t
      using that assms(2-5) ev_invD(7) [OF inv] by (cases "q = p") auto
  qed
  then show ?thesis using D R dom assms(10) by (auto simp: ev_keep_def)
qed

lemma ev_keep_touch:
  assumes "ev_keep epoll D R l" "mem l p = Some s" "mem l' = (mem l)(p \<mapsto> s')"
    "es_callback s' = es_callback s" "es_data s' = es_data s" "es_fd s' = es_fd s"
    "markedForRemove s' = markedForRemove s" "sources l' = sources l" "cleanups l' = cleanups l"
    "rescheduled l' = rescheduled l @ ys" "set ys \<subseteq> {p}" "epollfd l' = epollfd l"
  shows "ev_keep epoll D R l'"
proof (rule ev_keep_update [OF assms(1-6)])
  show "epoll \<and> q = p \<and> f = es_fd s \<and> \<not> markedForRemove s' \<or>
      epollfd l f = Some (q, m) \<and> (q = p \<longrightarrow> \<not> markedForRemove s')"
    if "epollfd l' f = Some (q, m)" for f q m
    using that assms(1,2,7,12) ev_invD(6) [of epoll l f q m] by (auto simp: ev_keep_def)
qed (use assms in auto)

lemma ev_keep_same:
  assumes "ev_keep epoll D R l" "mem l' = mem l" "sources l' = sources l"
    "cleanups l' = cleanups l" "rescheduled l' = rescheduled l"
    "\<And>f e. epollfd l' f = Some e \<Longrightarrow> epollfd l f = Some e"
  shows "ev_keep epoll D R l'"
proof -
  have "ev_inv epoll l'"
  proof (rule ev_invI)
    have inv: "ev_inv epoll l" using assms(1) by (simp add: ev_keep_def)
    show "distinct (sources l')" "set (sources l') = dom (mem l')" "distinct (cleanups l')"
      "set (rescheduled l') \<subseteq> dom (mem l')"
      using ev_invD(1-4) [OF inv] assms(2-5) by simp_all
    show "\<exists>s. mem l' q = Some s \<and> markedForRemove s" if "q \<in> set (cleanups l')" for q
      using that ev_invD(5) [OF inv, of q] assms(2,4) by simp
    show "epoll \<and> (\<exists>s. mem l' q = Some s \<and> \<not> markedForRemove s \<and> es_fd s = f)"
      if "epollfd l' f = Some (q, k)" for f q k
      using ev_invD(6) [OF inv assms(6) [OF that]] assms(2) by simp
    show "es_data t = q" if "mem l' q = Some t" "es_callback t = Timer_cb" for q t
      using that ev_invD(7) [OF inv, of q t] assms(2) by simp
  qed
  then show ?thesis using assms by (simp add: ev_keep_def)
qed

lemma add_handle_fd_keep:
  assumes "ev_keep epoll D R l" "cb \<noteq> Timer_cb"
  shows "ev_keep epoll D R (snd (eventloop_add_handle_fd epoll e m h f cb d l))"
proof -
  obtain r l' where r: "eventloop_add_handle_fd epoll e m h f cb d l = (r, l')" by (rule prod.exhaust)
  show ?thesis
    using add_handle_fd_cases [OF r]
  proof (elim disjE exE)
    fix p assume "r = Some p \<and> mem l p = None \<and> sources l' = p # sources l \<and>
      mem l' = (mem l)(p \<mapsto> new_source cb d f m h) \<and>
      rescheduled l' = rescheduled l \<and> cleanups l' = cleanups l \<and> calls l' = calls l \<and>
      epollfd l' = (if epoll then (epollfd l)(f \<mapsto> (p, computeEpollMask m)) else epollfd l) \<and>
      closed_handles l' = closed_handles l"
    then show ?thesis
      using r assms ev_keep_add [OF assms(1), of p l' "new_source cb d f m h" "computeEpollMask m"]
      by (simp add: new_source_def)
  qed (use r assms in simp)
qed

lemma add_fd_keep:
  assumes "ev_keep epoll D R l" "cb \<noteq> Timer_cb"
  shows "ev_keep epoll D R (snd (eventloop_add_fd epoll e m f cb d l))"
  using assms by (simp add: eventloop_add_fd_def add_handle_fd_keep)

lemma add_handle_keep:
  assumes "ev_keep epoll D R l" "cb \<noteq> Timer_cb"
  shows "ev_keep epoll D R (snd (eventloop_add_handle epoll e m h cb d l))"
  using assms by (simp add: eventloop_add_handle_def add_handle_fd_keep)

lemma close_handle_keep: "ev_keep epoll D R l \<Longrightarrow> ev_keep epoll D R (close_handle h l)"
  by (rule ev_keep_same) (simp_all add: close_handle_def)

lemma add_timer_keep:
  assumes "ev_keep epoll D R l"
  shows "ev_keep epoll D R (snd (eventloop_add_timer epoll e cb d l))"
proof (cases "cb = None \<or> env_timer e = None \<or> \<not> env_set_timer e \<or> env_fd e < 0")
  case True
  then show ?thesis using assms
    by (auto simp: eventloop_add_timer_def eventloop_add_handle_def close_handle_keep split: option.splits)
next
  case False
  then obtain h where h: "env_timer e = Some h" by auto
  let ?f = "env_fd e"
  obtain r l' where r: "eventloop_add_handle_fd epoll e OGON_EVENTLOOP_READ h ?f Timer_cb 0 l = (r, l')"
    by (rule prod.exhaust)
  then have eq: "eventloop_add_timer epoll e cb d l = (case (r, l') of
      (None, l) \<Rightarrow> (None, close_handle h l)
    | (Some p, l) \<Rightarrow> (Some p, l\<lparr>mem := (mem l)(p := map_option (\<lambda>s. s\<lparr>es_data := p, es_timer_cb := cb,
                      es_timer_data := d, es_dtor := True\<rparr>) (mem l p))\<rparr>))"
    using False h by (auto simp: eventloop_add_timer_def eventloop_add_handle_def)
  show ?thesis
    using add_handle_fd_cases [OF r]
  proof (elim disjE exE conjE)
    assume "r = None" "l' = l"
    then show ?thesis using eq assms by (simp add: close_handle_keep)
  next
    fix p
    assume p: "r = Some p" "mem l p = None" "sources l' = p # sources l"
      "mem l' = (mem l)(p \<mapsto> new_source Timer_cb 0 ?f OGON_EVENTLOOP_READ h)"
      "rescheduled l' = rescheduled l" "cleanups l' = cleanups l"
      "epollfd l' = (if epoll then (epollfd l)(?f \<mapsto> (p, computeEpollMask OGON_EVENTLOOP_READ)) else epollfd l)"
    let ?s = "(new_source Timer_cb 0 ?f OGON_EVENTLOOP_READ h)\<lparr>es_data := p, es_timer_cb := cb,
                      es_timer_data := d, es_dtor := True\<rparr>"
    show ?thesis
      unfolding eq using p
      by (simp, intro ev_keep_add [OF assms, where s = ?s and m = "computeEpollMask OGON_EVENTLOOP_READ"]) (simp_all add: new_source_def)
  qed
qed

lemma restore_source_keep:
  assumes "ev_keep epoll D R l" "st_cb st \<noteq> Timer_cb"
  shows "ev_keep epoll D R (snd (eventloop_restore_source epoll e st l))"
proof (cases "eventloop_add_fd epoll e (st_mask st) (st_fd st) (st_cb st) (st_cbdata st) l")
  case (Pair r l')
  have k: "ev_keep epoll D R l'"
    using add_fd_keep [OF assms, of e "st_mask st" "st_fd st" "st_cbdata st"] Pair by simp
  show ?thesis
  proof (cases r)
    case (Some p)
    then have "\<exists>s. mem l' p = Some s"
      using Pair add_handle_fd_cases [of epoll e "st_mask st" INVALID_HANDLE_VALUE "st_fd st"
          "st_cb st" "st_cbdata st" l r l']
      by (auto simp: eventloop_add_fd_def split: if_splits)
    then show ?thesis
      using Pair Some
      by (auto simp: eventloop_restore_source_def intro!: ev_keep_touch [OF k, where p = p and ys = "[]"])
  qed (use Pair k in \<open>simp add: eventloop_restore_source_def\<close>)
qed

lemma change_source_keep:
  assumes "ev_keep epoll D R l" "mem l p = Some s" "\<not> markedForRemove s"
  shows "ev_keep epoll D R (snd (eventsource_change_source epoll e p s m l))"
proof (cases "epoll \<and> es_mask s \<noteq> m")
  case True
  show ?thesis
  proof (cases "epoll_ctl_mod (env_ctl e) (es_fd s) (p, computeEpollMask m) l")
    case None
    then show ?thesis using True assms by (simp add: eventsource_change_source_def)
  next
    case (Some l')
    then have "l' = l\<lparr>epollfd := (epollfd l)(es_fd s \<mapsto> (p, computeEpollMask m))\<rparr>"
      by (simp add: epoll_ctl_mod_def split: if_splits)
    then show ?thesis
      using True Some assms(3)
      by (intro ev_keep_update [OF assms(1,2), where s' = "s\<lparr>es_mask := m\<rparr>" and ys = "[]"])
         (auto simp: eventsource_change_source_def put_source_def split: if_splits)
  qed
next
  case False
  then show ?thesis
  proof (cases "es_mask s = m")
    case True
    then show ?thesis using assms(1) by (simp add: eventsource_change_source_def)
  next
    case neq: False
    show ?thesis
      by (rule ev_keep_touch [OF assms(1,2), where s' = "s\<lparr>es_mask := m\<rparr>" and ys = "[]"])
         (use False neq in \<open>simp_all add: eventsource_change_source_def put_source_def\<close>)
  qed
qed

lemma reschedule_keep:
  assumes "ev_keep epoll D R l" "mem l p = Some s"
  shows "ev_keep epoll D R (snd (eventsource_reschedule e p s m l))"
  by (rule ev_keep_touch [OF assms,
        where s' = "s\<lparr>rescheduleMask := rescheduleMask s OR m\<rparr>"
          and ys = "if rescheduleMask s = 0 \<and> env_list e then [p] else []"])
     (auto simp: eventsource_reschedule_def put_source_def Let_def)

lemma remove_source_keep:
  assumes "ev_keep epoll D R l" "mem l p = Some s"
  shows "ev_keep epoll D R (snd (eventloop_remove_source epoll e p s l))"
proof (cases "markedForRemove s")
  case True
  then show ?thesis
    by (intro ev_keep_touch [OF assms, where ys = "[]"])
       (auto simp: eventloop_remove_source_def put_source_def)
next
  case False
  let ?l' = "snd (eventloop_remove_source epoll e p s l)"
  have inv: "ev_inv epoll l" using assms(1) by (simp add: ev_keep_def)
  have own: "f = es_fd s" "epoll" if "epollfd l f = Some (p, m)" for f m
    using ev_invD(6) [OF inv that] assms(2) by auto
  have ep: "epollfd ?l' = (if epoll then (epollfd l)(es_fd s := None) else epollfd l)"
    using False fun_upd_idem [of "epollfd l" "es_fd s" None]
    by (cases "epollfd l (es_fd s)")
       (simp_all add: eventloop_remove_source_def put_source_def Let_def epoll_ctl_del_def)
  have ep': "epollfd l f = Some (q, m) \<and> q \<noteq> p" if "epollfd ?l' f = Some (q, m)" for f q m
    using that own unfolding ep by (auto split: if_splits)
  have fr: "mem ?l' = (mem l)(p \<mapsto> s\<lparr>markedForRemove := True\<rparr>)" "sources ?l' = sources l"
    "cleanups ?l' = (if env_list e then p # cleanups l else cleanups l)"
    "rescheduled ?l' = rescheduled l"
    using False
    by (cases epoll; cases "epollfd l (es_fd s)";
        simp add: eventloop_remove_source_def put_source_def Let_def epoll_ctl_del_def)+
  show ?thesis
    by (rule ev_keep_update [OF assms fr(1), where ys = "[]"])
       (use False fr in \<open>auto dest!: ep'\<close>)
qed

lemma client_source_Inr: "client_source p l = Inr s \<longleftrightarrow> mem l p = Some s \<and> \<not> markedForRemove s"
  by (auto simp: client_source_def split: option.splits)

lemma res_ok_client_source:
  "(\<And>s. mem l p = Some s \<Longrightarrow> \<not> markedForRemove s \<Longrightarrow> res_ok {UseAfterFree} P (f s)) \<Longrightarrow>
     res_ok {UseAfterFree} P (res_bind (client_source p l) f)"
  by (simp add: client_source_def split: option.splits)

text \<open>No interface call frees a live source or touches a freed one.\<close>

lemma run_action_keep:
  assumes "ev_keep epoll D R l"
  shows "res_ok {UseAfterFree} (ev_keep epoll D R) (run_action epoll a l)"
proof (cases a)
  case (RemoveSource e p)
  then show ?thesis using assms by (simp add: remove_source_keep split: option.split)
next
  case (CloseFd f)
  then show ?thesis
    by (auto intro: ev_keep_same [OF assms] split: if_splits)
qed (use assms in \<open>simp_all add: add_fd_keep add_handle_keep add_timer_keep restore_source_keep
   change_source_keep reschedule_keep eventsource_reschedule_for_read_def
   eventsource_reschedule_for_write_def res_ok_client_source\<close>)

lemma run_client_keep:
  assumes "ev_keep epoll D R l"
  shows "res_ok {UseAfterFree} (ev_keep epoll D R) (run_client C epoll l)"
  unfolding run_client_def using assms by (intro res_ok_fold run_action_keep)

lemma call_callback_keep:
  assumes "ev_keep epoll D R l" "mem l p = Some s0" "es_callback s = es_callback s0" "es_data s = es_data s0"
  shows "res_ok {UseAfterFree} (ev_keep epoll D R) (call_callback C epoll p s m l)"
proof -
  let ?l = "l\<lparr>calls := calls l @ [\<lparr>call_source = p, call_mask = m, call_removed = markedForRemove s\<rparr>]\<rparr>"
  have k: "ev_keep epoll D R ?l" by (rule ev_keep_same [OF assms(1)]) simp_all
  show ?thesis
  proof (cases "es_callback s")
    case (UserCb n)
    then show ?thesis using run_client_keep [OF k] by (simp add: call_callback_def Let_def)
  next
    case Timer_cb
    then have "es_data s = p"
      using assms ev_invD(7) [of epoll l p s0] by (simp add: ev_keep_def)
    then show ?thesis
      using Timer_cb k run_client_keep [OF k] assms(2)
      by (simp add: call_callback_def Let_def timer_cb_def deref_def)
  qed
qed

lemma ev_keep_tl:
  assumes "ev_keep epoll D R l"
  shows "ev_keep epoll D [] (l\<lparr>rescheduled := tl (rescheduled l)\<rparr>)"
proof -
  have inv: "ev_inv epoll l" using assms by (simp add: ev_keep_def)
  have "ev_inv epoll (l\<lparr>rescheduled := tl (rescheduled l)\<rparr>)"
  proof (rule ev_invI)
    show "set (rescheduled (l\<lparr>rescheduled := tl (rescheduled l)\<rparr>)) \<subseteq>
        dom (mem (l\<lparr>rescheduled := tl (rescheduled l)\<rparr>))"
      using ev_invD(4) [OF inv] by (cases "rescheduled l") auto
  qed (use ev_invD [OF inv] in simp_all)
  then show ?thesis using assms by (simp add: ev_keep_def)
qed

lemma treat_rescheduled_keep:
  assumes "ev_keep epoll D [] l"
  shows "res_ok {UseAfterFree} (\<lambda>l'. ev_keep epoll D [] l' \<and> rescheduled l' = [])
           (treat_rescheduled C epoll n l)"
  using assms
proof (induction n arbitrary: l)
  case 0
  then show ?case by simp
next
  case (Suc n)
  show ?case
  proof (cases "rescheduled l")
    case Nil
    then show ?thesis using Suc.prems by simp
  next
    case (Cons p ps)
    have inv: "ev_inv epoll l" and k: "ev_keep epoll D (p # ps) l"
      using Suc.prems Cons by (simp_all add: ev_keep_def)
    obtain s where s: "mem l p = Some s" using ev_invD(4) [OF inv] Cons by auto
    let ?s = "s\<lparr>rescheduleMask := 0\<rparr>"
    have put: "ev_keep epoll D (p # ps) (put_source p ?s l)"
      by (rule ev_keep_touch [OF k s, where s' = ?s and ys = "[]"]) (simp_all add: put_source_def)
    have "res_ok {UseAfterFree} (ev_keep epoll D (p # ps))
        (if \<not> markedForRemove s
         then call_callback C epoll p ?s (rescheduleMask s) (put_source p ?s l) else Inr l)"
      using k call_callback_keep [OF put, of p ?s ?s C] by (simp add: put_source_def)
    then have "res_ok {UseAfterFree} (\<lambda>l'. ev_keep epoll D [] l' \<and> rescheduled l' = [])
        (res_bind (if \<not> markedForRemove s
           then call_callback C epoll p ?s (rescheduleMask s) (put_source p ?s l) else Inr l)
          (\<lambda>l. treat_rescheduled C epoll n (l\<lparr>rescheduled := tl (rescheduled l)\<rparr>)))"
      by (rule res_ok_bind) (intro Suc.IH ev_keep_tl)
    then show ?thesis using Cons s by (simp add: deref_def)
  qed
qed

text \<open>Cleaning up frees exactly the sources that were queued for it.\<close>

lemma treat_cleanup_fold:
  assumes "ev_inv epoll (l\<lparr>cleanups := cs, rescheduled := []\<rparr>)"
  shows "\<exists>l'. res_fold treat_cleanup cs l = Inr l' \<and>
     ev_inv epoll (l'\<lparr>cleanups := [], rescheduled := []\<rparr>) \<and> mem l' = mem l |` (- set cs) \<and>
     calls l' = calls l \<and> rescheduled l' = rescheduled l \<and> cleanups l' = cleanups l"
  using assms
proof (induction cs arbitrary: l)
  case Nil
  then show ?case by simp
next
  case (Cons p cs)
  note inv = ev_invD [OF Cons.prems, simplified]
  obtain s where s: "mem l p = Some s" "markedForRemove s" using inv(5) by auto
  let ?l = "(if es_dtor s then timer_source_dtor s l else l)"
  let ?l' = "?l\<lparr>sources := remove1 p (sources ?l), mem := (mem ?l)(p := None)\<rparr>"
  have eq: "mem ?l = mem l" "sources ?l = sources l" "calls ?l = calls l"
    "rescheduled ?l = rescheduled l" "cleanups ?l = cleanups l" "epollfd ?l = epollfd l"
    by (simp_all add: timer_source_dtor_def)
  have step: "treat_cleanup p l = Inr ?l'"
    using s eq by (simp add: treat_cleanup_def deref_def free_source_def Let_def)
  have "ev_inv epoll (?l'\<lparr>cleanups := cs, rescheduled := []\<rparr>)"
  proof (rule ev_invI, goal_cases)
    case 5
    then show ?case using inv(3,5) by (auto simp: eq)
  next
    case (6 f q m)
    then show ?case using inv(6) [of f q m] s by (auto simp: eq)
  qed (use inv(1-3,7) in \<open>auto simp: eq set_remove1_eq split: if_splits\<close>)
  from Cons.IH [OF this] obtain l' where "res_fold treat_cleanup cs ?l' = Inr l'"
    "ev_inv epoll (l'\<lparr>cleanups := [], rescheduled := []\<rparr>)" "mem l' = mem ?l' |` (- set cs)"
    "calls l' = calls ?l'" "rescheduled l' = rescheduled ?l'" "cleanups l' = cleanups ?l'"
    by blast
  moreover have "mem ?l' |` (- set cs) = mem l |` (- set (p # cs))"
    by (rule ext) (simp add: eq restrict_map_def)
  ultimately show ?case using step eq by simp
qed

lemma treat_cleanups_ok:
  assumes "ev_inv epoll l"
  shows "\<exists>l'. treat_cleanups l = Inr l' \<and> ev_inv epoll (l'\<lparr>rescheduled := []\<rparr>) \<and>
     mem l' = mem l |` (- set (cleanups l)) \<and> calls l' = calls l \<and>
     rescheduled l' = rescheduled l \<and> cleanups l' = []"
proof -
  have "ev_inv epoll (l\<lparr>cleanups := cleanups l, rescheduled := []\<rparr>)"
    by (rule ev_invI) (use ev_invD [OF assms] in simp_all)
  from treat_cleanup_fold [OF this] show ?thesis
    by (auto simp: treat_cleanups_def)
qed

lemma after_dispatch_ok:
  assumes "ev_inv epoll l"
  shows "res_ok {UseAfterFree} (\<lambda>l'. ev_inv epoll l' \<and> rescheduled l' = [] \<and> cleanups l' = [])
     (after_dispatch C epoll n l)"
proof -
  have "ev_keep epoll {} [] l" using assms by (simp add: ev_keep_def)
  from treat_rescheduled_keep [OF this] show ?thesis
    unfolding after_dispatch_def
  proof (rule res_ok_bind)
    fix l assume l: "ev_keep epoll {} [] l \<and> rescheduled l = []"
    then have "ev_inv epoll l" by (simp add: ev_keep_def)
    from treat_cleanups_ok [OF this] obtain l' where l': "treat_cleanups l = Inr l'"
      "ev_inv epoll (l'\<lparr>rescheduled := []\<rparr>)" "rescheduled l' = rescheduled l" "cleanups l' = []"
      by auto
    moreover have "l'\<lparr>rescheduled := []\<rparr> = l'" using l l' by simp
    ultimately show "res_ok {UseAfterFree} (\<lambda>l'. ev_inv epoll l' \<and> rescheduled l' = [] \<and> cleanups l' = [])
        (if length (cleanups l) \<noteq> 0 then treat_cleanups l else Inr l)"
      using l \<open>ev_inv epoll l\<close> by simp
  qed
qed

lemma epoll_events_keep:
  assumes "ev_keep True (fst ` set events) [] l"
  shows "res_ok {UseAfterFree} (ev_keep True (fst ` set events) [])
           (res_fold (dispatch_epoll_event C) events l)"
  using assms
proof (rule res_ok_fold)
  fix ev l assume ev: "ev \<in> set events" and k: "ev_keep True (fst ` set events) [] l"
  obtain p m where pm: "ev = (p, m)" by (rule prod.exhaust)
  with ev k obtain s where "mem l p = Some s" by (force simp: ev_keep_def)
  then show "res_ok {UseAfterFree} (ev_keep True (fst ` set events) []) (dispatch_epoll_event C ev l)"
    using k call_callback_keep [OF k, of p s s C "epoll_event_mask s m"]
    by (simp add: pm dispatch_epoll_event_def deref_def)
qed

lemma dispatch_epoll_ok:
  assumes "ev_inv True l" "epoll_reports waits l"
  shows "res_ok {UseAfterFree} (dispatch_ok True) (eventloop_dispatch_loop_epoll C n waits l)"
proof (cases "wait_result waits")
  case (Some w)
  show ?thesis
  proof (cases w)
    case (Ready events)
    have "fst ` set events \<subseteq> dom (mem l)"
    proof
      fix p assume "p \<in> fst ` set events"
      then obtain f m where "epollfd l f = Some (p, m)"
        using assms(2) Some Ready by (auto simp: epoll_reports_def)
      then show "p \<in> dom (mem l)" using ev_invD(6) [OF assms(1), of f p m] by auto
    qed
    then have "ev_keep True (fst ` set events) [] l" using assms(1) by (simp add: ev_keep_def)
    then have 1: "res_ok {UseAfterFree} (ev_inv True) (res_fold (dispatch_epoll_event C) events l)"
      by (rule res_ok_mono [OF epoll_events_keep]) (simp add: ev_keep_def)
    have "res_ok {UseAfterFree} (dispatch_ok True)
        (res_bind (after_dispatch C True n l) (\<lambda>l. Inr (int (length events), l)))"
      if "ev_inv True l" for l
      using after_dispatch_ok [OF that] by (rule res_ok_bind) (simp add: dispatch_ok_def)
    with 1 have "res_ok {UseAfterFree} (dispatch_ok True)
        (res_bind (res_fold (dispatch_epoll_event C) events l) (\<lambda>l.
           res_bind (after_dispatch C True n l) (\<lambda>l. Inr (int (length events), l))))"
      by (rule res_ok_bind)
    then show ?thesis using Some Ready by (simp add: eventloop_dispatch_loop_epoll_def)
  qed (use Some assms in \<open>simp_all add: eventloop_dispatch_loop_epoll_def dispatch_ok_def\<close>)
qed (simp add: eventloop_dispatch_loop_epoll_def)

lemma select_pass_ok:
  assumes "ev_keep False (set ps) [] l"
  shows "res_ok {UseAfterFree} (\<lambda>(r, l). ev_inv False l \<and> r \<ge> ret) (select_pass C sets ps status ret l)"
  using assms
proof (induction ps arbitrary: status ret l)
  case Nil
  then show ?case by (simp add: ev_keep_def)
next
  case (Cons p ps)
  then obtain s where s: "mem l p = Some s" by (auto simp: ev_keep_def)
  obtain rs ws xs where sets: "sets = (rs, ws, xs)" by (rule prod_cases3)
  have k: "ev_keep False (set ps) [] l" using Cons.prems by (auto simp: ev_keep_def)
  have call: "res_ok {UseAfterFree} (\<lambda>(r, l). ev_inv False l \<and> r \<ge> ret)
      (res_bind (call_callback C False p s m l) (select_pass C sets ps st (ret + 1)))" for m st
    using call_callback_keep [OF k s refl refl, of C m]
  proof (rule res_ok_bind)
    fix l assume "ev_keep False (set ps) [] l"
    from Cons.IH [OF this, of "ret + 1" st] 
    show "res_ok {UseAfterFree} (\<lambda>(r, l). ev_inv False l \<and> r \<ge> ret) (select_pass C sets ps st (ret + 1) l)"
      by (rule res_ok_mono) auto
  qed
  show ?case
    using s sets call Cons.IH [OF k] k by (auto simp: deref_def Let_def ev_keep_def)
qed

lemma dispatch_select_ok:
  assumes "ev_inv False l"
  shows "res_ok {UseAfterFree} (dispatch_ok False) (eventloop_dispatch_loop_select C n waits l)"
proof (cases "wait_result waits")
  case (Some w)
  show ?thesis
  proof (cases w)
    case (Ready r)
    obtain status sets where r: "r = (status, sets)" by (rule prod.exhaust)
    have "ev_keep False (set (sources l)) [] l"
      using assms ev_invD(2) [OF assms] by (simp add: ev_keep_def)
    from select_pass_ok [OF this, of 0 C sets status]
    have "res_ok {UseAfterFree} (dispatch_ok False)
      (res_bind (select_pass C sets (sources l) status 0 l) (\<lambda>(ret, l).
          res_bind (after_dispatch C False n l) (\<lambda>l. Inr (ret, l))))"
    proof (rule res_ok_bind, clarify)
      fix r l assume "ev_inv False l"
      from after_dispatch_ok [OF this, of C n]
      show "res_ok {UseAfterFree} (dispatch_ok False) (res_bind (after_dispatch C False n l) (\<lambda>l. Inr (r, l)))"
        by (rule res_ok_bind) (simp add: dispatch_ok_def)
    qed
    then show ?thesis using Some Ready r by (simp add: eventloop_dispatch_loop_select_def)
  qed (use Some assms in \<open>simp_all add: eventloop_dispatch_loop_select_def dispatch_ok_def\<close>)
qed (simp add: eventloop_dispatch_loop_select_def)

lemma ev_reach_inv: "ev_reach A C epoll l \<Longrightarrow> ev_inv epoll l"
proof (induction rule: ev_reach.induct)
  case (reach_create a b c d e l held)
  then have "l = empty_loop" by (auto simp: eventloop_create_def Let_def split: if_splits)
  then show ?case by (simp add: empty_loop_def ev_inv_def)
next
  case (reach_action l a l')
  then have "ev_keep epoll {} [] l" by (simp add: ev_keep_def)
  from run_action_keep [OF this, of a] show ?case using reach_action by (simp add: ev_keep_def)
next
  case (reach_epoll l waits n r l')
  then show ?case using dispatch_epoll_ok [of l waits C n] by (simp add: dispatch_ok_def)
next
  case (reach_select l n waits r l')
  then show ?case using dispatch_select_ok [of l C n waits] by (simp add: dispatch_ok_def)
qed

section \<open>Invocations and rescheduling\<close>

lemma src_grow_refl [simp]: "src_grow s s"
  by (simp add: src_grow_def)

lemma src_grow_trans: "src_grow s s' \<Longrightarrow> src_grow s' s'' \<Longrightarrow> src_grow s s''"
  unfolding src_grow_def by (metis and.assoc)

lemma ev_grow_refl [simp]: "ev_grow l l"
  by (simp add: ev_grow_def)

lemma ev_grow_trans: "ev_grow l l' \<Longrightarrow> ev_grow l' l'' \<Longrightarrow> ev_grow l l''"
  unfolding ev_grow_def by (metis src_grow_trans append.assoc)

lemma ev_grow_update:
  assumes "calls l' = calls l" "rescheduled l' = rescheduled l @ ys"
    "mem l' = (mem l)(p \<mapsto> s')" "\<And>s. mem l p = Some s \<Longrightarrow> src_grow s s'"
  shows "ev_grow l l'"
  unfolding ev_grow_def using assms by auto

lemma ev_grow_same:
  "calls l' = calls l \<Longrightarrow> rescheduled l' = rescheduled l \<Longrightarrow> mem l' = mem l \<Longrightarrow> ev_grow l l'"
  by (simp add: ev_grow_def)

lemma add_handle_fd_grow: "ev_grow l (snd (eventloop_add_handle_fd epoll e m h f cb d l))"
proof -
  obtain r l' where r: "eventloop_add_handle_fd epoll e m h f cb d l = (r, l')" by (rule prod.exhaust)
  show ?thesis
    using add_handle_fd_cases [OF r] r by (auto simp: ev_grow_def)
qed

text \<open>A source just added is not in the old store, so what is done to it is no change there.\<close>

lemma add_handle_fd_then:
  assumes "eventloop_add_handle_fd epoll e m h f cb d l = (Some p, l')"
  shows "ev_grow l (l'\<lparr>mem := (mem l')(p := x)\<rparr>)"
  using add_handle_fd_cases [OF assms] by (auto simp: ev_grow_def)

lemma add_timer_grow: "ev_grow l (snd (eventloop_add_timer epoll e cb d l))"
proof -
  have close: "ev_grow l (close_handle h l)" for h
    by (rule ev_grow_same) (simp_all add: close_handle_def)
  have add: "ev_grow l (snd (case eventloop_add_handle_fd epoll e OGON_EVENTLOOP_READ h (env_fd e) Timer_cb 0 l of
      (None, l) \<Rightarrow> (None, close_handle h l)
    | (Some p, l) \<Rightarrow> (Some p, l\<lparr>mem := (mem l)(p := map_option (\<lambda>s. s\<lparr>es_data := p, es_timer_cb := cb,
                      es_timer_data := d, es_dtor := True\<rparr>) (mem l p))\<rparr>)))" for h
  proof (cases "eventloop_add_handle_fd epoll e OGON_EVENTLOOP_READ h (env_fd e) Timer_cb 0 l")
    case (Pair r l')
    then show ?thesis
    proof (cases r)
      case None
      then show ?thesis using Pair add_handle_fd_cases [OF Pair] close by simp
    next
      case (Some p)
      then show ?thesis using Pair add_handle_fd_then by simp
    qed
  qed
  show ?thesis
    using close add
    by (simp add: eventloop_add_timer_def eventloop_add_handle_def split: option.split)
qed

lemma restore_source_grow: "ev_grow l (snd (eventloop_restore_source epoll e st l))"
proof (cases "st_fd st < 0")
  case False
  show ?thesis
  proof (cases "eventloop_add_handle_fd epoll e (st_mask st) INVALID_HANDLE_VALUE (st_fd st)
      (st_cb st) (st_cbdata st) l")
    case (Pair r l')
    then show ?thesis
      using False add_handle_fd_then [of epoll e "st_mask st"]
        add_handle_fd_grow [of l epoll e "st_mask st" INVALID_HANDLE_VALUE]
      by (cases r) (simp_all add: eventloop_restore_source_def eventloop_add_fd_def,
          metis snd_conv)
  qed
qed (simp add: eventloop_restore_source_def eventloop_add_fd_def)

lemma change_source_grow:
  assumes "mem l p = Some s"
  shows "ev_grow l (snd (eventsource_change_source epoll e p s m l))"
proof (cases "es_mask s = m \<or> (epoll \<and> epoll_ctl_mod (env_ctl e) (es_fd s) (p, computeEpollMask m) l = None)")
  case False
  show ?thesis
    by (rule ev_grow_update [where ys = "[]" and p = p and s' = "s\<lparr>es_mask := m\<rparr>"])
       (use False assms in \<open>auto simp: eventsource_change_source_def put_source_def epoll_ctl_mod_def
          src_grow_def split: if_splits\<close>)
qed (auto simp: eventsource_change_source_def)

lemma reschedule_grow:
  assumes "mem l p = Some s"
  shows "ev_grow l (snd (eventsource_reschedule e p s m l))"
proof (rule ev_grow_update [where s' = "s\<lparr>rescheduleMask := rescheduleMask s OR m\<rparr>" and p = p
      and ys = "if rescheduleMask s = 0 \<and> env_list e then [p] else []"])
  have "w AND (w OR v) = w" for w v :: u32 by (rule bit_eqI) (auto simp: bit_simps)
  then show "src_grow t (s\<lparr>rescheduleMask := rescheduleMask s OR m\<rparr>)" if "mem l p = Some t" for t
    using that assms by (simp add: src_grow_def)
qed (auto simp: eventsource_reschedule_def put_source_def Let_def)

lemma remove_source_grow:
  assumes "mem l p = Some s"
  shows "ev_grow l (snd (eventloop_remove_source epoll e p s l))"
proof (rule ev_grow_update [where s' = "s\<lparr>markedForRemove := True\<rparr>" and p = p and ys = "[]"])
  show "src_grow t (s\<lparr>markedForRemove := True\<rparr>)" if "mem l p = Some t" for t
    using that assms by (simp add: src_grow_def)
qed (cases epoll; cases "epollfd l (es_fd s)";
     simp add: eventloop_remove_source_def put_source_def Let_def epoll_ctl_del_def)+

lemma run_action_grow: "run_action epoll a l = Inr l' \<Longrightarrow> ev_grow l l'"
proof (cases a)
  case (RemoveSource e p)
  then show "run_action epoll a l = Inr l' \<Longrightarrow> ?thesis"
    using remove_source_grow [of l p _ epoll e] by (auto split: option.splits)
next
  case (CloseFd f)
  then show "run_action epoll a l = Inr l' \<Longrightarrow> ?thesis" by (auto intro: ev_grow_same)
qed (auto simp: eventloop_add_fd_def eventloop_add_handle_def add_handle_fd_grow add_timer_grow
       restore_source_grow client_source_Inr change_source_grow reschedule_grow
       eventsource_reschedule_for_read_def eventsource_reschedule_for_write_def split: if_splits)

lemma run_client_grow: "run_client C epoll l = Inr l' \<Longrightarrow> ev_grow l l'"
proof -
  have "res_fold (run_action epoll) as l = Inr l' \<Longrightarrow> ev_grow l l'" for as
    by (induction as arbitrary: l) (auto dest: run_action_grow intro: ev_grow_trans)
  then show "run_client C epoll l = Inr l' \<Longrightarrow> ev_grow l l'" by (simp add: run_client_def)
qed

lemma call_callback_grow:
  assumes "call_callback C epoll p s m l = Inr l'"
  shows "ev_grow (l\<lparr>calls := calls l @
     [\<lparr>call_source = p, call_mask = m, call_removed = markedForRemove s\<rparr>]\<rparr>) l'"
  using assms
  by (auto simp: call_callback_def Let_def timer_cb_def deref_def dest: run_client_grow
      split: ev_callback.splits if_splits option.splits)

lemma call_callback_calls:
  "call_callback C epoll p s m l = Inr l' \<Longrightarrow>
     calls l' = calls l @ [\<lparr>call_source = p, call_mask = m, call_removed = markedForRemove s\<rparr>]"
  using call_callback_grow by (fastforce simp: ev_grow_def)

lemma live_calls_refl [simp]: "live_calls l l"
  by (simp add: live_calls_def)

lemma live_calls_trans: "live_calls l l' \<Longrightarrow> live_calls l' l'' \<Longrightarrow> live_calls l l''"
  by (force simp: live_calls_def)

lemma live_calls_eq: "calls l' = calls l \<Longrightarrow> live_calls l l'"
  by (simp add: live_calls_def)

lemma call_callback_live:
  "call_callback C epoll p s m l = Inr l' \<Longrightarrow> \<not> markedForRemove s \<Longrightarrow> live_calls l l'"
  by (simp add: live_calls_def call_callback_calls)

lemma treat_rescheduled_turn:
  assumes "treat_rescheduled C epoll (Suc n) l = Inr l'" "rescheduled l = q # qs"
  obtains t l1 where "mem l q = Some t" "markedForRemove t \<and> l1 = l \<or> turn_post q t l l1"
    "treat_rescheduled C epoll n (l1\<lparr>rescheduled := tl (rescheduled l1)\<rparr>) = Inr l'"
proof -
  obtain t where t: "mem l q = Some t"
    using assms by (cases "mem l q") (simp_all add: deref_def)
  let ?t = "t\<lparr>rescheduleMask := 0\<rparr>"
  obtain l1 where l1: "(if \<not> markedForRemove t
      then call_callback C epoll q ?t (rescheduleMask t) (put_source q ?t l) else Inr l) = Inr l1"
    "treat_rescheduled C epoll n (l1\<lparr>rescheduled := tl (rescheduled l1)\<rparr>) = Inr l'"
    using assms t by (auto simp: deref_def)
  have "turn_post q t l l1" if m: "\<not> markedForRemove t"
  proof -
    have "ev_grow ((put_source q ?t l)\<lparr>calls := calls l @ [turn_call q t]\<rparr>) l1"
      using l1(1) m call_callback_grow [of C epoll q ?t "rescheduleMask t" "put_source q ?t l" l1]
      by (simp add: put_source_def turn_call_def)
    then show ?thesis using m by (auto simp: turn_post_def ev_grow_def put_source_def)
  qed
  then show ?thesis using that [OF t _ l1(2)] l1(1) by (cases "markedForRemove t") simp_all
qed

lemma treat_rescheduled_live: "treat_rescheduled C epoll n l = Inr l' \<Longrightarrow> live_calls l l'"
proof (induction n arbitrary: l)
  case (Suc n)
  show ?case
  proof (cases "rescheduled l")
    case (Cons p ps)
    obtain t l1 where t: "markedForRemove t \<and> l1 = l \<or> turn_post p t l l1"
      "treat_rescheduled C epoll n (l1\<lparr>rescheduled := tl (rescheduled l1)\<rparr>) = Inr l'"
      by (rule treat_rescheduled_turn [OF Suc.prems Cons])
    then have "live_calls l l1" by (auto simp: live_calls_def turn_post_def turn_call_def)
    then show ?thesis using Suc.IH [OF t(2)] by (auto simp: live_calls_def)
  qed (use Suc.prems in simp)
qed (simp split: if_splits)

lemma treat_cleanups_calls: "treat_cleanups l = Inr l' \<Longrightarrow> calls l' = calls l"
proof -
  have "treat_cleanup p l = Inr l' \<Longrightarrow> calls l' = calls l" for p l l'
    by (auto simp: treat_cleanup_def free_source_def deref_def timer_source_dtor_def Let_def
        split: option.splits if_splits)
  then have "res_fold treat_cleanup cs l = Inr l' \<Longrightarrow> calls l' = calls l" for cs l l'
    by (induction cs arbitrary: l) force+
  then show "treat_cleanups l = Inr l' \<Longrightarrow> calls l' = calls l" by (auto simp: treat_cleanups_def)
qed

lemma after_dispatch_live: "after_dispatch C epoll n l = Inr l' \<Longrightarrow> live_calls l l'"
  by (auto simp: after_dispatch_def dest!: treat_rescheduled_live treat_cleanups_calls
      intro: live_calls_trans live_calls_eq split: if_splits)

lemma epoll_events_live:
  "res_fold (dispatch_epoll_event C) events l = Inr l' \<Longrightarrow> live_calls l l'"
proof (induction events arbitrary: l)
  case (Cons ev evs)
  have "live_calls l l1" if "dispatch_epoll_event C ev l = Inr l1" for l1
    using that call_callback_live
    by (auto simp: dispatch_epoll_event_def deref_def split: prod.splits option.splits if_splits)
  then show ?case using Cons by (auto intro: live_calls_trans)
qed simp

lemma dispatch_epoll_live:
  "eventloop_dispatch_loop_epoll C n waits l = Inr (r, l') \<Longrightarrow> live_calls l l'"
  by (auto simp: eventloop_dispatch_loop_epoll_def split: option.splits ev_wait.splits
      dest!: epoll_events_live after_dispatch_live intro: live_calls_trans)

lemma ev_reach_live_calls: "ev_reach A C True l \<Longrightarrow> \<forall>c \<in> set (calls l). \<not> call_removed c"
proof (induction rule: ev_reach.induct)
  case (reach_create a b c d e l held)
  then show ?case by (auto simp: eventloop_create_def Let_def empty_loop_def split: if_splits)
next
  case (reach_action l a l')
  then show ?case by (auto dest: run_action_grow simp: ev_grow_def)
next
  case (reach_epoll l waits n r l')
  then show ?case using dispatch_epoll_live [of C n waits l r l'] by (auto simp: live_calls_def)
qed simp

text \<open>A removed source stays removed while rescheduled sources are treated.\<close>

lemma treat_rescheduled_marked:
  assumes "treat_rescheduled C epoll n l = Inr l'" "mem l p = Some s" "markedForRemove s"
  shows "\<exists>s'. mem l' p = Some s' \<and> markedForRemove s'"
  using assms
proof (induction n arbitrary: l s)
  case (Suc n)
  show ?case
  proof (cases "rescheduled l")
    case (Cons q qs)
    obtain t l1 where t: "mem l q = Some t" "markedForRemove t \<and> l1 = l \<or> turn_post q t l l1"
      "treat_rescheduled C epoll n (l1\<lparr>rescheduled := tl (rescheduled l1)\<rparr>) = Inr l'"
      by (rule treat_rescheduled_turn [OF Suc.prems(1) Cons])
    have "\<exists>s1. mem l1 p = Some s1 \<and> markedForRemove s1"
      using t(1,2) Suc.prems(2,3) unfolding turn_post_def src_grow_def by (metis option.inject)
    then show ?thesis using Suc.IH [OF t(3)] by auto
  qed (use Suc.prems in simp)
qed (simp split: if_splits)

text \<open>A pending reschedule is delivered, with at least its mask, unless the source is removed.\<close>

lemma treat_rescheduled_delivers:
  assumes "treat_rescheduled C epoll n l = Inr l'" "p \<in> set (rescheduled l)" "mem l p = Some s"
  shows "(\<exists>c \<in> set (drop (length (calls l)) (calls l')). call_source c = p \<and>
            rescheduleMask s AND call_mask c = rescheduleMask s) \<or>
         (\<exists>s'. mem l' p = Some s' \<and> markedForRemove s')"
  using assms
proof (induction n arbitrary: l s)
  case 0
  then show ?case by (simp split: if_splits)
next
  case (Suc n)
  then obtain q qs where Cons: "rescheduled l = q # qs" by (cases "rescheduled l") auto
  obtain t l1 where t: "mem l q = Some t" "markedForRemove t \<and> l1 = l \<or> turn_post q t l l1"
    "treat_rescheduled C epoll n (l1\<lparr>rescheduled := tl (rescheduled l1)\<rparr>) = Inr l'"
    by (rule treat_rescheduled_turn [OF Suc.prems(1) Cons])
  obtain cs where cs: "calls l' = calls l1 @ cs"
    using treat_rescheduled_live [OF t(3)] by (auto simp: live_calls_def)
  show ?case
  proof (cases "p = q")
    case True
    show ?thesis
    proof (cases "markedForRemove t")
      case True
      then have "l1 = l" using t(2) by (simp add: turn_post_def)
      then show ?thesis using treat_rescheduled_marked [OF t(3), of p t] True t(1) \<open>p = q\<close> by simp
    next
      case False
      then have "turn_call q t \<in> set (drop (length (calls l)) (calls l'))"
        using t(2) cs by (simp add: turn_post_def)
      then show ?thesis using True t(1) Suc.prems(3) by (force simp: turn_call_def)
    qed
  next
    case False
    obtain s1 where s1: "mem l1 p = Some s1" "src_grow s s1"
      using t(2) Suc.prems(3) False unfolding turn_post_def by (metis src_grow_refl)
    have tl: "p \<in> set (tl (rescheduled l1))" and len: "length (calls l) \<le> length (calls l1)"
      using t(2) Suc.prems(2) False Cons by (auto simp: turn_post_def)
    with Suc.IH [OF t(3), of s1] s1(1) consider
      c where "c \<in> set (drop (length (calls l1)) (calls l'))" "call_source c = p"
        "rescheduleMask s1 AND call_mask c = rescheduleMask s1"
      | "\<exists>s'. mem l' p = Some s' \<and> markedForRemove s'"
      by auto
    then show ?thesis
    proof cases
      case 1
      have "c \<in> set (drop (length (calls l)) (calls l'))"
        using 1(1) set_drop_subset_set_drop [OF len, of "calls l'"] by blast
      moreover have "rescheduleMask s AND call_mask c = rescheduleMask s"
        using 1(3) s1(2) by (metis src_grow_def and.assoc)
      ultimately show ?thesis using 1(2) by blast
    qed simp
  qed
qed

lemma sched_effect_trans:
  assumes "sched_effect n ok l l'" "sched_effect n' ok' l' l''"
  shows "sched_effect (n + n') (ok \<and> ok') l l''"
proof -
  obtain ys zs where ys: "rescheduled l' = rescheduled l @ ys" "length ys \<le> n"
    "ok \<longrightarrow> (\<forall>p. pending l' p \<longrightarrow> pending l p \<or> p \<in> set ys)"
    and zs: "rescheduled l'' = rescheduled l' @ zs" "length zs \<le> n'"
    "ok' \<longrightarrow> (\<forall>p. pending l'' p \<longrightarrow> pending l' p \<or> p \<in> set zs)"
    using assms unfolding sched_effect_def by blast
  then have "rescheduled l'' = rescheduled l @ (ys @ zs) \<and> length (ys @ zs) \<le> n + n' \<and>
     (ok \<and> ok' \<longrightarrow> (\<forall>p. pending l'' p \<longrightarrow> pending l p \<or> p \<in> set (ys @ zs)))" by auto
  then show ?thesis unfolding sched_effect_def by blast
qed

lemma sched_effect_quiet:
  assumes "rescheduled l' = rescheduled l" "\<And>p. pending l' p \<Longrightarrow> pending l p"
  shows "sched_effect n ok l l'"
  using assms by (auto simp: sched_effect_def)

lemma add_handle_fd_sched:
  assumes "eventloop_add_handle_fd epoll e m h f cb d l = (r, l')"
    "mem l'' = (mem l')(p := map_option g (mem l' p))" "rescheduled l'' = rescheduled l'"
    "\<And>s. rescheduleMask (g s) = rescheduleMask s" "\<And>s. markedForRemove (g s) = markedForRemove s"
  shows "sched_effect n ok l l''"
proof (rule sched_effect_quiet)
  show "rescheduled l'' = rescheduled l"
    using add_handle_fd_cases [OF assms(1)] assms(3) by auto
  have "pending l q" if "pending l' q" for q
    using that add_handle_fd_cases [OF assms(1)]
    by (auto simp: pending_def new_source_def split: if_splits)
  then show "pending l q" if "pending l'' q" for q
    using that assms(2,4,5) by (auto simp: pending_def split: if_splits)
qed

lemma add_handle_fd_sched0: "sched_effect n ok l (snd (eventloop_add_handle_fd epoll e m h f cb d l))"
  using add_handle_fd_sched [OF prod.collapse [symmetric], where g = id and p = undefined]
  by (simp add: option.map_id0)

lemma add_timer_sched: "sched_effect n ok l (snd (eventloop_add_timer epoll e cb d l))"
proof -
  have q: "sched_effect n ok l l" "sched_effect n ok l (close_handle h l)" for h
    by (auto intro: sched_effect_quiet simp: close_handle_def pending_def)
  have add: "sched_effect n ok l (snd (case eventloop_add_handle_fd epoll e OGON_EVENTLOOP_READ h (env_fd e) Timer_cb 0 l of
      (None, l) \<Rightarrow> (None, close_handle h l)
    | (Some p, l) \<Rightarrow> (Some p, l\<lparr>mem := (mem l)(p := map_option (\<lambda>s. s\<lparr>es_data := p, es_timer_cb := cb,
                      es_timer_data := d, es_dtor := True\<rparr>) (mem l p))\<rparr>)))" for h
  proof (cases "eventloop_add_handle_fd epoll e OGON_EVENTLOOP_READ h (env_fd e) Timer_cb 0 l")
    case (Pair r l')
    then show ?thesis
    proof (cases r)
      case None
      then show ?thesis using Pair add_handle_fd_cases [OF Pair] q by simp
    next
      case (Some p)
      then show ?thesis
        using Pair
        by (simp, intro add_handle_fd_sched [OF Pair, where p = p and g = "\<lambda>s. s\<lparr>es_data := p,
              es_timer_cb := cb, es_timer_data := d, es_dtor := True\<rparr>"]) simp_all
    qed
  qed
  show ?thesis
    using q add by (simp add: eventloop_add_timer_def eventloop_add_handle_def split: option.split)
qed

lemma restore_source_sched: "sched_effect n ok l (snd (eventloop_restore_source epoll e st l))"
proof (cases "st_fd st < 0")
  case True
  then show ?thesis
    by (simp add: eventloop_restore_source_def eventloop_add_fd_def sched_effect_quiet)
next
  case False
  show ?thesis
  proof (cases "eventloop_add_handle_fd epoll e (st_mask st) INVALID_HANDLE_VALUE (st_fd st)
      (st_cb st) (st_cbdata st) l")
    case (Pair r l')
    show ?thesis
    proof (cases r)
      case None
      then show ?thesis
        using False Pair add_handle_fd_cases [OF Pair]
        by (simp add: eventloop_restore_source_def eventloop_add_fd_def sched_effect_quiet)
    next
      case (Some p)
      then show ?thesis
        using False Pair
        by (simp add: eventloop_restore_source_def eventloop_add_fd_def,
            intro add_handle_fd_sched [OF Pair, where p = p and g = "\<lambda>s. s\<lparr>es_handle := st_handle st\<rparr>"])
           simp_all
    qed
  qed
qed

lemma change_source_sched:
  assumes "mem l p = Some s"
  shows "sched_effect n ok l (snd (eventsource_change_source epoll e p s m l))"
  by (rule sched_effect_quiet; use assms in \<open>auto simp: eventsource_change_source_def put_source_def
        epoll_ctl_mod_def pending_def split: if_splits option.splits\<close>)

lemma reschedule_sched:
  assumes "mem l p = Some s" "\<not> markedForRemove s"
  shows "sched_effect 1 (env_list e) l (snd (eventsource_reschedule e p s m l))"
proof -
  let ?ys = "if rescheduleMask s = 0 \<and> env_list e then [p] else []"
  let ?l' = "snd (eventsource_reschedule e p s m l)"
  have "rescheduled ?l' = rescheduled l @ ?ys"
    "mem ?l' = (mem l)(p \<mapsto> s\<lparr>rescheduleMask := rescheduleMask s OR m\<rparr>)"
    by (simp_all add: eventsource_reschedule_def put_source_def Let_def)
  then have "rescheduled ?l' = rescheduled l @ ?ys \<and> length ?ys \<le> 1 \<and>
    (env_list e \<longrightarrow> (\<forall>q. pending ?l' q \<longrightarrow> pending l q \<or> q \<in> set ?ys))"
    using assms by (auto simp: pending_def)
  then show ?thesis unfolding sched_effect_def by blast
qed

lemma remove_source_sched:
  assumes "mem l p = Some s"
  shows "sched_effect n ok l (snd (eventloop_remove_source epoll e p s l))"
proof (rule sched_effect_quiet)
  have *: "mem (snd (eventloop_remove_source epoll e p s l)) = (mem l)(p \<mapsto> s\<lparr>markedForRemove := True\<rparr>)"
    "rescheduled (snd (eventloop_remove_source epoll e p s l)) = rescheduled l"
    by (cases epoll; cases "epollfd l (es_fd s)";
        simp add: eventloop_remove_source_def put_source_def Let_def epoll_ctl_del_def)+
  then show "rescheduled (snd (eventloop_remove_source epoll e p s l)) = rescheduled l" by simp
  show "pending l q" if "pending (snd (eventloop_remove_source epoll e p s l)) q" for q
    using that * by (auto simp: pending_def split: if_splits)
qed

lemma run_action_sched:
  assumes "run_action epoll a l = Inr l'"
  shows "sched_effect (of_bool (is_reschedule a)) (lists_ok a) l l'"
proof (cases a)
  case (RemoveSource e p)
  then show ?thesis using assms remove_source_sched by (auto split: option.splits)
next
  case (CloseFd f)
  then show ?thesis using assms by (auto intro!: sched_effect_quiet simp: pending_def)
qed (use assms in \<open>auto simp: eventloop_add_fd_def eventloop_add_handle_def add_handle_fd_sched0
       add_timer_sched restore_source_sched client_source_Inr change_source_sched
       eventsource_reschedule_for_read_def eventsource_reschedule_for_write_def sched_effect_quiet
       split: if_splits dest: reschedule_sched\<close>)

lemma run_actions_sched:
  "res_fold (run_action epoll) as l = Inr l' \<Longrightarrow>
     sched_effect (reschedules as) (list_all lists_ok as) l l'"
proof (induction as arbitrary: l)
  case Nil
  then show ?case by (simp add: sched_effect_quiet)
next
  case (Cons a as)
  then obtain l1 where "run_action epoll a l = Inr l1"
    "res_fold (run_action epoll) as l1 = Inr l'" by auto
  then have "sched_effect (of_bool (is_reschedule a) + reschedules as)
      (lists_ok a \<and> list_all lists_ok as) l l'"
    using Cons.IH run_action_sched by (blast intro: sched_effect_trans)
  then show ?case by (cases "is_reschedule a") (simp_all add: reschedules_def)
qed

text \<open>The calls of one invocation, with its entry in the log.\<close>

lemma call_callback_sched:
  assumes "call_callback C epoll p s m l = Inr l'"
  shows "\<exists>c. calls l' = calls l @ [c] \<and>
    sched_effect (reschedules (on_callback C (calls l @ [c])))
      (list_all lists_ok (on_callback C (calls l @ [c]))) l l'"
proof -
  let ?c = "\<lparr>call_source = p, call_mask = m, call_removed = markedForRemove s\<rparr>"
  let ?l = "l\<lparr>calls := calls l @ [?c]\<rparr>"
  have "run_client C epoll ?l = Inr l' \<or> l' = ?l"
    using assms by (auto simp: call_callback_def Let_def timer_cb_def deref_def
        split: ev_callback.splits if_splits option.splits)
  then have "sched_effect (reschedules (on_callback C (calls ?l)))
      (list_all lists_ok (on_callback C (calls ?l))) ?l l'"
    by (auto simp: run_client_def dest: run_actions_sched intro: sched_effect_quiet)
  then show ?thesis
    using call_callback_calls [OF assms] by (auto simp: sched_effect_def pending_def)
qed

lemma rinv_pending: "rinv k l \<longleftrightarrow> k \<le> length (rescheduled l) \<and>
    (\<forall>p. pending l p \<longrightarrow> p \<in> set (drop k (rescheduled l)))"
  by (auto simp: rinv_def pending_def)

lemma rinv_sched:
  assumes "rinv k l" "sched_effect n True l l'"
  shows "rinv k l'"
proof -
  obtain ys where "rescheduled l' = rescheduled l @ ys"
    "\<forall>p. pending l' p \<longrightarrow> pending l p \<or> p \<in> set ys"
    using assms(2) by (auto simp: sched_effect_def)
  then show ?thesis using assms(1) by (auto simp: rinv_pending)
qed

lemma call_callback_rinv:
  assumes "client_lists_ok C" "rinv k l" "call_callback C epoll p s m l = Inr l'"
  shows "rinv k l'"
proof -
  obtain c where "sched_effect (reschedules (on_callback C (calls l @ [c])))
      (list_all lists_ok (on_callback C (calls l @ [c]))) l l'"
    using call_callback_sched [OF assms(3)] by blast
  then show ?thesis using rinv_sched [OF assms(2)] assms(1) by (simp add: client_lists_ok_def)
qed

lemma epoll_events_rinv:
  assumes "client_lists_ok C"
  shows "rinv k l \<Longrightarrow> res_fold (dispatch_epoll_event C) events l = Inr l' \<Longrightarrow> rinv k l'"
proof (induction events arbitrary: l)
  case (Cons ev evs)
  have "rinv k l1" if "dispatch_epoll_event C ev l = Inr l1" for l1
    using that Cons.prems(1) call_callback_rinv [OF assms]
    by (auto simp: dispatch_epoll_event_def deref_def split: prod.splits option.splits if_splits)
  then show ?case using Cons by auto
qed simp

lemma select_pass_rinv:
  assumes "client_lists_ok C"
  shows "rinv k l \<Longrightarrow> select_pass C sets ps status ret l = Inr (r, l') \<Longrightarrow> rinv k l'"
proof (induction ps arbitrary: status ret l)
  case (Cons p ps)
  have step: "rinv k l'" if "res_bind (call_callback C False p s m l) (select_pass C sets ps st rt) = Inr (r, l')"
    for s m st rt
    using that by (auto dest!: call_callback_rinv [OF assms Cons.prems(1)] intro: Cons.IH)
  obtain rs ws xs where sets: "sets = (rs, ws, xs)" by (rule prod_cases3)
  show ?case
  proof (cases "status \<le> 0 \<or> mem l p = None")
    case True
    then show ?thesis using Cons.prems by (cases "status \<le> 0") (simp_all add: deref_def)
  next
    case False
    then obtain s where "mem l p = Some s" "\<not> status \<le> 0" by auto
    then show ?thesis
      using Cons.prems(2) step Cons.IH [OF Cons.prems(1)] sets
      by (simp only: select_pass.simps deref_def option.case res_bind.simps if_False Let_def prod.case)
         (auto split: if_splits)
  qed
qed simp

lemma treat_rescheduled_rinv:
  assumes "client_lists_ok C"
  shows "rinv 0 l \<Longrightarrow> treat_rescheduled C epoll n l = Inr l' \<Longrightarrow> rinv 0 l' \<and> rescheduled l' = []"
proof (induction n arbitrary: l)
  case 0
  then show ?case by (simp split: if_splits)
next
  case (Suc n)
  show ?case
  proof (cases "rescheduled l")
    case Nil
    then show ?thesis using Suc.prems by simp
  next
    case (Cons q qs)
    obtain t where t: "mem l q = Some t"
      using Suc.prems(2) Cons by (cases "mem l q") (simp_all add: deref_def)
    let ?t = "t\<lparr>rescheduleMask := 0\<rparr>"
    obtain l1 where l1: "(if \<not> markedForRemove t
        then call_callback C epoll q ?t (rescheduleMask t) (put_source q ?t l) else Inr l) = Inr l1"
      "treat_rescheduled C epoll n (l1\<lparr>rescheduled := tl (rescheduled l1)\<rparr>) = Inr l'"
      using Suc.prems(2) Cons t by (auto simp: deref_def)
    have "rinv 1 l1"
    proof (cases "markedForRemove t")
      case True
      then have "l1 = l" using l1(1) by simp
      then show ?thesis using True Suc.prems(1) Cons t by (auto simp: rinv_def)
    next
      case False
      have "rinv 1 (put_source q ?t l)"
        using Suc.prems(1) Cons by (auto simp: rinv_def put_source_def)
      then show ?thesis using call_callback_rinv [OF assms] l1(1) False by simp
    qed
    then have "rinv 0 (l1\<lparr>rescheduled := tl (rescheduled l1)\<rparr>)"
      by (auto simp: rinv_def drop_Suc)
    then show ?thesis using Suc.IH l1(2) by blast
  qed
qed

lemma treat_cleanup_effect:
  assumes "treat_cleanup q l = Inr l'"
  shows "mem l' = (mem l)(q := None)" "rescheduled l' = rescheduled l"
proof -
  obtain s where "mem l q = Some s"
    using assms by (cases "mem l q") (simp_all add: treat_cleanup_def deref_def)
  then show "mem l' = (mem l)(q := None)" "rescheduled l' = rescheduled l"
    using assms
    by (auto simp: treat_cleanup_def free_source_def deref_def timer_source_dtor_def Let_def)
qed

lemma treat_cleanups_pending:
  assumes "treat_cleanups l = Inr l'"
  shows "(mem l' p = None \<or> mem l' p = mem l p) \<and> rescheduled l' = rescheduled l"
proof -
  have "(mem l' p = None \<or> mem l' p = mem l p) \<and> rescheduled l' = rescheduled l"
    if "res_fold treat_cleanup cs l = Inr l'" for cs l l'
    using that
  proof (induction cs arbitrary: l)
    case (Cons q qs)
    then obtain l1 where "treat_cleanup q l = Inr l1" "res_fold treat_cleanup qs l1 = Inr l'" by auto
    then show ?case using Cons.IH [of l1] treat_cleanup_effect [of q l l1] by (cases "p = q") simp_all
  qed simp
  moreover obtain x where "res_fold treat_cleanup (cleanups l) l = Inr x" "l' = x\<lparr>cleanups := []\<rparr>"
    using assms by (auto simp: treat_cleanups_def)
  ultimately show ?thesis by simp
qed

lemma after_dispatch_rinv:
  assumes "client_lists_ok C" "rinv 0 l" "after_dispatch C epoll n l = Inr l'"
  shows "rinv 0 l'"
proof -
  obtain l1 where l1: "treat_rescheduled C epoll n l = Inr l1"
    "(if length (cleanups l1) \<noteq> 0 then treat_cleanups l1 else Inr l1) = Inr l'"
    using assms(3) by (auto simp: after_dispatch_def)
  have "rinv 0 l1" "rescheduled l1 = []" using treat_rescheduled_rinv [OF assms(1,2) l1(1)] by auto
  moreover have "(mem l' p = None \<or> mem l' p = mem l1 p) \<and> rescheduled l' = rescheduled l1" for p
    using l1(2) treat_cleanups_pending [of l1 l' p] by (cases "cleanups l1 = []") simp_all
  ultimately show ?thesis unfolding rinv_pending pending_def by (auto, metis option.distinct(1))
qed

lemma epoll_events_grow:
  assumes "res_fold (dispatch_epoll_event C) events l = Inr l'" "mem l p = Some s"
  shows "\<exists>s'. mem l' p = Some s' \<and> src_grow s s'"
  using assms
proof (induction events arbitrary: l s)
  case (Cons ev evs)
  then obtain l1 where l1: "dispatch_epoll_event C ev l = Inr l1"
    "res_fold (dispatch_epoll_event C) evs l1 = Inr l'" by auto
  have "\<exists>s1. mem l1 p = Some s1 \<and> src_grow s s1"
  proof -
    obtain q m where ev: "ev = (q, m)" by (rule prod.exhaust)
    obtain t where t: "mem l q = Some t" using l1(1) ev
      by (cases "mem l q") (simp_all add: dispatch_epoll_event_def deref_def)
    show ?thesis
      using l1(1) ev t Cons.prems(2) call_callback_grow [of C True q t "epoll_event_mask t m" l l1]
      by (cases "markedForRemove t") (auto simp: dispatch_epoll_event_def deref_def ev_grow_def)
  qed
  then show ?case using Cons.IH [OF l1(2)] src_grow_trans by blast
qed simp

text \<open>The result of a dispatch that was not interrupted by an error of the wait call.\<close>

lemma dispatch_epoll_Inr:
  assumes "eventloop_dispatch_loop_epoll C n waits l = Inr (r, l')"
  obtains "r = - 1" "l' = l"
  | events l1 where "wait_result waits = Some (Ready events)" "r = int (length events)"
    "res_fold (dispatch_epoll_event C) events l = Inr l1" "after_dispatch C True n l1 = Inr l'"
proof (cases "wait_result waits")
  case (Some w)
  then show ?thesis using assms that by (cases w) (auto simp: eventloop_dispatch_loop_epoll_def)
qed (use assms in \<open>simp add: eventloop_dispatch_loop_epoll_def\<close>)

lemma dispatch_select_Inr:
  assumes "eventloop_dispatch_loop_select C n waits l = Inr (r, l')"
  obtains "r = - 1" "l' = l"
  | status sets l1 where "select_pass C sets (sources l) status 0 l = Inr (r, l1)"
    "after_dispatch C False n l1 = Inr l'"
proof (cases "wait_result waits")
  case (Some w)
  then show ?thesis using assms that by (cases w) (auto simp: eventloop_dispatch_loop_select_def)
qed (use assms in \<open>simp add: eventloop_dispatch_loop_select_def\<close>)

lemma dispatch_epoll_rinv:
  assumes "client_lists_ok C" "rinv 0 l" "eventloop_dispatch_loop_epoll C n waits l = Inr (r, l')"
  shows "rinv 0 l'"
  using assms(3)
proof (cases rule: dispatch_epoll_Inr)
  case (2 events l1)
  then show ?thesis
    using after_dispatch_rinv [OF assms(1)] epoll_events_rinv [OF assms(1,2)] by blast
qed (use assms in simp)

lemma dispatch_select_rinv:
  assumes "client_lists_ok C" "rinv 0 l" "eventloop_dispatch_loop_select C n waits l = Inr (r, l')"
  shows "rinv 0 l'"
  using assms(3)
proof (cases rule: dispatch_select_Inr)
  case (2 status sets l1)
  then show ?thesis
    using after_dispatch_rinv [OF assms(1)] select_pass_rinv [OF assms(1,2)] by blast
qed (use assms in simp)

lemma ev_reach_rinv:
  assumes "client_lists_ok C"
  shows "ev_reach lists_ok C epoll l \<Longrightarrow> rinv 0 l"
proof (induction rule: ev_reach.induct)
  case (reach_create a b c d e l held)
  then show ?case
    by (auto simp: eventloop_create_def Let_def empty_loop_def rinv_def split: if_splits)
next
  case (reach_action l a l')
  then have "sched_effect (of_bool (is_reschedule a)) True l l'"
    using run_action_sched [of epoll a l l'] by simp
  then show ?case by (rule rinv_sched [OF reach_action.IH])
next
  case (reach_epoll l waits n r l')
  show ?case by (rule dispatch_epoll_rinv [OF assms reach_epoll(5,4)])
next
  case (reach_select l n waits r l')
  show ?case by (rule dispatch_select_rinv [OF assms reach_select(4,3)])
qed


text \<open>A pending reschedule is delivered by the next dispatch.\<close>

lemma dispatch_epoll_delivers:
  assumes "rinv 0 l" "client_lists_ok C" "mem l p = Some s" "rescheduleMask s \<noteq> 0"
    "eventloop_dispatch_loop_epoll C n waits l = Inr (r, l')" "r \<noteq> - 1"
  shows "(\<exists>c \<in> set (drop (length (calls l)) (calls l')). call_source c = p \<and>
            rescheduleMask s AND call_mask c = rescheduleMask s) \<or>
         (\<forall>s'. mem l' p = Some s' \<longrightarrow> markedForRemove s')"
  using assms(5)
proof (cases rule: dispatch_epoll_Inr)
  case 1
  then show ?thesis using assms(6) by simp
next
  case (2 events l1)
  obtain l2 where l2: "treat_rescheduled C True n l1 = Inr l2"
    "(if length (cleanups l2) \<noteq> 0 then treat_cleanups l2 else Inr l2) = Inr l'"
    using 2(4) by (auto simp: after_dispatch_def)
  obtain s1 where s1: "mem l1 p = Some s1" "src_grow s s1"
    using epoll_events_grow [OF 2(3) assms(3)] by blast
  have calls': "calls l' = calls l2" and mem': "mem l' p = None \<or> mem l' p = mem l2 p"
    using l2(2) treat_cleanups_calls [of l2 l'] treat_cleanups_pending [of l2 l' p]
    by (auto split: if_splits)
  have gone: ?thesis if "\<exists>t. mem l2 p = Some t \<and> markedForRemove t"
    using that mem' by auto
  show ?thesis
  proof (cases "markedForRemove s1")
    case True
    then show ?thesis using gone treat_rescheduled_marked [OF l2(1) s1(1)] by blast
  next
    case False
    have "rescheduleMask s1 \<noteq> 0"
      using s1(2) assms(4) by (auto simp: src_grow_def)
    moreover have "rinv 0 l1" by (rule epoll_events_rinv [OF assms(2,1) 2(3)])
    ultimately have "p \<in> set (rescheduled l1)" using s1(1) False by (auto simp: rinv_def)
    from treat_rescheduled_delivers [OF l2(1) this s1(1)] show ?thesis
    proof
      assume "\<exists>c \<in> set (drop (length (calls l1)) (calls l2)). call_source c = p \<and>
          rescheduleMask s1 AND call_mask c = rescheduleMask s1"
      then obtain c where c: "c \<in> set (drop (length (calls l1)) (calls l2))" "call_source c = p"
        "rescheduleMask s1 AND call_mask c = rescheduleMask s1" by blast
      have "length (calls l) \<le> length (calls l1)"
        using epoll_events_live [OF 2(3)] by (auto simp: live_calls_def)
      then have "c \<in> set (drop (length (calls l)) (calls l2))"
        using c(1) set_drop_subset_set_drop [of "length (calls l)" "length (calls l1)" "calls l2"] by blast
      moreover have "rescheduleMask s AND call_mask c = rescheduleMask s"
        using c(3) s1(2) by (metis src_grow_def and.assoc)
      ultimately show ?thesis using c(2) calls' by auto
    qed (rule gone)
  qed
qed

section \<open>Termination\<close>

lemma run_action_fuel: "run_action epoll a l \<noteq> Inl OutOfFuel"
  by (cases a) (auto simp: client_source_def split: option.splits)

lemma call_callback_fuel: "call_callback C epoll p s m l \<noteq> Inl OutOfFuel"
proof -
  have "res_fold (run_action epoll) as l \<noteq> Inl OutOfFuel" for as l
  proof (induction as arbitrary: l)
    case (Cons a as)
    then show ?case using run_action_fuel [of epoll a l] by (cases "run_action epoll a l") auto
  qed simp
  then show ?thesis
    by (simp add: call_callback_def Let_def timer_cb_def deref_def run_client_def
        split: ev_callback.split option.split)
qed

lemma call_callback_work:
  assumes "reschedule_budget C B" "call_callback C epoll p s m l = Inr l'"
  shows "ev_work B l' \<le> ev_work B l"
proof -
  obtain c where c: "calls l' = calls l @ [c]"
    "sched_effect (reschedules (on_callback C (calls l @ [c])))
      (list_all lists_ok (on_callback C (calls l @ [c]))) l l'"
    using call_callback_sched [OF assms(2)] by blast
  obtain ys where "rescheduled l' = rescheduled l @ ys"
    "length ys \<le> reschedules (on_callback C (calls l @ [c]))"
    using c(2) unfolding sched_effect_def by blast
  moreover have "reschedules (on_callback C (calls l @ [c])) + B (calls l @ [c]) \<le> B (calls l)"
    using assms(1) by (simp add: reschedule_budget_def)
  ultimately show ?thesis using c(1) by (simp add: ev_work_def)
qed

lemma treat_rescheduled_terminates:
  assumes "reschedule_budget C B" "ev_work B l \<le> n"
  shows "treat_rescheduled C epoll n l \<noteq> Inl OutOfFuel"
  using assms(2)
proof (induction n arbitrary: l)
  case 0
  then show ?case by (simp add: ev_work_def)
next
  case (Suc n)
  show ?case
  proof (cases "rescheduled l")
    case (Cons q qs)
    show ?thesis
    proof (cases "mem l q")
      case (Some t)
      let ?t = "t\<lparr>rescheduleMask := 0\<rparr>"
      let ?r = "if \<not> markedForRemove t
        then call_callback C epoll q ?t (rescheduleMask t) (put_source q ?t l) else Inr l"
      have fuel: "?r \<noteq> Inl OutOfFuel" using call_callback_fuel by simp
      have "ev_work B l1 \<le> ev_work B l \<and> rescheduled l1 \<noteq> []" if "?r = Inr l1" for l1
      proof (cases "markedForRemove t")
        case False
        then have cb: "call_callback C epoll q ?t (rescheduleMask t) (put_source q ?t l) = Inr l1"
          using that by simp
        have "ev_work B (put_source q ?t l) = ev_work B l" by (simp add: ev_work_def put_source_def)
        moreover have "rescheduled l1 \<noteq> []"
          using call_callback_grow [OF cb] Cons by (auto simp: ev_grow_def put_source_def)
        ultimately show ?thesis using call_callback_work [OF assms(1) cb] by simp
      qed (use that Cons in simp)
      then have "treat_rescheduled C epoll n (l1\<lparr>rescheduled := tl (rescheduled l1)\<rparr>) \<noteq> Inl OutOfFuel"
        if "?r = Inr l1" for l1
        using that Suc.prems by (intro Suc.IH) (fastforce simp: ev_work_def neq_Nil_conv)
      then show ?thesis using Cons Some fuel by (cases ?r) (simp_all add: deref_def)
    qed (use Cons in \<open>simp add: deref_def\<close>)
  qed simp
qed

lemma epoll_events_work:
  assumes "reschedule_budget C B"
  shows "res_fold (dispatch_epoll_event C) events l \<noteq> Inl OutOfFuel"
    and "res_fold (dispatch_epoll_event C) events l = Inr l' \<Longrightarrow> ev_work B l' \<le> ev_work B l"
proof -
  have step: "dispatch_epoll_event C ev l \<noteq> Inl OutOfFuel \<and>
     (dispatch_epoll_event C ev l = Inr l1 \<longrightarrow> ev_work B l1 \<le> ev_work B l)" for ev l l1
  proof (cases ev)
    case (Pair q m)
    show ?thesis
    proof (cases "mem l q")
      case (Some t)
      then show ?thesis
        using call_callback_fuel [of C True q t "epoll_event_mask t m" l]
          call_callback_work [OF assms, of True q t "epoll_event_mask t m" l l1]
        by (simp add: Pair dispatch_epoll_event_def deref_def)
    qed (simp add: Pair dispatch_epoll_event_def deref_def)
  qed
  show "res_fold (dispatch_epoll_event C) events l \<noteq> Inl OutOfFuel"
  proof (induction events arbitrary: l)
    case (Cons ev evs)
    then show ?case using step [of ev l] by (cases "dispatch_epoll_event C ev l") simp_all
  qed simp
  show "res_fold (dispatch_epoll_event C) events l = Inr l' \<Longrightarrow> ev_work B l' \<le> ev_work B l"
  proof (induction events arbitrary: l)
    case (Cons ev evs)
    then obtain l1 where "dispatch_epoll_event C ev l = Inr l1"
      "res_fold (dispatch_epoll_event C) evs l1 = Inr l'" by auto
    then show ?case using Cons.IH [of l1] step [of ev l l1] by simp
  qed simp
qed

lemma treat_cleanups_fuel: "treat_cleanups l \<noteq> Inl OutOfFuel"
proof -
  have step: "treat_cleanup p l \<noteq> Inl OutOfFuel" for p l
    by (cases "mem l p")
       (simp_all add: treat_cleanup_def free_source_def deref_def Let_def timer_source_dtor_def)
  have "res_fold treat_cleanup cs l \<noteq> Inl OutOfFuel" for cs
  proof (induction cs arbitrary: l)
    case (Cons p cs)
    then show ?case using step [of p l] by (cases "treat_cleanup p l") simp_all
  qed simp
  then show ?thesis
    by (cases "res_fold treat_cleanup (cleanups l) l") (auto simp: treat_cleanups_def)
qed

lemma dispatch_epoll_terminates:
  assumes "reschedule_budget C B" "wait_result waits \<noteq> None" "ev_work B l \<le> n"
  shows "eventloop_dispatch_loop_epoll C n waits l \<noteq> Inl OutOfFuel"
proof -
  obtain w where w: "wait_result waits = Some w" using assms(2) by blast
  show ?thesis
  proof (cases w)
    case (Ready events)
    have "res_bind (after_dispatch C True n l1) (\<lambda>l. Inr (int (length events), l)) \<noteq> Inl OutOfFuel"
      if "res_fold (dispatch_epoll_event C) events l = Inr l1" for l1
    proof -
      have "ev_work B l1 \<le> n" using epoll_events_work(2) [OF assms(1) that] assms(3) by simp
      then have "treat_rescheduled C True n l1 \<noteq> Inl OutOfFuel"
        by (rule treat_rescheduled_terminates [OF assms(1)])
      then have "after_dispatch C True n l1 \<noteq> Inl OutOfFuel"
        using treat_cleanups_fuel
        by (cases "treat_rescheduled C True n l1") (simp_all add: after_dispatch_def)
      then show ?thesis by (cases "after_dispatch C True n l1") simp_all
    qed
    then show ?thesis
      using w Ready epoll_events_work(1) [OF assms(1), of events l]
      by (cases "res_fold (dispatch_epoll_event C) events l")
         (simp_all add: eventloop_dispatch_loop_epoll_def)
  qed (use w in \<open>simp_all add: eventloop_dispatch_loop_epoll_def\<close>)
qed

lemma free_sources:
  "distinct ps \<Longrightarrow> set ps = dom (mem l) \<Longrightarrow>
     \<exists>l'. res_fold free_source ps l = Inr l' \<and> mem l' = Map.empty \<and> closed_handles l' = closed_handles l"
proof (induction ps arbitrary: l)
  case Nil
  then show ?case by auto
next
  case (Cons p ps)
  then obtain s where "mem l p = Some s" by auto
  then have "free_source p l = Inr (l\<lparr>mem := (mem l)(p := None)\<rparr>)"
    by (simp add: free_source_def deref_def)
  moreover have dom: "set ps = dom (mem (l\<lparr>mem := (mem l)(p := None)\<rparr>))" using Cons.prems by auto
  moreover have "distinct ps" using Cons.prems(1) by simp
  from Cons.IH [OF this dom] obtain l' where
    "res_fold free_source ps (l\<lparr>mem := (mem l)(p := None)\<rparr>) = Inr l'" "mem l' = Map.empty"
    "closed_handles l' = closed_handles l" by auto
  ultimately show ?case by simp
qed

lemma destroy_ok:
  assumes "ev_inv epoll l"
  shows "\<exists>l'. eventloop_destroy l = Inr l' \<and> mem l' = Map.empty \<and>
    (cleanups l = [] \<longrightarrow> closed_handles l' = closed_handles l)"
proof -
  obtain l1 where l1: "treat_cleanups l = Inr l1" "ev_inv epoll (l1\<lparr>rescheduled := []\<rparr>)"
    using treat_cleanups_ok [OF assms] by blast
  have "distinct (sources l1)" "set (sources l1) = dom (mem l1)"
    using ev_invD(1,2) [OF l1(2)] by simp_all
  then obtain l' where "res_fold free_source (sources l1) l1 = Inr l'" "mem l' = Map.empty"
    "closed_handles l' = closed_handles l1"
    using free_sources by blast
  moreover have "closed_handles l1 = closed_handles l" if "cleanups l = []"
    using l1(1) that by (auto simp: treat_cleanups_def)
  ultimately show ?thesis using l1(1) by (simp add: eventloop_destroy_def)
qed

lemma ev_reach_actions:
  assumes "ev_reach A C epoll l" "list_all A as" "res_fold (run_action epoll) as l = Inr l'"
  shows "ev_reach A C epoll l'"
  using assms
  by (induction as arbitrary: l) (auto intro: reach_action)

section \<open>Properties\<close>

lemma ex_reach:
  assumes "list_all A ex_actions"
  shows "ev_reach A C epoll (ex_loop epoll)"
proof (rule ev_reach_actions [OF _ assms])
  show "ev_reach A C epoll empty_loop"
    by (rule reach_create [where a = True and b = True and c = True and d = True and e = True])
       (simp add: eventloop_create_def Let_def)
  show "res_fold (run_action epoll) ex_actions empty_loop = Inr (ex_loop epoll)"
    by (simp add: ex_loop_def ex_actions_def split: sum.split)
qed

lemmas ex_defs = ex_loop_def ex_actions_def ex_env_def eventloop_add_fd_def
  eventloop_add_handle_fd_def malloc_source_def empty_loop_def put_source_def epoll_ctl_add_def
  Let_def new_source_def

lemma ex_waits_reported: "epoll_reports ex_waits (ex_loop True)"
  by (simp add: epoll_reports_def ex_waits_def ex_defs) (rule exI [of _ 6], simp)

lemma ex_dispatch:
  "\<exists>l'. eventloop_dispatch_loop_epoll ex_client 5 ex_waits (ex_loop True) = Inr (2, l') \<and>
     map call_source (calls l') = [2]"
  by (simp add: eventloop_dispatch_loop_epoll_def ex_waits_def dispatch_epoll_event_def ex_defs deref_def
      call_callback_def run_client_def ex_client_def eventloop_remove_source_def epoll_ctl_del_def
      after_dispatch_def treat_cleanups_def treat_cleanup_def free_source_def eval_nat_numeral
      del: res_bind_Inr)

text \<open>
  C15. The event loop never uses a source it has freed: in every reachable state a dispatch of
  either variant, whatever the callbacks do in it, does not touch freed memory, and when the
  epoll variant returns without an error of the wait call no source is left rescheduled or
  waiting for clean-up.
\<close>

theorem dispatch_memory_safe:
  assumes "ev_reach A C epoll l"
  shows "(epoll \<longrightarrow> epoll_reports waits l \<longrightarrow>
      eventloop_dispatch_loop_epoll C n waits l \<noteq> Inl UseAfterFree \<and>
      (\<forall>r l'. eventloop_dispatch_loop_epoll C n waits l = Inr (r, l') \<longrightarrow>
         r = - 1 \<or> (rescheduled l' = [] \<and> cleanups l' = []))) \<and>
    (\<not> epoll \<longrightarrow> eventloop_dispatch_loop_select C n swaits l \<noteq> Inl UseAfterFree)"
proof (intro conjI impI)
  assume *: "epoll" "epoll_reports waits l"
  then have "ev_inv True l" using ev_reach_inv [OF assms] by simp
  from dispatch_epoll_ok [OF this *(2), of C n]
  show "eventloop_dispatch_loop_epoll C n waits l \<noteq> Inl UseAfterFree"
    "\<forall>r l'. eventloop_dispatch_loop_epoll C n waits l = Inr (r, l') \<longrightarrow>
         r = - 1 \<or> (rescheduled l' = [] \<and> cleanups l' = [])"
    by (cases "eventloop_dispatch_loop_epoll C n waits l", auto simp: dispatch_ok_def)+
next
  assume "\<not> epoll"
  then have "ev_inv False l" using ev_reach_inv [OF assms] by simp
  from dispatch_select_ok [OF this, of C n swaits]
  show "eventloop_dispatch_loop_select C n swaits l \<noteq> Inl UseAfterFree" by auto
qed

theorem dispatch_memory_safe_witness:
  "eventloop_dispatch_loop_epoll ex_client 5 ex_waits (ex_loop True) \<noteq> Inl UseAfterFree"
  using dispatch_memory_safe [of "\<lambda>_. True" ex_client True "ex_loop True" ex_waits 5]
    ex_reach [of "\<lambda>_. True" ex_client True] ex_waits_reported
  by (simp add: ex_actions_def)

text \<open>
  C16. With epoll no callback is invoked on a source after it has been removed, in no
  sequence of interface calls and dispatches.
\<close>

theorem no_call_after_remove:
  assumes "ev_reach A C True l"
  shows "\<forall>c \<in> set (calls l). \<not> call_removed c"
  by (rule ev_reach_live_calls [OF assms])

theorem no_call_after_remove_witness:
  "\<exists>l'. eventloop_dispatch_loop_epoll ex_client 5 ex_waits (ex_loop True) = Inr (2, l') \<and>
     map call_source (calls l') = [2] \<and> (\<forall>c \<in> set (calls l'). \<not> call_removed c)"
proof -
  from ex_dispatch obtain l' where
    l': "eventloop_dispatch_loop_epoll ex_client 5 ex_waits (ex_loop True) = Inr (2, l')"
    "map call_source (calls l') = [2]"
    by (elim exE conjE)
  have "ev_reach (\<lambda>_. True) ex_client True (ex_loop True)"
    by (rule ex_reach) (simp add: ex_actions_def)
  then have "ev_reach (\<lambda>_. True) ex_client True l'"
    by (rule reach_epoll [OF _ TrueI ex_waits_reported l'(1)])
  note live = no_call_after_remove [OF this]
  show ?thesis by (intro exI conjI) (rule l' live)+
qed



text \<open>
  C18. A dispatch ends: when the callbacks reschedule only finitely often (every invocation
  pays its reschedule calls from a budget), the loop over the rescheduled sources needs at
  most as many turns as there are entries now plus what is left of the budget.
\<close>

theorem dispatch_terminates:
  assumes "reschedule_budget C B" "wait_result waits \<noteq> None"
    "length (rescheduled l) + B (calls l) \<le> n"
  shows "eventloop_dispatch_loop_epoll C n waits l \<noteq> Inl OutOfFuel"
  using assms by (intro dispatch_epoll_terminates) (simp_all add: ev_work_def)

theorem dispatch_terminates_witness:
  "eventloop_dispatch_loop_epoll ex_client 0 ex_waits (ex_loop True) \<noteq> Inl OutOfFuel"
  by (rule dispatch_terminates [where B = "\<lambda>_. 0"])
     (simp_all add: reschedule_budget_def ex_client_def reschedules_def ex_waits_def ex_defs)




text \<open>
  A reschedule that fails because the list cannot grow still records the mask: the next
  reschedule call reports success without entering the source.
\<close>

lemma reschedule_lost_after_failure:
  assumes "mem l p = Some s" "m \<noteq> 0" "eventsource_reschedule e p s m l = (False, l1)"
    "mem l1 p = Some s1"
  shows "\<exists>l2. eventsource_reschedule e' p s1 m' l1 = (True, l2) \<and> rescheduled l2 = rescheduled l"
proof -
  have "l1 = put_source p (s\<lparr>rescheduleMask := rescheduleMask s OR m\<rparr>) l" "rescheduleMask s = 0"
    using assms(3) by (simp_all add: eventsource_reschedule_def Let_def split: if_splits)
  then have "rescheduleMask s1 \<noteq> 0" "rescheduled l1 = rescheduled l"
    using assms(2,4) by (auto simp: put_source_def or_eq_0_iff)
  then show ?thesis by (simp add: eventsource_reschedule_def put_source_def Let_def)
qed

lemma reschedule_lost_after_failure_witness:
  "\<exists>l2. eventsource_reschedule (ex_env 0) 2
      ((the (mem (ex_loop True) 2))\<lparr>rescheduleMask := 1\<rparr>) 1
      (put_source 2 ((the (mem (ex_loop True) 2))\<lparr>rescheduleMask := 1\<rparr>) (ex_loop True)) = (True, l2) \<and>
    rescheduled l2 = rescheduled (ex_loop True)"
proof (rule reschedule_lost_after_failure [where e = "(ex_env 0)\<lparr>env_list := False\<rparr>" and m = 1])
  show "mem (ex_loop True) 2 = Some (the (mem (ex_loop True) 2))" by (simp add: ex_defs)
qed (simp_all add: eventsource_reschedule_def ex_defs)

text \<open>
  C21. Creation is all or nothing: a loop is returned exactly when every allocation succeeds,
  with all its resources held; a failure at any point releases what was acquired before it.
\<close>

theorem create_all_or_nothing:
  "eventloop_create epoll a b c d e =
     (if a \<and> (epoll \<longrightarrow> b) \<and> c \<and> d \<and> e
      then (Some empty_loop, [RescheduledList, CleanupsList, SourcesList] @
              (if epoll then [EpollFd] else []) @ [LoopMemory])
      else (None, []))"
  by (simp add: eventloop_create_def Let_def)

theorem create_all_or_nothing_witness:
  "eventloop_create True True True True True False = (None, [])"
  by (simp add: create_all_or_nothing)

end
