(* ===== verification/Wire_Stream.thy ===== *)
theory Wire_Stream
  imports Ogon_Prelude
begin

text \<open>
  The byte streams the server reads and writes. The code uses WinPR's \<open>wStream\<close>, which is not
  part of the repository: a record of its integer encoders and decoders is a parameter of the
  models, and the locale \<open>wire_format\<close> states what the code relies on, the width of each
  encoding and that decoding gives back what was encoded. A written stream is the list of the
  items written to it, in order. The little-endian format WinPR documents is an instance.
\<close>

section \<open>Model\<close>

record wire =
  wr16 :: "u16 \<Rightarrow> u8 list"
  wr32 :: "u32 \<Rightarrow> u8 list"
  wr64 :: "u64 \<Rightarrow> u8 list"
  rd16 :: "u8 list \<Rightarrow> u16"
  rd32 :: "u8 list \<Rightarrow> u32"
  rd64 :: "u8 list \<Rightarrow> u64"

text \<open>The items the code writes: \<open>Stream_Write_UINT8\<close> to \<open>_UINT64\<close> and \<open>Stream_Write\<close>.\<close>

datatype wire_item = W8 u8 | W16 u16 | W32 u32 | W64 u64 | WBytes "u8 list"

fun item_bytes :: "wire \<Rightarrow> wire_item \<Rightarrow> u8 list" where
  "item_bytes W (W8 b) = [b]"
| "item_bytes W (W16 w) = wr16 W w"
| "item_bytes W (W32 w) = wr32 W w"
| "item_bytes W (W64 w) = wr64 W w"
| "item_bytes W (WBytes bs) = bs"

fun item_size :: "wire_item \<Rightarrow> nat" where
  "item_size (W8 b) = 1"
| "item_size (W16 w) = 2"
| "item_size (W32 w) = 4"
| "item_size (W64 w) = 8"
| "item_size (WBytes bs) = length bs"

definition wire_bytes :: "wire \<Rightarrow> wire_item list \<Rightarrow> u8 list" where
  "wire_bytes W items = concat (map (item_bytes W) items)"

definition wire_size :: "wire_item list \<Rightarrow> nat" where
  "wire_size items = sum_list (map item_size items)"

text \<open>Reading at a position: an access behind the end of the data is the error \<open>OutOfBounds\<close>.\<close>

datatype wire_error = OutOfBounds

type_synonym 'a rd = "wire_error + 'a"

definition rd_u16 :: "wire \<Rightarrow> u8 list \<Rightarrow> nat \<Rightarrow> (u16 \<times> nat) rd" where
  "rd_u16 W bs pos =
     (if pos + 2 \<le> length bs then Inr (rd16 W (drop pos bs), pos + 2) else Inl OutOfBounds)"

definition rd_u32 :: "wire \<Rightarrow> u8 list \<Rightarrow> nat \<Rightarrow> (u32 \<times> nat) rd" where
  "rd_u32 W bs pos =
     (if pos + 4 \<le> length bs then Inr (rd32 W (drop pos bs), pos + 4) else Inl OutOfBounds)"

definition rd_u64 :: "wire \<Rightarrow> u8 list \<Rightarrow> nat \<Rightarrow> (u64 \<times> nat) rd" where
  "rd_u64 W bs pos =
     (if pos + 8 \<le> length bs then Inr (rd64 W (drop pos bs), pos + 8) else Inl OutOfBounds)"

text \<open>The documented format: little endian.\<close>

fun le_write :: "nat \<Rightarrow> 'a::len word \<Rightarrow> u8 list" where
  "le_write 0 w = []"
| "le_write (Suc n) w = ucast w # le_write n (drop_bit 8 w)"

fun le_read :: "nat \<Rightarrow> u8 list \<Rightarrow> 'a::len word" where
  "le_read 0 bs = 0"
| "le_read (Suc n) [] = 0"
| "le_read (Suc n) (b # bs) = ucast b OR push_bit 8 (le_read n bs)"

definition le_wire :: wire where
  "le_wire = \<lparr>wr16 = le_write 2, wr32 = le_write 4, wr64 = le_write 8,
              rd16 = le_read 2, rd32 = le_read 4, rd64 = le_read 8\<rparr>"

section \<open>What the code relies on\<close>

locale wire_format =
  fixes W :: wire
  assumes len16: "length (wr16 W a) = 2"
    and len32: "length (wr32 W b) = 4"
    and len64: "length (wr64 W c) = 8"
    and read16: "rd16 W (wr16 W a @ bs) = a"
    and read32: "rd32 W (wr32 W b @ bs) = b"
    and read64: "rd64 W (wr64 W c @ bs) = c"
begin

lemma length_item [simp]: "length (item_bytes W i) = item_size i"
  by (cases i) (simp_all add: len16 len32 len64)

lemma length_wire_bytes [simp]: "length (wire_bytes W is) = wire_size is"
  by (induction "is") (simp_all add: wire_bytes_def wire_size_def)

lemma rd_u16_written:
  "length pre = pos \<Longrightarrow> rd_u16 W (pre @ wr16 W a @ bs) pos = Inr (a, pos + 2)"
  by (auto simp: rd_u16_def len16 read16)

lemma rd_u32_written:
  "length pre = pos \<Longrightarrow> rd_u32 W (pre @ wr32 W b @ bs) pos = Inr (b, pos + 4)"
  by (auto simp: rd_u32_def len32 read32)

lemma rd_u64_written:
  "length pre = pos \<Longrightarrow> rd_u64 W (pre @ wr64 W c @ bs) pos = Inr (c, pos + 8)"
  by (auto simp: rd_u64_def len64 read64)

lemma rd_u16_at:
  "drop pos bs = wr16 W a @ r \<Longrightarrow> rd_u16 W bs pos = Inr (a, pos + 2) \<and> drop (pos + 2) bs = r"
proof -
  assume d: "drop pos bs = wr16 W a @ r"
  then have "length (drop pos bs) = 2 + length r" by (simp add: len16)
  then have "pos + 2 \<le> length bs" by simp
  moreover have "drop (pos + 2) bs = drop 2 (drop pos bs)" by (simp add: add.commute)
  ultimately show "rd_u16 W bs pos = Inr (a, pos + 2) \<and> drop (pos + 2) bs = r"
    using d by (auto simp: rd_u16_def read16 len16)
qed

lemma rd_u32_at:
  "drop pos bs = wr32 W a @ r \<Longrightarrow> rd_u32 W bs pos = Inr (a, pos + 4) \<and> drop (pos + 4) bs = r"
proof -
  assume d: "drop pos bs = wr32 W a @ r"
  then have "length (drop pos bs) = 4 + length r" by (simp add: len32)
  then have "pos + 4 \<le> length bs" by simp
  moreover have "drop (pos + 4) bs = drop 4 (drop pos bs)" by (simp add: add.commute)
  ultimately show "rd_u32 W bs pos = Inr (a, pos + 4) \<and> drop (pos + 4) bs = r"
    using d by (auto simp: rd_u32_def read32 len32)
qed

lemma rd_u64_at:
  "drop pos bs = wr64 W a @ r \<Longrightarrow> rd_u64 W bs pos = Inr (a, pos + 8) \<and> drop (pos + 8) bs = r"
proof -
  assume d: "drop pos bs = wr64 W a @ r"
  then have "length (drop pos bs) = 8 + length r" by (simp add: len64)
  then have "pos + 8 \<le> length bs" by simp
  moreover have "drop (pos + 8) bs = drop 8 (drop pos bs)" by (simp add: add.commute)
  ultimately show "rd_u64 W bs pos = Inr (a, pos + 8) \<and> drop (pos + 8) bs = r"
    using d by (auto simp: rd_u64_def read64 len64)
qed

end

lemma wire_bytes_simps [simp]:
  "wire_bytes W [] = []"
  "wire_bytes W (i # is) = item_bytes W i @ wire_bytes W is"
  "wire_bytes W (is @ js) = wire_bytes W is @ wire_bytes W js"
  by (simp_all add: wire_bytes_def)

lemma wire_size_simps [simp]:
  "wire_size [] = 0"
  "wire_size (i # is) = item_size i + wire_size is"
  "wire_size (is @ js) = wire_size is + wire_size js"
  by (simp_all add: wire_size_def)

section \<open>The little-endian format\<close>

lemma length_le_write [simp]: "length (le_write n w) = n"
  by (induction n arbitrary: w) simp_all

lemma take_bit_byte:
  fixes w :: "'a::len word"
  shows "take_bit (8 + k) w = take_bit 8 w OR push_bit 8 (take_bit k (drop_bit 8 w))"
  by (rule bit_eqI) (auto simp: bit_simps)

lemma le_read_write:
  fixes w :: "'a::len word"
  assumes "8 \<le> LENGTH('a)"
  shows "le_read n (le_write n w @ bs) = take_bit (8 * n) w"
proof (induction n arbitrary: w)
  case (Suc n)
  have "(ucast (ucast w :: u8) :: 'a word) = take_bit 8 w"
    by (rule bit_eqI) (auto simp: bit_simps)
  then show ?case using Suc take_bit_byte [of "8 * n" w] by simp
qed simp

lemma take_bit_word_full: "LENGTH('a) \<le> n \<Longrightarrow> take_bit n (w :: 'a::len word) = w"
  by (rule bit_eqI) (auto simp: bit_simps dest: bit_imp_le_length)

interpretation le: wire_format le_wire
  by unfold_locales (simp_all add: le_wire_def le_read_write take_bit_word_full)

end
