(* ===== verification/Region16.thy ===== *)
theory Region16
  imports Ogon_Prelude
begin

text \<open>
  Rectangles and regions of the screen. The regions are FreeRDP's \<open>REGION16\<close>, which is not part of
  the repository: its operations are a parameter of the models, and the locale \<open>region_laws\<close> states
  what its documentation promises. Lists of rectangles are an instance.
\<close>

section \<open>Rectangles and regions\<close>

text \<open>The right and bottom edges do not belong to a rectangle.\<close>

record RECTANGLE_16 =
  rect_left :: u16
  rect_top :: u16
  rect_right :: u16
  rect_bottom :: u16

text \<open>The fields of an \<open>RDP_RECT\<close> are \<open>INT16\<close>: they are read with \<open>sint\<close>.\<close>

record RDP_RECT =
  rr_x :: u16
  rr_y :: u16
  rr_width :: u16
  rr_height :: u16

definition rect_points :: "RECTANGLE_16 \<Rightarrow> (nat \<times> nat) set" where
  "rect_points r = {(x, y). unat (rect_left r) \<le> x \<and> x < unat (rect_right r) \<and> unat (rect_top r) \<le> y \<and> y < unat (rect_bottom r)}"

definition rect_ok :: "RECTANGLE_16 \<Rightarrow> bool" where
  "rect_ok r \<longleftrightarrow> rect_left r < rect_right r \<and> rect_top r < rect_bottom r"

text \<open>
  The operations of the library. \<open>reg_union\<close> and \<open>reg_intersect\<close> also say whether they succeeded.
\<close>

record 'r region16 =
  reg_rects :: "'r \<Rightarrow> RECTANGLE_16 list"
  reg_extents :: "'r \<Rightarrow> RECTANGLE_16"
  reg_is_empty :: "'r \<Rightarrow> bool"
  reg_clear :: "'r"
  reg_union :: "'r \<Rightarrow> RECTANGLE_16 \<Rightarrow> bool \<times> 'r"
  reg_intersect :: "'r \<Rightarrow> RECTANGLE_16 \<Rightarrow> bool \<times> 'r"

definition reg_points :: "'r region16 \<Rightarrow> 'r \<Rightarrow> (nat \<times> nat) set" where
  "reg_points R g = (\<Union>r \<in> set (reg_rects R g). rect_points r)"

definition reg_ok :: "'r region16 \<Rightarrow> 'r \<Rightarrow> bool" where
  "reg_ok R g \<longleftrightarrow> (\<forall>r \<in> set (reg_rects R g). rect_ok r)"

text \<open>The instance: lists of rectangles that are not empty, and operations that never fail.\<close>

definition rect_meet :: "RECTANGLE_16 \<Rightarrow> RECTANGLE_16 \<Rightarrow> RECTANGLE_16" where
  "rect_meet a b = \<lparr>rect_left = max (rect_left a) (rect_left b), rect_top = max (rect_top a) (rect_top b),
     rect_right = min (rect_right a) (rect_right b), rect_bottom = min (rect_bottom a) (rect_bottom b)\<rparr>"

definition rect_join :: "RECTANGLE_16 \<Rightarrow> RECTANGLE_16 \<Rightarrow> RECTANGLE_16" where
  "rect_join a b = \<lparr>rect_left = min (rect_left a) (rect_left b), rect_top = min (rect_top a) (rect_top b),
     rect_right = max (rect_right a) (rect_right b), rect_bottom = max (rect_bottom a) (rect_bottom b)\<rparr>"

definition rect_list :: "RECTANGLE_16 list region16" where
  "rect_list =
     \<lparr>reg_rects = (\<lambda>g. g),
      reg_extents = (\<lambda>g. case g of [] \<Rightarrow> \<lparr>rect_left = 0, rect_top = 0, rect_right = 0, rect_bottom = 0\<rparr> | r # rs \<Rightarrow> foldl rect_join r rs),
      reg_is_empty = (\<lambda>g. g = []),
      reg_clear = [],
      reg_union = (\<lambda>g r. (True, g @ [r])),
      reg_intersect = (\<lambda>g r. (True, filter rect_ok (map (rect_meet r) g)))\<rparr>"

lemma rect_corner: "rect_ok r \<Longrightarrow> (unat (rect_left r), unat (rect_top r)) \<in> rect_points r"
  by (simp add: rect_ok_def rect_points_def word_less_nat_alt)

text \<open>
  What the code relies on: the points of a union and of an intersection, that the extents are the
  smallest rectangle around a region, and that the rectangles of a region are not empty.
\<close>

locale region_laws =
  fixes R :: "'r region16"
  assumes clear_rects: "reg_rects R (reg_clear R) = []"
    and is_empty: "reg_is_empty R g \<longleftrightarrow> reg_rects R g = []"
    and union_ok: "reg_union R g r = (True, g') \<Longrightarrow> reg_ok R g \<Longrightarrow> rect_ok r \<Longrightarrow> reg_ok R g'"
    and union_points: "reg_union R g r = (True, g') \<Longrightarrow> reg_ok R g \<Longrightarrow> rect_ok r \<Longrightarrow>
      reg_points R g' = reg_points R g \<union> rect_points r"
    and intersect_ok: "reg_intersect R g r = (True, g') \<Longrightarrow> reg_ok R g \<Longrightarrow> reg_ok R g'"
    and intersect_points: "reg_intersect R g r = (True, g') \<Longrightarrow> reg_ok R g \<Longrightarrow>
      reg_points R g' = reg_points R g \<inter> rect_points r"
    and extents_contains: "reg_ok R g \<Longrightarrow> r \<in> set (reg_rects R g) \<Longrightarrow> rect_points r \<subseteq> rect_points (reg_extents R g)"
    and extents_within: "reg_ok R g \<Longrightarrow> (\<And>r. r \<in> set (reg_rects R g) \<Longrightarrow> rect_right r \<le> a \<and> rect_bottom r \<le> b) \<Longrightarrow>
      rect_right (reg_extents R g) \<le> a \<and> rect_bottom (reg_extents R g) \<le> b"
begin

lemma clear_ok: "reg_ok R (reg_clear R)"
  by (simp add: reg_ok_def clear_rects)

lemma clear_points: "reg_points R (reg_clear R) = {}"
  by (simp add: reg_points_def clear_rects)

lemma points_in_extents: "reg_ok R g \<Longrightarrow> reg_points R g \<subseteq> rect_points (reg_extents R g)"
  using extents_contains by (auto simp: reg_points_def)

lemma empty_points: "reg_ok R g \<Longrightarrow> reg_is_empty R g \<longleftrightarrow> reg_points R g = {}"
  using rect_corner by (cases "reg_rects R g") (auto simp: is_empty reg_points_def reg_ok_def)

end

section \<open>The instance\<close>

lemma rect_meet_points: "rect_points (rect_meet a b) = rect_points a \<inter> rect_points b"
  by (auto simp: rect_points_def rect_meet_def max_def min_def word_le_nat_alt)

lemma rect_empty: "\<not> rect_ok r \<Longrightarrow> rect_points r = {}"
  by (auto simp: rect_points_def rect_ok_def word_less_nat_alt)

lemma rect_join_points: "rect_points a \<subseteq> rect_points (rect_join a b)" "rect_points b \<subseteq> rect_points (rect_join a b)"
  by (auto simp: rect_points_def rect_join_def max_def min_def word_le_nat_alt)

lemma join_fold_first: "rect_points a \<subseteq> rect_points (foldl rect_join a rs)"
proof (induction rs arbitrary: a)
  case (Cons b rs)
  show ?case using subset_trans [OF rect_join_points(1) Cons.IH [of "rect_join a b"]] by simp
qed simp

lemma join_fold_contains: "r \<in> set rs \<Longrightarrow> rect_points r \<subseteq> rect_points (foldl rect_join a rs)"
proof (induction rs arbitrary: a)
  case (Cons b rs)
  show ?case
  proof (cases "r = b")
    case True
    then show ?thesis using subset_trans [OF rect_join_points(2) join_fold_first] by simp
  qed (use Cons in simp)
qed simp

lemma join_fold_within:
  "rect_right a \<le> c \<and> rect_bottom a \<le> d \<Longrightarrow> (\<And>r. r \<in> set rs \<Longrightarrow> rect_right r \<le> c \<and> rect_bottom r \<le> d) \<Longrightarrow>
     rect_right (foldl rect_join a rs) \<le> c \<and> rect_bottom (foldl rect_join a rs) \<le> d"
  by (induction rs arbitrary: a) (auto simp: rect_join_def)

interpretation rl: region_laws rect_list
proof
  show "reg_points rect_list g' = reg_points rect_list g \<inter> rect_points r"
    if "reg_intersect rect_list g r = (True, g')" "reg_ok rect_list g" for g r g'
  proof -
    have "g' = filter rect_ok (map (rect_meet r) g)" using that(1) by (simp add: rect_list_def)
    then have "reg_points rect_list g' = (\<Union>q \<in> set g. rect_points (rect_meet r q))"
      using rect_empty by (auto simp: reg_points_def rect_list_def)
    then show ?thesis by (auto simp: rect_meet_points reg_points_def rect_list_def)
  qed
  show "rect_points r \<subseteq> rect_points (reg_extents rect_list g)" if "r \<in> set (reg_rects rect_list g)" for r g
  proof (cases g)
    case (Cons a rs)
    then have "r = a \<or> r \<in> set rs" using that by (simp add: rect_list_def)
    then show ?thesis using join_fold_first [of a rs] join_fold_contains [of r rs a] Cons by (auto simp: rect_list_def)
  qed (use that in \<open>simp add: rect_list_def\<close>)
  show "rect_right (reg_extents rect_list g) \<le> a \<and> rect_bottom (reg_extents rect_list g) \<le> b"
    if "\<And>r. r \<in> set (reg_rects rect_list g) \<Longrightarrow> rect_right r \<le> a \<and> rect_bottom r \<le> b" for g a b
  proof (cases g)
    case (Cons c rs)
    then show ?thesis using that join_fold_within [of c a b rs] by (simp add: rect_list_def)
  qed (simp add: rect_list_def)
qed (auto simp: rect_list_def reg_ok_def reg_points_def)

end
