(* ===== verification/Rdpgfx.thy ===== *)
theory Rdpgfx
  imports Wire_Stream Region16
begin

text \<open>
  The graphics pipeline channel (\<open>rdp-server/rdpgfx.c\<close>): reassembly and dispatch of the client's
  PDUs, capability negotiation, opening and closing, and the PDUs the server sends. A sender is
  modelled by the capacity it asks \<open>Stream_New\<close> for and the items it writes; the receiver by a
  function from the context and the received bytes to the context and the calls it makes.
  Growing a stream, allocating, and the results of the channel functions are arguments.
\<close>

section \<open>Model: sending\<close>

definition RDPGFX_MAX_SEGMENT_LENGTH :: u32 where "RDPGFX_MAX_SEGMENT_LENGTH = 65535"
definition RDPGFX_SINGLE :: u8 where "RDPGFX_SINGLE = 0xE0"
definition RDPGFX_MULTIPART :: u8 where "RDPGFX_MULTIPART = 0xE1"
definition RDPGFX_WIRETOSURFACE_1_HEADER_SIZE :: u32 where "RDPGFX_WIRETOSURFACE_1_HEADER_SIZE = 25"
definition RDPGFX_WIRETOSURFACE_2_HEADER_SIZE :: u32 where "RDPGFX_WIRETOSURFACE_2_HEADER_SIZE = 21"
definition PACKET_COMPR_TYPE_RDP8 :: u8 where "PACKET_COMPR_TYPE_RDP8 = 0x04"

definition RDPGFX_CMDID_WIRETOSURFACE_1 :: u16 where "RDPGFX_CMDID_WIRETOSURFACE_1 = 0x01"
definition RDPGFX_CMDID_WIRETOSURFACE_2 :: u16 where "RDPGFX_CMDID_WIRETOSURFACE_2 = 0x02"
definition RDPGFX_CMDID_SOLIDFILL :: u16 where "RDPGFX_CMDID_SOLIDFILL = 0x04"
definition RDPGFX_CMDID_SURFACETOCACHE :: u16 where "RDPGFX_CMDID_SURFACETOCACHE = 0x06"
definition RDPGFX_CMDID_CACHETOSURFACE :: u16 where "RDPGFX_CMDID_CACHETOSURFACE = 0x07"
definition RDPGFX_CMDID_CREATESURFACE :: u16 where "RDPGFX_CMDID_CREATESURFACE = 0x09"
definition RDPGFX_CMDID_DELETESURFACE :: u16 where "RDPGFX_CMDID_DELETESURFACE = 0x0A"
definition RDPGFX_CMDID_STARTFRAME :: u16 where "RDPGFX_CMDID_STARTFRAME = 0x0B"
definition RDPGFX_CMDID_ENDFRAME :: u16 where "RDPGFX_CMDID_ENDFRAME = 0x0C"
definition RDPGFX_CMDID_FRAMEACKNOWLEDGE :: u16 where "RDPGFX_CMDID_FRAMEACKNOWLEDGE = 0x0D"
definition RDPGFX_CMDID_RESETGRAPHICS :: u16 where "RDPGFX_CMDID_RESETGRAPHICS = 0x0E"
definition RDPGFX_CMDID_MAPSURFACETOOUTPUT :: u16 where "RDPGFX_CMDID_MAPSURFACETOOUTPUT = 0x0F"
definition RDPGFX_CMDID_CACHEIMPORTOFFER :: u16 where "RDPGFX_CMDID_CACHEIMPORTOFFER = 0x10"
definition RDPGFX_CMDID_CACHEIMPORTREPLY :: u16 where "RDPGFX_CMDID_CACHEIMPORTREPLY = 0x11"
definition RDPGFX_CMDID_CAPSADVERTISE :: u16 where "RDPGFX_CMDID_CAPSADVERTISE = 0x12"
definition RDPGFX_CMDID_CAPSCONFIRM :: u16 where "RDPGFX_CMDID_CAPSCONFIRM = 0x13"
definition RDPGFX_CMDID_QOEFRAMEACKNOWLEDGE :: u16 where "RDPGFX_CMDID_QOEFRAMEACKNOWLEDGE = 0x16"
definition MONITOR_PRIMARY :: u32 where "MONITOR_PRIMARY = 1"

type_synonym stream_out = "u32 \<times> wire_item list"

definition rect_items :: "RECTANGLE_16 \<Rightarrow> wire_item list" where
  "rect_items r = [W16 (rect_left r), W16 (rect_top r), W16 (rect_right r), W16 (rect_bottom r)]"

text \<open>Descriptor and \<open>RDPGFX_HEADER\<close> of a PDU sent in a single segment.\<close>

definition gfx_header :: "u16 \<Rightarrow> u32 \<Rightarrow> wire_item list" where
  "gfx_header cmdId pduLength = [W16 cmdId, W16 0, W32 pduLength]"

definition gfx_single :: "u16 \<Rightarrow> u32 \<Rightarrow> wire_item list" where
  "gfx_single cmdId pduLength =
     [W8 RDPGFX_SINGLE, W8 PACKET_COMPR_TYPE_RDP8] @ gfx_header cmdId pduLength"

text \<open>The loop that writes the bitmap data behind the first segment.\<close>

function gfx_segments :: "u32 \<Rightarrow> u8 list \<Rightarrow> wire_item list" where
  "gfx_segments bitmapDataLength bitmapData =
     (if bitmapDataLength = 0 then []
      else let segmentLength = (if bitmapDataLength > RDPGFX_MAX_SEGMENT_LENGTH
                                then RDPGFX_MAX_SEGMENT_LENGTH else bitmapDataLength)
           in [W32 (1 + segmentLength), W8 PACKET_COMPR_TYPE_RDP8,
               WBytes (take (unat segmentLength) bitmapData)] @
              gfx_segments (bitmapDataLength - segmentLength) (drop (unat segmentLength) bitmapData))"
  by pat_completeness auto
termination
proof (relation "measure (\<lambda>(n, d). unat n)", simp, clarsimp)
  fix n :: u32
  assume n: "n \<noteq> 0"
  let ?s = "if RDPGFX_MAX_SEGMENT_LENGTH < n then RDPGFX_MAX_SEGMENT_LENGTH else n"
  have "?s \<le> n" "?s \<noteq> 0" using n by (auto simp: RDPGFX_MAX_SEGMENT_LENGTH_def)
  then have "unat (n - ?s) = unat n - unat ?s" "0 < unat ?s" "unat ?s \<le> unat n"
    by (auto simp: unat_diff_le unat_gt_0 word_le_nat_alt)
  then show "(RDPGFX_MAX_SEGMENT_LENGTH < n \<longrightarrow> unat (n - RDPGFX_MAX_SEGMENT_LENGTH) < unat n) \<and>
      (\<not> RDPGFX_MAX_SEGMENT_LENGTH < n \<longrightarrow> 0 < unat n)"
    by (auto split: if_splits)
qed

declare gfx_segments.simps [simp del]

text \<open>The part the two wire-to-surface senders share: \<open>hdr\<close> are the fields behind the PDU header.\<close>

definition gfx_wire_to_surface :: "u16 \<Rightarrow> u32 \<Rightarrow> wire_item list \<Rightarrow> u32 \<Rightarrow> u8 list \<Rightarrow> stream_out" where
  "gfx_wire_to_surface cmdId headerSize hdr bitmapDataLength bitmapData =
     (let pduLength = headerSize + bitmapDataLength in
      if pduLength \<le> RDPGFX_MAX_SEGMENT_LENGTH
      then (pduLength + 2,
            gfx_single cmdId pduLength @ hdr @ [WBytes (take (unat bitmapDataLength) bitmapData)])
      else let segmentCount = (pduLength + (RDPGFX_MAX_SEGMENT_LENGTH - 1)) div RDPGFX_MAX_SEGMENT_LENGTH;
               segmentLength = RDPGFX_MAX_SEGMENT_LENGTH - headerSize
           in (7 + (5 + RDPGFX_MAX_SEGMENT_LENGTH) * segmentCount,
               [W8 RDPGFX_MULTIPART, W16 (ucast segmentCount), W32 pduLength,
                W32 (1 + RDPGFX_MAX_SEGMENT_LENGTH), W8 PACKET_COMPR_TYPE_RDP8] @
               gfx_header cmdId pduLength @ hdr @ [WBytes (take (unat segmentLength) bitmapData)] @
               gfx_segments (bitmapDataLength - segmentLength) (drop (unat segmentLength) bitmapData)))"

record RDPGFX_WIRE_TO_SURFACE_PDU_1 =
  w1_surfaceId :: u16
  w1_codecId :: u16
  w1_pixelFormat :: u8
  w1_destRect :: RECTANGLE_16
  w1_bitmapDataLength :: u32
  w1_bitmapData :: "u8 list"

definition rdpgfx_server_wire_to_surface_1 :: "RDPGFX_WIRE_TO_SURFACE_PDU_1 \<Rightarrow> stream_out" where
  "rdpgfx_server_wire_to_surface_1 p =
     gfx_wire_to_surface RDPGFX_CMDID_WIRETOSURFACE_1 RDPGFX_WIRETOSURFACE_1_HEADER_SIZE
       ([W16 (w1_surfaceId p), W16 (w1_codecId p), W8 (w1_pixelFormat p)] @
        rect_items (w1_destRect p) @ [W32 (w1_bitmapDataLength p)])
       (w1_bitmapDataLength p) (w1_bitmapData p)"

record RDPGFX_WIRE_TO_SURFACE_PDU_2 =
  w2_surfaceId :: u16
  w2_codecId :: u16
  w2_codecContextId :: u32
  w2_pixelFormat :: u8
  w2_bitmapDataLength :: u32
  w2_bitmapData :: "u8 list"

definition rdpgfx_server_wire_to_surface_2 :: "RDPGFX_WIRE_TO_SURFACE_PDU_2 \<Rightarrow> stream_out" where
  "rdpgfx_server_wire_to_surface_2 p =
     gfx_wire_to_surface RDPGFX_CMDID_WIRETOSURFACE_2 RDPGFX_WIRETOSURFACE_2_HEADER_SIZE
       [W16 (w2_surfaceId p), W16 (w2_codecId p), W32 (w2_codecContextId p), W8 (w2_pixelFormat p),
        W32 (w2_bitmapDataLength p)]
       (w2_bitmapDataLength p) (w2_bitmapData p)"

record RDPGFX_SOLID_FILL_PDU =
  sf_surfaceId :: u16
  sf_B :: u8
  sf_G :: u8
  sf_R :: u8
  sf_XA :: u8
  sf_fillRectCount :: u16
  sf_fillRects :: "RECTANGLE_16 list"

definition rdpgfx_server_solidfill :: "RDPGFX_SOLID_FILL_PDU \<Rightarrow> stream_out" where
  "rdpgfx_server_solidfill p =
     (18 + ucast (sf_fillRectCount p) * 8,
      gfx_single RDPGFX_CMDID_SOLIDFILL (16 + ucast (sf_fillRectCount p) * 8) @
      [W16 (sf_surfaceId p), W8 (sf_B p), W8 (sf_G p), W8 (sf_R p), W8 (sf_XA p),
       W16 (sf_fillRectCount p)] @
      concat (map rect_items (take (unat (sf_fillRectCount p)) (sf_fillRects p))))"

definition rdpgfx_server_create_surface :: "u16 \<Rightarrow> u16 \<Rightarrow> u16 \<Rightarrow> u8 \<Rightarrow> stream_out" where
  "rdpgfx_server_create_surface surfaceId width height pixelFormat =
     (17, gfx_single RDPGFX_CMDID_CREATESURFACE 15 @
          [W16 surfaceId, W16 width, W16 height, W8 pixelFormat])"

definition rdpgfx_server_delete_surface :: "u16 \<Rightarrow> stream_out" where
  "rdpgfx_server_delete_surface surfaceId =
     (12, gfx_single RDPGFX_CMDID_DELETESURFACE 10 @ [W16 surfaceId])"

definition rdpgfx_server_start_frame :: "u32 \<Rightarrow> u32 \<Rightarrow> stream_out" where
  "rdpgfx_server_start_frame timestamp frameId =
     (18, gfx_single RDPGFX_CMDID_STARTFRAME 16 @ [W32 timestamp, W32 frameId])"

definition rdpgfx_server_end_frame :: "u32 \<Rightarrow> stream_out" where
  "rdpgfx_server_end_frame frameId = (14, gfx_single RDPGFX_CMDID_ENDFRAME 12 @ [W32 frameId])"

text \<open>The stream is cleared before and sent to its full size of 342 bytes.\<close>

definition rdpgfx_server_reset_graphics :: "u32 \<Rightarrow> u32 \<Rightarrow> stream_out" where
  "rdpgfx_server_reset_graphics width height =
     (342,
      let items = gfx_single RDPGFX_CMDID_RESETGRAPHICS 340 @
            [W32 width, W32 height, W32 1, W32 0, W32 0, W32 (width - 1), W32 (height - 1),
             W32 MONITOR_PRIMARY]
      in items @ [WBytes (replicate (342 - wire_size items) 0)])"

definition rdpgfx_server_map_surface_to_output :: "u16 \<Rightarrow> u32 \<Rightarrow> u32 \<Rightarrow> stream_out" where
  "rdpgfx_server_map_surface_to_output surfaceId outputOriginX outputOriginY =
     (22, gfx_single RDPGFX_CMDID_MAPSURFACETOOUTPUT 20 @
          [W16 surfaceId, W16 0, W32 outputOriginX, W32 outputOriginY])"

definition rdpgfx_server_surface_to_cache :: "u16 \<Rightarrow> u64 \<Rightarrow> u16 \<Rightarrow> RECTANGLE_16 \<Rightarrow> stream_out" where
  "rdpgfx_server_surface_to_cache surfaceId cacheKey cacheSlot rectSrc =
     (30, gfx_single RDPGFX_CMDID_SURFACETOCACHE 28 @
          [W16 surfaceId, W64 cacheKey, W16 cacheSlot] @ rect_items rectSrc)"

definition rdpgfx_server_cache_to_surface :: "u16 \<Rightarrow> u16 \<Rightarrow> u16 \<Rightarrow> (u16 \<times> u16) list \<Rightarrow> stream_out" where
  "rdpgfx_server_cache_to_surface cacheSlot surfaceId destPtsCount destPts =
     (let pdusz = ucast destPtsCount * 4 + 14 in
      (pdusz + 2,
       gfx_single RDPGFX_CMDID_CACHETOSURFACE pdusz @
       [W16 cacheSlot, W16 surfaceId, W16 destPtsCount] @
       concat (map (\<lambda>(x, y). [W16 x, W16 y]) (take (unat destPtsCount) destPts))))"

definition rdpgfx_server_cache_import_reply :: "u16 \<Rightarrow> u16 list \<Rightarrow> stream_out" where
  "rdpgfx_server_cache_import_reply importedEntriesCount cacheSlots =
     (let pdusz = ucast importedEntriesCount * 2 + 10 in
      (pdusz + 2,
       gfx_single RDPGFX_CMDID_CACHEIMPORTREPLY pdusz @
       [W16 importedEntriesCount] @ map W16 (take (unat importedEntriesCount) cacheSlots)))"

section \<open>Model: receiving\<close>

definition RDPGFX_CAPVERSION_8 :: u32 where "RDPGFX_CAPVERSION_8 = 0x00080004"
definition RDPGFX_CAPVERSION_81 :: u32 where "RDPGFX_CAPVERSION_81 = 0x00080105"
definition RDPGFX_CAPVERSION_10 :: u32 where "RDPGFX_CAPVERSION_10 = 0x000A0002"
definition RDPGFX_CAPVERSION_101 :: u32 where "RDPGFX_CAPVERSION_101 = 0x000A0100"
definition RDPGFX_CAPVERSION_102 :: u32 where "RDPGFX_CAPVERSION_102 = 0x000A0200"
definition RDPGFX_CAPVERSION_103 :: u32 where "RDPGFX_CAPVERSION_103 = 0x000A0301"
definition RDPGFX_CAPVERSION_104 :: u32 where "RDPGFX_CAPVERSION_104 = 0x000A0400"
definition RDPGFX_CAPVERSION_105 :: u32 where "RDPGFX_CAPVERSION_105 = 0x000A0502"
definition RDPGFX_CAPVERSION_106_WRONG :: u32 where "RDPGFX_CAPVERSION_106_WRONG = 0x000A0601"
definition RDPGFX_CAPVERSION_106 :: u32 where "RDPGFX_CAPVERSION_106 = 0x000A0600"
definition RDPGFX_CAPS_FLAG_AVC420_ENABLED :: u32 where "RDPGFX_CAPS_FLAG_AVC420_ENABLED = 0x10"
definition RDPGFX_CAPS_FLAG_AVC_DISABLED :: u32 where "RDPGFX_CAPS_FLAG_AVC_DISABLED = 0x20"
definition RDPGFX_CAPS_FLAG_AVC_THINCLIENT :: u32 where "RDPGFX_CAPS_FLAG_AVC_THINCLIENT = 0x40"

lemmas capversion_defs = RDPGFX_CAPVERSION_8_def RDPGFX_CAPVERSION_81_def RDPGFX_CAPVERSION_10_def
  RDPGFX_CAPVERSION_101_def RDPGFX_CAPVERSION_102_def RDPGFX_CAPVERSION_103_def
  RDPGFX_CAPVERSION_104_def RDPGFX_CAPVERSION_105_def RDPGFX_CAPVERSION_106_def
  RDPGFX_CAPVERSION_106_WRONG_def

datatype open_result = OPEN_RESULT_OK | OPEN_RESULT_CLOSED | OPEN_RESULT_NOTSUPPORTED | OPEN_RESULT_ERROR

text \<open>
  The context: \<open>received\<close> are the bytes of the receive stream before its position. The calls
  the code makes are collected as events.
\<close>

record rdpgfx_server_context =
  rdpgfx_channel :: bool
  received :: "u8 list"
  requiredBytes :: u32
  capsReceived :: bool
  gfx_version :: u32
  gfx_flags :: u32
  h264Supported :: bool
  avc444Supported :: bool
  avc444v2Supported :: bool
  avc444Restricted :: bool

datatype gfx_event =
    OpenResult open_result
  | FrameAcknowledge u32 u32 u32
  | QoeFrameAcknowledge u32 u32 u16 u16
  | CacheImportOffer "(u64 \<times> u32) list"
  | ChannelWrite "u8 list"
  | ChannelOpen
  | ChannelClose

record gfx_env =
  stream_grow :: "nat \<Rightarrow> bool"
  calloc_entries :: "nat \<Rightarrow> bool"
  channel_write :: "u8 list \<Rightarrow> bool"

definition rdpgfx_server_context_new :: "bool \<Rightarrow> bool \<Rightarrow> rdpgfx_server_context option" where
  "rdpgfx_server_context_new calloc_ok stream_ok =
     (if \<not> calloc_ok then None else if \<not> stream_ok then None
      else Some \<lparr>rdpgfx_channel = False, received = [], requiredBytes = 0, capsReceived = False,
                 gfx_version = 0, gfx_flags = 0, h264Supported = False, avc444Supported = False,
                 avc444v2Supported = False, avc444Restricted = False\<rparr>)"

definition rdpgfx_server_open ::
    "bool \<Rightarrow> rdpgfx_server_context \<Rightarrow> rdpgfx_server_context \<times> gfx_event list" where
  "rdpgfx_server_open channel_ok c =
     (if rdpgfx_channel c then (c, [])
      else if \<not> channel_ok then (c, [OpenResult OPEN_RESULT_NOTSUPPORTED])
      else (c\<lparr>rdpgfx_channel := True, requiredBytes := 8, gfx_version := 0, gfx_flags := 0,
              capsReceived := False\<rparr>, [ChannelOpen]))"

definition rdpgfx_server_close ::
    "rdpgfx_server_context \<Rightarrow> rdpgfx_server_context \<times> gfx_event list" where
  "rdpgfx_server_close c =
     (if rdpgfx_channel c
      then (c\<lparr>rdpgfx_channel := False\<rparr>, [ChannelClose, OpenResult OPEN_RESULT_CLOSED])
      else (c, []))"

text \<open>Freeing the context closes the channel; what it frees is not used again.\<close>

definition rdpgfx_server_context_free :: "rdpgfx_server_context \<Rightarrow> gfx_event list" where
  "rdpgfx_server_context_free c = snd (rdpgfx_server_close c)"

datatype creation_status = STATUS_REMOTE_DISCONNECT | STATUS_FILE_CLOSED | STATUS_OTHER

fun rdpgfx_server_ogon_deleted_callback ::
    "rdpgfx_server_context \<Rightarrow> creation_status \<Rightarrow> rdpgfx_server_context \<times> gfx_event list" where
  "rdpgfx_server_ogon_deleted_callback c STATUS_REMOTE_DISCONNECT =
     (c\<lparr>rdpgfx_channel := False\<rparr>, [OpenResult OPEN_RESULT_CLOSED])"
| "rdpgfx_server_ogon_deleted_callback c STATUS_FILE_CLOSED =
     (c\<lparr>rdpgfx_channel := False\<rparr>, [OpenResult OPEN_RESULT_CLOSED])"
| "rdpgfx_server_ogon_deleted_callback c STATUS_OTHER =
     (c\<lparr>rdpgfx_channel := False\<rparr>, [OpenResult OPEN_RESULT_ERROR])"

definition capsconfirm_items :: "rdpgfx_server_context \<Rightarrow> wire_item list" where
  "capsconfirm_items c = gfx_single RDPGFX_CMDID_CAPSCONFIRM 20 @
     [W32 (gfx_version c), W32 4, W32 (gfx_flags c)]"

text \<open>
  The result of a reader of one PDU: whether it accepts it, the position of the stream when it
  returns, the context, and the calls made.
\<close>

type_synonym pdu_result = "bool \<times> nat \<times> rdpgfx_server_context \<times> gfx_event list"

text \<open>Sends the confirmation from the receive stream, which it overwrites.\<close>

definition rdpgfx_server_send_capabilities ::
    "wire \<Rightarrow> gfx_env \<Rightarrow> rdpgfx_server_context \<Rightarrow> bool \<times> u8 list \<times> gfx_event list" where
  "rdpgfx_server_send_capabilities W E c =
     (if \<not> stream_grow E 22 then (False, [], [])
      else let out = wire_bytes W (capsconfirm_items c)
           in (channel_write E out, out, [ChannelWrite out]))"

definition fix_capversion :: "u32 \<Rightarrow> u32" where
  "fix_capversion version =
     (if version = RDPGFX_CAPVERSION_106_WRONG then RDPGFX_CAPVERSION_106 else version)"

text \<open>The codec support that a capability set of each version implies (the \<open>switch\<close>).\<close>

definition capset_codecs ::
    "u32 \<Rightarrow> u32 \<Rightarrow> rdpgfx_server_context \<times> bool \<Rightarrow> rdpgfx_server_context \<times> bool" where
  "capset_codecs version flags ct =
     (case ct of (c, thin) \<Rightarrow>
      let enabled = (flags AND RDPGFX_CAPS_FLAG_AVC_DISABLED = 0) in
      if version = RDPGFX_CAPVERSION_8 then (c, thin)
      else if version = RDPGFX_CAPVERSION_81
      then (c\<lparr>h264Supported := (flags AND RDPGFX_CAPS_FLAG_AVC420_ENABLED \<noteq> 0),
              avc444Supported := False\<rparr>, thin)
      else if version = RDPGFX_CAPVERSION_10
      then (c\<lparr>avc444Supported := enabled, h264Supported := enabled, avc444v2Supported := False\<rparr>, thin)
      else if version = RDPGFX_CAPVERSION_101
      then (c\<lparr>h264Supported := True, avc444Supported := True, avc444v2Supported := True\<rparr>, thin)
      else if version \<in> {RDPGFX_CAPVERSION_102, RDPGFX_CAPVERSION_103, RDPGFX_CAPVERSION_104,
                         RDPGFX_CAPVERSION_105, RDPGFX_CAPVERSION_106}
      then (c\<lparr>avc444Supported := enabled, h264Supported := enabled, avc444v2Supported := enabled\<rparr>,
            flags AND RDPGFX_CAPS_FLAG_AVC_THINCLIENT \<noteq> 0)
      else (c, thin))"

text \<open>What one capability set does to the context and to \<open>avcThinClient\<close>.\<close>

definition apply_capset ::
    "u32 \<Rightarrow> u32 \<Rightarrow> rdpgfx_server_context \<times> bool \<Rightarrow> rdpgfx_server_context \<times> bool" where
  "apply_capset version flags ct =
     (if version \<ge> RDPGFX_CAPVERSION_8 \<and> version \<le> RDPGFX_CAPVERSION_106 \<and>
         version > gfx_version (fst ct)
      then let (c, thin) = capset_codecs version flags ct
           in (c\<lparr>gfx_version := version, gfx_flags := flags\<rparr>, thin)
      else ct)"

text \<open>The loop over the advertised sets: the number left, the bytes left, position, context.\<close>

fun caps_loop ::
    "wire \<Rightarrow> u8 list \<Rightarrow> nat \<Rightarrow> u32 \<Rightarrow> nat \<Rightarrow> rdpgfx_server_context \<times> bool \<Rightarrow>
     (bool \<times> nat \<times> rdpgfx_server_context \<times> bool) rd" where
  "caps_loop W bs 0 len pos ct = Inr (True, pos, ct)"
| "caps_loop W bs (Suc n) len pos ct =
     (if len < 8 then Inr (False, pos, ct)
      else res_bind (rd_u32 W bs pos) (\<lambda>(version, pos).
           res_bind (rd_u32 W bs pos) (\<lambda>(capsDataLength, pos).
           if len - 8 < capsDataLength then Inr (False, pos, ct)
           else res_bind (if capsDataLength \<ge> 4
                          then res_bind (rd_u32 W bs pos) (\<lambda>(flags, pos).
                                 Inr (flags, pos + unat (capsDataLength - 4)))
                          else Inr (0, pos + unat capsDataLength)) (\<lambda>(flags, pos).
                caps_loop W bs n (len - 8 - capsDataLength) pos
                  (apply_capset (fix_capversion version) flags ct)))))"

definition restrict_avc444 :: "rdpgfx_server_context \<times> bool \<Rightarrow> rdpgfx_server_context" where
  "restrict_avc444 ct = (case ct of (c, thin) \<Rightarrow>
     if avc444Supported c \<and> avc444Restricted c
     then c\<lparr>avc444Supported := thin, avc444v2Supported := thin\<rparr> else c)"

definition rdpgfx_server_recv_capabilities ::
    "wire \<Rightarrow> u8 list \<Rightarrow> nat \<Rightarrow> u32 \<Rightarrow> rdpgfx_server_context \<Rightarrow> (bool \<times> nat \<times> rdpgfx_server_context) rd" where
  "rdpgfx_server_recv_capabilities W bs pos len c =
     (if len < 2 then Inr (False, pos, c)
      else res_bind (rd_u16 W bs pos) (\<lambda>(capsSetCount, pos).
           res_bind (caps_loop W bs (unat capsSetCount) (len - 2) pos (c, False)) (\<lambda>(ok, pos, ct).
           Inr (if \<not> ok then (False, pos, fst ct)
                else if gfx_version (fst ct) = 0 then (False, pos, fst ct)
                else (True, pos, restrict_avc444 ct)))))"

definition rdpgfx_server_recv_frameack ::
    "wire \<Rightarrow> u8 list \<Rightarrow> nat \<Rightarrow> u32 \<Rightarrow> rdpgfx_server_context \<Rightarrow> pdu_result rd" where
  "rdpgfx_server_recv_frameack W bs pos len c =
     (if len < 12 then Inr (False, pos, c, [])
      else res_bind (rd_u32 W bs pos) (\<lambda>(queueDepth, pos).
           res_bind (rd_u32 W bs pos) (\<lambda>(frameId, pos).
           res_bind (rd_u32 W bs pos) (\<lambda>(totalFramesDecoded, pos).
           Inr (True, pos, c, [FrameAcknowledge queueDepth frameId totalFramesDecoded])))))"

definition rdpgfx_server_recv_qoe_frameack ::
    "wire \<Rightarrow> u8 list \<Rightarrow> nat \<Rightarrow> u32 \<Rightarrow> rdpgfx_server_context \<Rightarrow> pdu_result rd" where
  "rdpgfx_server_recv_qoe_frameack W bs pos len c =
     (if len < 12 then Inr (False, pos, c, [])
      else res_bind (rd_u32 W bs pos) (\<lambda>(frameId, pos).
           res_bind (rd_u32 W bs pos) (\<lambda>(timestamp, pos).
           res_bind (rd_u16 W bs pos) (\<lambda>(timeDiffSE, pos).
           res_bind (rd_u16 W bs pos) (\<lambda>(timeDiffEDR, pos).
           Inr (True, pos, c, [QoeFrameAcknowledge frameId timestamp timeDiffSE timeDiffEDR]))))))"

fun read_cache_entries :: "wire \<Rightarrow> u8 list \<Rightarrow> nat \<Rightarrow> nat \<Rightarrow> ((u64 \<times> u32) list \<times> nat) rd" where
  "read_cache_entries W bs 0 pos = Inr ([], pos)"
| "read_cache_entries W bs (Suc n) pos =
     res_bind (rd_u64 W bs pos) (\<lambda>(cacheKey, pos).
     res_bind (rd_u32 W bs pos) (\<lambda>(bitmapLength, pos).
     res_bind (read_cache_entries W bs n pos) (\<lambda>(es, pos).
     Inr ((cacheKey, bitmapLength) # es, pos))))"

definition rdpgfx_server_recv_cache_import_offer ::
    "wire \<Rightarrow> gfx_env \<Rightarrow> u8 list \<Rightarrow> nat \<Rightarrow> u32 \<Rightarrow> rdpgfx_server_context \<Rightarrow> pdu_result rd" where
  "rdpgfx_server_recv_cache_import_offer W E bs pos len c =
     (if len < 2 then Inr (False, pos, c, [])
      else res_bind (rd_u16 W bs pos) (\<lambda>(cacheEntriesCount, pos).
           if cacheEntriesCount \<ge> 5462 then Inr (False, pos, c, [])
           else if len - 2 < ucast cacheEntriesCount * 12 then Inr (False, pos, c, [])
           else if \<not> calloc_entries E (unat cacheEntriesCount) then Inr (False, pos, c, [])
           else res_bind (read_cache_entries W bs (unat cacheEntriesCount) pos) (\<lambda>(es, pos).
                Inr (True, pos, c, [CacheImportOffer es]))))"

text \<open>
  One complete PDU: \<open>bs\<close> is the stream content up to its position. The context it returns has
  the new content of the stream; on failure the caller closes the channel.
\<close>

definition gfx_dispatch ::
    "wire \<Rightarrow> gfx_env \<Rightarrow> u16 \<Rightarrow> u32 \<Rightarrow> rdpgfx_server_context \<Rightarrow> (bool \<times> rdpgfx_server_context \<times> gfx_event list) rd" where
  "gfx_dispatch W E cmdId pduLength c =
     (let bs = received c;
          stop = (\<lambda>(ok, pos, c, evs). Inr (ok, c\<lparr>received := take pos bs\<rparr>, evs)) in
      if cmdId = RDPGFX_CMDID_CAPSADVERTISE
      then if capsReceived c then Inr (False, c\<lparr>received := take 8 bs\<rparr>, [])
           else res_bind (rdpgfx_server_recv_capabilities W bs 8 pduLength c) (\<lambda>(ok, pos, c).
                if \<not> ok then Inr (False, c\<lparr>received := take pos bs\<rparr>, [])
                else let c = c\<lparr>capsReceived := True\<rparr>;
                         (sent, out, evs) = rdpgfx_server_send_capabilities W E c
                     in Inr (sent, c\<lparr>received := out\<rparr>,
                             evs @ (if sent then [OpenResult OPEN_RESULT_OK] else [])))
      else if cmdId = RDPGFX_CMDID_FRAMEACKNOWLEDGE
      then res_bind (rdpgfx_server_recv_frameack W bs 8 pduLength c) stop
      else if cmdId = RDPGFX_CMDID_QOEFRAMEACKNOWLEDGE
      then res_bind (rdpgfx_server_recv_qoe_frameack W bs 8 pduLength c) stop
      else if cmdId = RDPGFX_CMDID_CACHEIMPORTOFFER
      then res_bind (rdpgfx_server_recv_cache_import_offer W E bs 8 pduLength c) stop
      else Inr (True, c\<lparr>received := take 8 bs\<rparr>, []))"

text \<open>The body of the receive loop behind the copying of data: \<open>goto err\<close> is the result False.\<close>

definition gfx_step ::
    "wire \<Rightarrow> gfx_env \<Rightarrow> rdpgfx_server_context \<Rightarrow> (bool \<times> rdpgfx_server_context \<times> gfx_event list) rd" where
  "gfx_step W E c =
     (let bs = received c; position = (of_nat (length bs) :: u32) in
      res_bind (rd_u16 W bs 0) (\<lambda>(cmdId, pos).
      res_bind (rd_u32 W bs (pos + 2)) (\<lambda>(pduLength, pos).
      if pduLength < 8 then Inr (False, c\<lparr>received := take pos bs\<rparr>, [])
      else if position < pduLength then Inr (True, c\<lparr>requiredBytes := pduLength\<rparr>, [])
      else res_bind (gfx_dispatch W E cmdId (pduLength - 8) c) (\<lambda>(ok, c, evs).
           Inr (if ok then (True, c\<lparr>requiredBytes := 8, received := []\<rparr>, evs) else (False, c, evs))))))"

definition gfx_fail ::
    "rdpgfx_server_context \<times> gfx_event list \<Rightarrow> (bool \<times> rdpgfx_server_context \<times> gfx_event list) rd" where
  "gfx_fail r = (case r of (c, evs) \<Rightarrow>
     let (c, close) = rdpgfx_server_close c in Inr (False, c, evs @ close))"

lemma gfx_step_True:
  assumes "gfx_step W E c = Inr (True, c', evs)"
  shows "(requiredBytes c' = 8 \<and> received c' = []) \<or>
    (received c' = received c \<and> 8 \<le> requiredBytes c' \<and> of_nat (length (received c)) < requiredBytes c')"
proof -
  obtain cmdId pos pduLength pos' where r: "rd_u16 W (received c) 0 = Inr (cmdId, pos)"
    "rd_u32 W (received c) (pos + 2) = Inr (pduLength, pos')"
    using assms by (auto simp: gfx_step_def Let_def)
  show ?thesis
  proof (cases "pduLength < 8 \<or> of_nat (length (received c)) < pduLength")
    case True
    then show ?thesis using assms r by (auto simp: gfx_step_def Let_def not_less split: if_splits)
  next
    case False
    then obtain r where "gfx_dispatch W E cmdId (pduLength - 8) c = Inr r"
      using assms r by (auto simp: gfx_step_def Let_def)
    then show ?thesis
      using assms r False by (cases r) (auto simp: gfx_step_def Let_def split: if_splits)
  qed
qed

text \<open>
  \<open>rdpgfx_server_ogon_receive_callback\<close>: every turn of the loop consumes data or makes the
  next one consume data.
\<close>

function rdpgfx_server_ogon_receive_callback ::
    "wire \<Rightarrow> gfx_env \<Rightarrow> rdpgfx_server_context \<Rightarrow> u8 list \<Rightarrow>
     (bool \<times> rdpgfx_server_context \<times> gfx_event list) rd" where
  "rdpgfx_server_ogon_receive_callback W E c data =
     (if length (received c) + length data \<ge> unat (requiredBytes c)
      then let consume = requiredBytes c - of_nat (length (received c)) in
           if \<not> stream_grow E (unat consume) then Inr (False, c, [])
           else if length data < unat consume then Inl OutOfBounds
           else case gfx_step W E (c\<lparr>received := received c @ take (unat consume) data\<rparr>) of
                  Inl e \<Rightarrow> Inl e
                | Inr (ok, c, evs) \<Rightarrow>
                    if \<not> ok then gfx_fail (c, evs)
                    else res_bind (rdpgfx_server_ogon_receive_callback W E c (drop (unat consume) data))
                           (\<lambda>(ok, c, evs'). Inr (ok, c, evs @ evs'))
      else if data \<noteq> [] \<and> \<not> stream_grow E (length data) then gfx_fail (c, [])
      else let c = c\<lparr>received := received c @ data\<rparr> in
           if length (received c) \<ge> unat (requiredBytes c) then gfx_fail (c, [])
           else Inr (True, c, []))"
  by pat_completeness auto
termination
proof (relation "measure (\<lambda>(W, E, c, data).
    2 * length data + of_bool (requiredBytes c = of_nat (length (received c))))", simp, goal_cases)
  case (1 W E c data consume r ok r' c' evs)
  then have step: "gfx_step W E (c\<lparr>received := received c @ take (unat consume) data\<rparr>) = Inr (True, c', evs)"
    by simp
  have "requiredBytes c' \<noteq> of_nat (length (received c'))"
    using gfx_step_True [OF step] by auto
  moreover have "unat consume \<noteq> 0 \<or> requiredBytes c = of_nat (length (received c))"
    using 1(2) by (auto simp: unat_eq_0)
  ultimately show ?case using 1(4) by auto
qed

declare rdpgfx_server_ogon_receive_callback.simps [simp del]

end
