(* ===== verification/Rdpgfx_Receive.thy ===== *)
theory Rdpgfx_Receive
  imports Rdpgfx
begin

text \<open>
  The receiver of the graphics channel: every access is inside the received PDU, pieces of data
  are reassembled, and the PDUs of a client cause the calls they describe. A channel that is
  opened again inside a PDU is the exception.
\<close>

definition in_bounds :: "'a rd \<Rightarrow> bool" where
  "in_bounds r \<longleftrightarrow> r \<noteq> Inl OutOfBounds"

text \<open>Between two calls the receive stream holds less than what is required.\<close>

definition gfx_inv :: "rdpgfx_server_context \<Rightarrow> bool" where
  "gfx_inv c \<longleftrightarrow> length (received c) < unat (requiredBytes c) \<and> 8 \<le> requiredBytes c"

type_synonym gfx_result = "(bool \<times> rdpgfx_server_context \<times> gfx_event list) rd"

text \<open>Receiving in sequence: the calls are appended, and a failure ends it.\<close>

definition gfx_then :: "gfx_result \<Rightarrow> (rdpgfx_server_context \<Rightarrow> gfx_result) \<Rightarrow> gfx_result" where
  "gfx_then r f = res_bind r (\<lambda>(ok, c, evs).
     if ok then res_bind (f c) (\<lambda>(ok, c, evs'). Inr (ok, c, evs @ evs')) else Inr (ok, c, evs))"

fun gfx_feed :: "wire \<Rightarrow> gfx_env \<Rightarrow> rdpgfx_server_context \<Rightarrow> u8 list list \<Rightarrow> gfx_result" where
  "gfx_feed W E c [] = Inr (True, c, [])"
| "gfx_feed W E c (x # xs) =
     gfx_then (rdpgfx_server_ogon_receive_callback W E c x) (\<lambda>c. gfx_feed W E c xs)"

text \<open>The PDUs of the client as [MS-RDPEGFX] lays them out, and the calls they cause.\<close>

datatype gfx_client_pdu =
    ClientFrameAck u32 u32 u32
  | ClientQoeFrameAck u32 u32 u16 u16
  | ClientCacheImportOffer "(u64 \<times> u32) list"

fun client_body :: "gfx_client_pdu \<Rightarrow> wire_item list" where
  "client_body (ClientFrameAck q f t) = [W32 q, W32 f, W32 t]"
| "client_body (ClientQoeFrameAck f t s e) = [W32 f, W32 t, W16 s, W16 e]"
| "client_body (ClientCacheImportOffer es) =
     W16 (of_nat (length es)) # concat (map (\<lambda>(k, n). [W64 k, W32 n]) es)"

fun client_cmdId :: "gfx_client_pdu \<Rightarrow> u16" where
  "client_cmdId (ClientFrameAck q f t) = RDPGFX_CMDID_FRAMEACKNOWLEDGE"
| "client_cmdId (ClientQoeFrameAck f t s e) = RDPGFX_CMDID_QOEFRAMEACKNOWLEDGE"
| "client_cmdId (ClientCacheImportOffer es) = RDPGFX_CMDID_CACHEIMPORTOFFER"

fun client_event :: "gfx_client_pdu \<Rightarrow> gfx_event" where
  "client_event (ClientFrameAck q f t) = FrameAcknowledge q f t"
| "client_event (ClientQoeFrameAck f t s e) = QoeFrameAcknowledge f t s e"
| "client_event (ClientCacheImportOffer es) = CacheImportOffer es"

fun client_pdu_ok :: "gfx_client_pdu \<Rightarrow> bool" where
  "client_pdu_ok (ClientCacheImportOffer es) = (length es < 5462)"
| "client_pdu_ok _ = True"

definition encode_pdu :: "wire \<Rightarrow> u16 \<Rightarrow> wire_item list \<Rightarrow> u8 list" where
  "encode_pdu W cmdId body =
     wire_bytes W (gfx_header cmdId (of_nat (8 + wire_size body)) @ body)"

definition encode_client_pdu :: "wire \<Rightarrow> gfx_client_pdu \<Rightarrow> u8 list" where
  "encode_client_pdu W p = encode_pdu W (client_cmdId p) (client_body p)"

definition gfx_idle :: "rdpgfx_server_context \<Rightarrow> bool" where
  "gfx_idle c \<longleftrightarrow> received c = [] \<and> requiredBytes c = 8"

definition env_ok :: "gfx_env \<Rightarrow> bool" where
  "env_ok E \<longleftrightarrow> (\<forall>n. stream_grow E n) \<and> (\<forall>n. calloc_entries E n) \<and> (\<forall>bs. channel_write E bs)"

definition demo_env :: gfx_env where
  "demo_env = \<lparr>stream_grow = (\<lambda>_. True), calloc_entries = (\<lambda>_. True), channel_write = (\<lambda>_. True)\<rparr>"

definition demo_gfx :: rdpgfx_server_context where
  "demo_gfx = fst (rdpgfx_server_open True (the (rdpgfx_server_context_new True True)))"

section \<open>Reading stays inside the PDU\<close>

lemma in_bounds_Inr [simp]: "in_bounds (Inr x)"
  by (simp add: in_bounds_def)

lemma in_bounds_bind:
  "in_bounds r \<Longrightarrow> (\<And>x. r = Inr x \<Longrightarrow> in_bounds (f x)) \<Longrightarrow> in_bounds (res_bind r f)"
  by (cases r) (simp_all add: in_bounds_def)

lemma rd_in_bounds:
  "pos + 2 \<le> length bs \<Longrightarrow> rd_u16 W bs pos = Inr (rd16 W (drop pos bs), pos + 2)"
  "pos + 4 \<le> length bs \<Longrightarrow> rd_u32 W bs pos = Inr (rd32 W (drop pos bs), pos + 4)"
  "pos + 8 \<le> length bs \<Longrightarrow> rd_u64 W bs pos = Inr (rd64 W (drop pos bs), pos + 8)"
  by (simp_all add: rd_u16_def rd_u32_def rd_u64_def)

lemma not_less_unat: "\<not> a < b \<Longrightarrow> unat b \<le> unat (a :: 'a::len word)"
  by (simp add: word_less_nat_alt)

lemma frameack_in_bounds:
  assumes "pos + unat len \<le> length bs"
  shows "in_bounds (rdpgfx_server_recv_frameack W bs pos len c)"
proof (cases "len < 12")
  case False
  then have "pos + 12 \<le> length bs" using assms not_less_unat [of len 12] by simp
  then show ?thesis by (simp add: rdpgfx_server_recv_frameack_def rd_in_bounds False)
qed (simp add: rdpgfx_server_recv_frameack_def)

lemma qoe_in_bounds:
  assumes "pos + unat len \<le> length bs"
  shows "in_bounds (rdpgfx_server_recv_qoe_frameack W bs pos len c)"
proof (cases "len < 12")
  case False
  then have "pos + 12 \<le> length bs" using assms not_less_unat [of len 12] by simp
  then show ?thesis by (simp add: rdpgfx_server_recv_qoe_frameack_def rd_in_bounds False)
qed (simp add: rdpgfx_server_recv_qoe_frameack_def)

lemma cache_entries_in_bounds:
  "pos + 12 * n \<le> length bs \<Longrightarrow> in_bounds (read_cache_entries W bs n pos)"
proof (induction n arbitrary: pos)
  case (Suc n)
  then have "in_bounds (read_cache_entries W bs n (pos + 8 + 4))" by (intro Suc.IH) simp
  then show ?case using Suc.prems by (auto simp: rd_in_bounds intro!: in_bounds_bind)
qed simp

lemma cache_import_in_bounds:
  assumes "pos + unat len \<le> length bs"
  shows "in_bounds (rdpgfx_server_recv_cache_import_offer W E bs pos len c)"
proof (cases "len < 2")
  case False
  then have len: "2 \<le> unat len" using not_less_unat [of len 2] by simp
  then have "pos + 2 \<le> length bs" using assms by simp
  moreover define n where "n = rd16 W (drop pos bs)"
  moreover have "in_bounds (read_cache_entries W bs (unat n) (pos + 2))"
    if "\<not> n \<ge> 5462" "\<not> len - 2 < ucast n * 12"
  proof (rule cache_entries_in_bounds)
    have "unat n < 5462" using that(1) by (simp add: word_le_nat_alt)
    then have "unat (ucast n * 12 :: u32) = unat n * 12"
      by (subst unat_mult_lem [THEN iffD1]) simp_all
    moreover have "unat (len - 2) = unat len - 2" using False by (simp add: unat_diff_le not_less)
    ultimately show "pos + 2 + 12 * unat n \<le> length bs"
      using not_less_unat [OF that(2)] assms len by simp
  qed
  ultimately show ?thesis
    using False
    by (auto simp: rdpgfx_server_recv_cache_import_offer_def rd_in_bounds intro!: in_bounds_bind)
qed (simp add: rdpgfx_server_recv_cache_import_offer_def)

lemma caps_loop_in_bounds:
  "pos + unat len \<le> length bs \<Longrightarrow> in_bounds (caps_loop W bs n len pos ct)"
proof (induction n arbitrary: len pos ct)
  case (Suc n)
  show ?case
  proof (cases "len < 8")
    case False
    then have len: "8 \<le> unat len" using not_less_unat [of len 8] by simp
    have l8: "unat (len - 8) = unat len - 8" using False by (simp add: unat_diff_le not_less)
    define d where "d = rd32 W (drop (pos + 4) bs)"
    have p: "pos + 8 \<le> length bs" using len Suc.prems by simp
    show ?thesis
    proof (cases "len - 8 < d")
      case True
      then show ?thesis using False p by (simp add: rd_in_bounds d_def)
    next
      case fits: False
      then have d: "unat d \<le> unat len - 8" using l8 not_less_unat by fastforce
      have rest: "unat (len - 8 - d) = unat len - 8 - unat d"
        using fits l8 by (simp add: unat_diff_le not_less)
      have loop: "in_bounds (caps_loop W bs n (len - 8 - d) q ct')" if "q = pos + 8 + unat d" for q ct'
        using Suc.prems rest d len that by (intro Suc.IH) simp
      have d4: "pos + 8 + 4 \<le> length bs" "12 + unat (d - 4) = 8 + unat d" if "4 \<le> d"
        using that Suc.prems d len by (auto simp: unat_diff_le word_le_nat_alt)
      show ?thesis
        using False fits p d4
        by (cases "4 \<le> d") (simp_all add: rd_in_bounds d_def [symmetric] loop)
    qed
  qed simp
qed simp

lemma recv_capabilities_in_bounds:
  assumes "pos + unat len \<le> length bs"
  shows "in_bounds (rdpgfx_server_recv_capabilities W bs pos len c)"
proof (cases "len < 2")
  case False
  then have len: "2 \<le> unat len" using not_less_unat [of len 2] by simp
  have "unat (len - 2) = unat len - 2" using False by (simp add: unat_diff_le not_less)
  then have "in_bounds (caps_loop W bs n (len - 2) (pos + 2) ct)" for n ct
    using len assms by (intro caps_loop_in_bounds) simp
  then show ?thesis
    using False assms len
    by (auto simp: rdpgfx_server_recv_capabilities_def rd_in_bounds intro!: in_bounds_bind)
qed (simp add: rdpgfx_server_recv_capabilities_def)

lemma gfx_dispatch_in_bounds:
  assumes "8 + unat len \<le> length (received c)"
  shows "in_bounds (gfx_dispatch W E cmdId len c)"
  unfolding gfx_dispatch_def Let_def
  using recv_capabilities_in_bounds [OF assms] frameack_in_bounds [OF assms]
    qoe_in_bounds [OF assms] cache_import_in_bounds [OF assms]
  by (auto intro!: in_bounds_bind split: prod.splits)

lemma gfx_step_in_bounds:
  assumes "8 \<le> length (received c)" "length (received c) < 2 ^ 32"
  shows "in_bounds (gfx_step W E c)"
proof -
  let ?bs = "received c"
  define n where "n = rd32 W (drop 4 ?bs)"
  have "in_bounds (gfx_dispatch W E cmdId (n - 8) c)"
    if "\<not> n < 8" "\<not> of_nat (length ?bs) < n" for cmdId
  proof (rule gfx_dispatch_in_bounds)
    have "unat (of_nat (length ?bs) :: u32) = length ?bs"
      using assms(2) by (simp add: unat_of_nat take_bit_nat_eq_self)
    then have "unat n \<le> length ?bs" using not_less_unat [OF that(2)] by simp
    moreover have "unat (n - 8) = unat n - 8" using that(1) by (simp add: unat_diff_le not_less)
    moreover have "8 \<le> unat n" using not_less_unat [OF that(1)] by simp
    ultimately show "8 + unat (n - 8) \<le> length ?bs" by simp
  qed
  moreover have "rd_u16 W ?bs 0 = Inr (rd16 W ?bs, 2)" "rd_u32 W ?bs 4 = Inr (n, 8)"
    using assms(1) by (simp_all add: rd_u16_def rd_u32_def n_def)
  ultimately show ?thesis
    by (auto simp: gfx_step_def Let_def intro!: in_bounds_bind)
qed

lemma gfx_consume:
  assumes "gfx_inv c"
  shows "unat (requiredBytes c - of_nat (length (received c))) = unat (requiredBytes c) - length (received c)"
    "length (received c) < 2 ^ 32"
proof -
  have "unat (requiredBytes c) < 2 ^ LENGTH(32)" by (rule unsigned_less)
  then show less: "length (received c) < 2 ^ 32" using assms by (simp add: gfx_inv_def)
  then have "unat (of_nat (length (received c)) :: u32) = length (received c)"
    by (simp add: unat_of_nat take_bit_nat_eq_self)
  then show "unat (requiredBytes c - of_nat (length (received c))) = unat (requiredBytes c) - length (received c)"
    using assms by (subst unat_diff_le) (simp_all add: gfx_inv_def word_le_nat_alt)
qed

lemma gfx_step_inv:
  assumes "gfx_step W E c = Inr (True, c', evs)" "length (received c) < 2 ^ 32"
  shows "gfx_inv c'"
proof -
  have "unat (of_nat (length (received c)) :: u32) = length (received c)"
    using assms(2) by (simp add: unat_of_nat take_bit_nat_eq_self)
  then show ?thesis
    using gfx_step_True [OF assms(1)] by (auto simp: gfx_inv_def word_less_nat_alt)
qed

text \<open>The loop, with the bytes counted as natural numbers.\<close>

lemma receive_step:
  assumes "gfx_inv c" "length (received c) + length data \<ge> unat (requiredBytes c)"
    "n = unat (requiredBytes c) - length (received c)"
  shows "rdpgfx_server_ogon_receive_callback W E c data =
    (if \<not> stream_grow E n then Inr (False, c, [])
     else res_bind (gfx_step W E (c\<lparr>received := received c @ take n data\<rparr>)) (\<lambda>(ok, c, evs).
            if \<not> ok then gfx_fail (c, evs)
            else res_bind (rdpgfx_server_ogon_receive_callback W E c (drop n data))
                   (\<lambda>(ok, c, evs'). Inr (ok, c, evs @ evs'))))"
  using assms(2,3) gfx_consume [OF assms(1)]
  by (subst rdpgfx_server_ogon_receive_callback.simps)
     (auto simp: Let_def split: sum.split)

lemma receive_rest:
  assumes "length (received c) + length data < unat (requiredBytes c)"
  shows "rdpgfx_server_ogon_receive_callback W E c data =
    (if data \<noteq> [] \<and> \<not> stream_grow E (length data) then gfx_fail (c, [])
     else Inr (True, c\<lparr>received := received c @ data\<rparr>, []))"
  using assms by (subst rdpgfx_server_ogon_receive_callback.simps) (simp add: Let_def)

lemma gfx_fail_simps [simp]: "gfx_fail r \<noteq> Inl e" "gfx_fail r \<noteq> Inr (True, c, evs)"
  by (cases r, simp add: gfx_fail_def split: prod.split)+

lemma gfx_step_taken:
  assumes "gfx_inv c" "length (received c) + length data \<ge> unat (requiredBytes c)"
    "n = unat (requiredBytes c) - length (received c)"
  shows "length (received (c\<lparr>received := received c @ take n data\<rparr>)) = unat (requiredBytes c)"
    "unat (requiredBytes c) < 2 ^ 32" "8 \<le> unat (requiredBytes c)" "0 < n" "n \<le> length data"
proof -
  have "unat (requiredBytes c) < 2 ^ LENGTH(32)" by (rule unsigned_less)
  then show "unat (requiredBytes c) < 2 ^ 32" by simp
qed (use assms in \<open>auto simp: gfx_inv_def word_le_nat_alt\<close>)

lemma receive_safe:
  assumes "gfx_inv c"
  shows "in_bounds (rdpgfx_server_ogon_receive_callback W E c data) \<and>
    (\<forall>c' evs. rdpgfx_server_ogon_receive_callback W E c data = Inr (True, c', evs) \<longrightarrow> gfx_inv c')"
  using assms
proof (induction "length data" arbitrary: c data rule: less_induct)
  case less
  show ?case
  proof (cases "length (received c) + length data \<ge> unat (requiredBytes c)")
    case True
    define n where "n = unat (requiredBytes c) - length (received c)"
    let ?c = "c\<lparr>received := received c @ take n data\<rparr>"
    note t = gfx_step_taken [OF less.prems True n_def]
    have b: "in_bounds (gfx_step W E ?c)" using t(1,2,3) by (intro gfx_step_in_bounds) simp_all
    note eq = receive_step [OF less.prems True n_def, of W E]
    show ?thesis
    proof (cases "stream_grow E n \<and> (\<exists>c' evs. gfx_step W E ?c = Inr (True, c', evs))")
      case True
      then obtain c' evs where step: "stream_grow E n" "gfx_step W E ?c = Inr (True, c', evs)" by auto
      have "gfx_inv c'" using gfx_step_inv [OF step(2)] t(1,2) by simp
      then have "in_bounds (rdpgfx_server_ogon_receive_callback W E c' (drop n data)) \<and>
        (\<forall>c'' evs. rdpgfx_server_ogon_receive_callback W E c' (drop n data) = Inr (True, c'', evs)
           \<longrightarrow> gfx_inv c'')"
        using t(4,5) by (intro less.hyps) simp_all
      then show ?thesis
        unfolding eq using step
        by (cases "rdpgfx_server_ogon_receive_callback W E c' (drop n data)") (auto simp: in_bounds_def)
    next
      case False
      then show ?thesis
        unfolding eq using b by (cases "gfx_step W E ?c") (auto simp: in_bounds_def split: prod.splits)
    qed
  next
    case False
    then show ?thesis
      using less.prems by (subst (1 2) receive_rest) (auto simp: gfx_inv_def in_bounds_def)
  qed
qed

section \<open>Reassembly\<close>

lemma gfx_then_simps [simp]:
  "gfx_then (Inl e) f = Inl e"
  "gfx_then (Inr (False, c, evs)) f = Inr (False, c, evs)"
  "gfx_then (Inr (True, c, [])) f = f c"
  by (cases "f c"; auto simp: gfx_then_def split: prod.splits)+

lemma gfx_then_prefix:
  "gfx_then (res_bind r (\<lambda>(ok, c, evs'). Inr (ok, c, evs @ evs'))) f =
   res_bind (gfx_then r f) (\<lambda>(ok, c, evs'). Inr (ok, c, evs @ evs'))"
proof (cases r)
  case (Inr x)
  obtain ok c evs' where "x = (ok, c, evs')" by (rule prod_cases3)
  then show ?thesis
    using Inr by (cases ok; cases "f c") (auto simp: gfx_then_def split: prod.splits)
qed simp

lemma gfx_then_fail [simp]: "gfx_then (gfx_fail r) f = gfx_fail r"
  by (cases r) (simp add: gfx_fail_def gfx_then_def split: prod.split)

lemma receive_append:
  assumes "gfx_inv c" and grow: "\<And>n. stream_grow E n"
  shows "rdpgfx_server_ogon_receive_callback W E c (xs @ ys) =
    gfx_then (rdpgfx_server_ogon_receive_callback W E c xs)
      (\<lambda>c. rdpgfx_server_ogon_receive_callback W E c ys)"
  using assms(1)
proof (induction "length xs" arbitrary: c xs rule: less_induct)
  case less
  show ?case
  proof (cases "length (received c) + length xs \<ge> unat (requiredBytes c)")
    case True
    define n where "n = unat (requiredBytes c) - length (received c)"
    let ?c = "c\<lparr>received := received c @ take n xs\<rparr>"
    note t = gfx_step_taken [OF less.prems True n_def]
    have long: "length (received c) + length (xs @ ys) \<ge> unat (requiredBytes c)" using True by simp
    have split: "take n (xs @ ys) = take n xs" "drop n (xs @ ys) = drop n xs @ ys" using t(5) by simp_all
    note eq = receive_step [OF less.prems True n_def, of W E] receive_step [OF less.prems long n_def, of W E]
    show ?thesis
    proof (cases "gfx_step W E ?c")
      case (Inr r)
      obtain ok c' evs where r: "r = (ok, c', evs)" by (rule prod_cases3)
      show ?thesis
      proof (cases ok)
        case True
        have "gfx_inv c'" using gfx_step_inv [of W E ?c c' evs] Inr r True t(1,2) by simp
        then have "rdpgfx_server_ogon_receive_callback W E c' (drop n xs @ ys) =
          gfx_then (rdpgfx_server_ogon_receive_callback W E c' (drop n xs))
            (\<lambda>c. rdpgfx_server_ogon_receive_callback W E c ys)"
          using t(4,5) by (intro less.hyps) simp_all
        then show ?thesis
          unfolding eq split using grow Inr r True by (simp add: gfx_then_prefix)
      next
        case False
        then show ?thesis unfolding eq split using grow Inr r by simp
      qed
    next
      case (Inl e)
      then show ?thesis unfolding eq split using grow by simp
    qed
  next
    case False
    let ?c = "c\<lparr>received := received c @ xs\<rparr>"
    have inv: "gfx_inv ?c" using less.prems False by (simp add: gfx_inv_def)
    have "rdpgfx_server_ogon_receive_callback W E c xs = Inr (True, ?c, [])"
      using False grow by (simp add: receive_rest)
    moreover have "rdpgfx_server_ogon_receive_callback W E c (xs @ ys) =
        rdpgfx_server_ogon_receive_callback W E ?c ys"
    proof (cases "length (received c) + length (xs @ ys) \<ge> unat (requiredBytes c)")
      case True
      define n where "n = unat (requiredBytes c) - length (received c)"
      have True': "length (received ?c) + length ys \<ge> unat (requiredBytes ?c)" using True by simp
      have n': "n - length xs = unat (requiredBytes ?c) - length (received ?c)" by (simp add: n_def)
      have "length xs \<le> n" using False by (simp add: n_def)
      then have split: "take n (xs @ ys) = xs @ take (n - length xs) ys"
        "drop n (xs @ ys) = drop (n - length xs) ys" by simp_all
      show ?thesis
        unfolding receive_step [OF less.prems True n_def] receive_step [OF inv True' n'] split
        by (simp add: grow)
    next
      case False
      then show ?thesis using grow by (simp add: receive_rest)
    qed
    ultimately show ?thesis by simp
  qed
qed

lemma receive_nil: "gfx_inv c \<Longrightarrow> rdpgfx_server_ogon_receive_callback W E c [] = Inr (True, c, [])"
  by (simp add: gfx_inv_def receive_rest)

lemma feed_concat:
  assumes "gfx_inv c" "\<And>n. stream_grow E n"
  shows "gfx_feed W E c chunks = rdpgfx_server_ogon_receive_callback W E c (concat chunks)"
  using assms(1)
proof (induction chunks arbitrary: c)
  case Nil
  then show ?case by (simp add: receive_nil)
next
  case (Cons x xs)
  have "gfx_then (rdpgfx_server_ogon_receive_callback W E c x) (\<lambda>c. gfx_feed W E c xs) =
    gfx_then (rdpgfx_server_ogon_receive_callback W E c x)
      (\<lambda>c. rdpgfx_server_ogon_receive_callback W E c (concat xs))"
  proof (cases "rdpgfx_server_ogon_receive_callback W E c x")
    case (Inr r)
    obtain ok c' evs where r: "r = (ok, c', evs)" by (rule prod_cases3)
    then have "ok \<Longrightarrow> gfx_inv c'" using receive_safe [OF Cons.prems, of W E x] Inr by auto
    then show ?thesis using Inr r Cons.IH by (cases ok) (simp_all add: gfx_then_def)
  qed simp
  then show ?case using receive_append [OF Cons.prems assms(2)] by simp
qed

section \<open>Client PDUs\<close>

lemma gfx_idle_inv: "gfx_idle c \<Longrightarrow> gfx_inv c"
  by (simp add: gfx_idle_def gfx_inv_def)

context wire_format
begin

lemma encode_pdu_read:
  assumes "bs = encode_pdu W cmdId body @ rest"
  shows "rd_u16 W bs 0 = Inr (cmdId, 2)" "rd_u32 W bs 4 = Inr (of_nat (8 + wire_size body), 8)"
    "drop 8 bs = wire_bytes W body @ rest"
proof -
  let ?n = "of_nat (8 + wire_size body) :: u32"
  have "drop 0 bs = wr16 W cmdId @ wr16 W 0 @ wr32 W ?n @ wire_bytes W body @ rest"
    using assms by (simp add: encode_pdu_def gfx_header_def)
  from rd_u16_at [OF this] have a: "rd_u16 W bs 0 = Inr (cmdId, 2)"
    "drop 2 bs = wr16 W 0 @ wr32 W ?n @ wire_bytes W body @ rest" by (simp_all add: numeral_2_eq_2)
  from rd_u16_at [OF a(2)] have "drop 4 bs = wr32 W ?n @ wire_bytes W body @ rest" by simp
  from rd_u32_at [OF this] a(1) show "rd_u16 W bs 0 = Inr (cmdId, 2)"
    "rd_u32 W bs 4 = Inr (of_nat (8 + wire_size body), 8)" "drop 8 bs = wire_bytes W body @ rest"
    by simp_all
qed

lemma length_encode_pdu [simp]: "length (encode_pdu W cmdId body) = 8 + wire_size body"
  unfolding encode_pdu_def length_wire_bytes by (simp add: gfx_header_def)

text \<open>A whole PDU received by an idle channel is dispatched, whatever follows it.\<close>

lemma receive_pdu:
  assumes idle: "gfx_idle c" and grow: "\<And>n. stream_grow E n" and size: "8 + wire_size body < 2 ^ 32"
  shows "rdpgfx_server_ogon_receive_callback W E c (encode_pdu W cmdId body @ rest) =
    res_bind (gfx_dispatch W E cmdId (of_nat (wire_size body))
        (c\<lparr>received := encode_pdu W cmdId body, requiredBytes := of_nat (8 + wire_size body)\<rparr>))
      (\<lambda>(ok, c, evs). if \<not> ok then gfx_fail (c, evs)
        else res_bind (rdpgfx_server_ogon_receive_callback W E (c\<lparr>requiredBytes := 8, received := []\<rparr>) rest)
               (\<lambda>(ok, c, evs'). Inr (ok, c, evs @ evs')))"
proof -
  let ?bs = "encode_pdu W cmdId body" and ?n = "of_nat (8 + wire_size body) :: u32"
  let ?done = "\<lambda>(ok, c, evs). if \<not> ok then gfx_fail (c, evs)
        else res_bind (rdpgfx_server_ogon_receive_callback W E (c\<lparr>requiredBytes := 8, received := []\<rparr>) rest)
               (\<lambda>(ok, c, evs'). Inr (ok, c, evs @ evs'))"
  have n: "unat ?n = 8 + wire_size body" using size by (simp add: unat_of_nat take_bit_nat_eq_self del: of_nat_add)
  have n8: "?n - 8 = of_nat (wire_size body)" "\<not> ?n < 8"
    using n by (simp_all add: word_less_nat_alt)
  have full: "gfx_step W E (c\<lparr>received := ?bs, requiredBytes := r\<rparr>) =
      res_bind (gfx_dispatch W E cmdId (of_nat (wire_size body)) (c\<lparr>received := ?bs, requiredBytes := r\<rparr>))
        (\<lambda>(ok, c, evs). Inr (if ok then (True, c\<lparr>requiredBytes := 8, received := []\<rparr>, evs)
           else (False, c, evs)))" for r
    using encode_pdu_read [of ?bs cmdId body "[]"] n8 by (simp add: gfx_step_def Let_def)
  have fin: "res_bind (res_bind X (\<lambda>(ok, c, evs). Inr (if ok then (True, c\<lparr>requiredBytes := 8, received := []\<rparr>, evs)
           else (False, c, evs)))) (\<lambda>(ok, c, evs). if \<not> ok then gfx_fail (c, evs)
        else res_bind (rdpgfx_server_ogon_receive_callback W E c rest) (\<lambda>(ok, c, evs'). Inr (ok, c, evs @ evs')))
     = res_bind X ?done" for X :: gfx_result
    by (cases X) (auto split: prod.splits)
  have c0: "c\<lparr>received := received c @ xs\<rparr> = c\<lparr>received := xs, requiredBytes := 8\<rparr>" for xs
    using idle by (simp add: gfx_idle_def)
  note inv = gfx_idle_inv [OF idle]
  have ge: "length (received c) + length (?bs @ rest) \<ge> unat (requiredBytes c)"
    and eight: "8 = unat (requiredBytes c) - length (received c)"
    using idle by (simp_all add: gfx_idle_def)
  note step1 = receive_step [OF inv ge eight, of W E]
  show ?thesis
  proof (cases "wire_size body = 0")
    case True
    then have td: "take 8 (?bs @ rest) = ?bs" "drop 8 (?bs @ rest) = rest" by simp_all
    show ?thesis unfolding step1 c0 td using grow full [of 8] fin True by simp
  next
    case False
    let ?h = "take 8 ?bs"
    let ?c = "c\<lparr>received := ?h, requiredBytes := ?n\<rparr>"
    have h: "take 8 (?bs @ rest) = ?h" "drop 8 (?bs @ rest) = drop 8 ?bs @ rest" by simp_all
    have hl: "length ?h = 8" by simp
    have rd: "rd_u16 W ?h 0 = Inr (cmdId, 2)" "rd_u32 W ?h 4 = Inr (?n, 8)"
    proof -
      have "encode_pdu W cmdId body = ?h @ wire_bytes W body"
        using encode_pdu_read(3) [of ?bs cmdId body "[]"] by (metis append_take_drop_id append_Nil2)
      moreover have "?h = wr16 W cmdId @ wr16 W 0 @ wr32 W ?n"
        by (simp add: encode_pdu_def gfx_header_def len16 len32)
      ultimately show "rd_u16 W ?h 0 = Inr (cmdId, 2)" "rd_u32 W ?h 4 = Inr (?n, 8)"
        using rd_u16_written [of "[]" 0 cmdId] rd_u32_written [of "wr16 W cmdId @ wr16 W 0" 4 ?n "[]"]
        by (simp_all add: len16)
    qed
    have "(8 :: u32) < ?n" using n False by (simp add: word_less_nat_alt)
    then have s1: "gfx_step W E (c\<lparr>received := ?h, requiredBytes := 8\<rparr>) = Inr (True, ?c, [])"
      using rd n8(2) hl by (simp add: gfx_step_def Let_def)
    have inv2: "gfx_inv ?c" using n False hl by (simp add: gfx_inv_def word_le_nat_alt)
    have ge2: "length (received ?c) + length (drop 8 ?bs @ rest) \<ge> unat (requiredBytes ?c)"
      and m: "wire_size body = unat (requiredBytes ?c) - length (received ?c)"
      using n hl by simp_all
    have t2: "?c\<lparr>received := received ?c @ take (wire_size body) (drop 8 ?bs @ rest)\<rparr> =
        c\<lparr>received := ?bs, requiredBytes := ?n\<rparr>" "drop (wire_size body) (drop 8 ?bs @ rest) = rest"
      by simp_all
    have "rdpgfx_server_ogon_receive_callback W E c (?bs @ rest) =
        rdpgfx_server_ogon_receive_callback W E ?c (drop 8 ?bs @ rest)"
      unfolding step1 c0 h using grow s1
      by (cases "rdpgfx_server_ogon_receive_callback W E ?c (drop 8 ?bs @ rest)")
         (auto split: prod.splits)
    also have "\<dots> = res_bind (gfx_dispatch W E cmdId (of_nat (wire_size body))
        (c\<lparr>received := ?bs, requiredBytes := ?n\<rparr>)) ?done"
      unfolding receive_step [OF inv2 ge2 m, of W E] t2 using grow full [of ?n] fin by simp
    finally show ?thesis .
  qed
qed
end

context wire_format
begin

lemma frameack_read:
  assumes "drop pos bs = wire_bytes W [W32 q, W32 f, W32 t] @ rest"
  shows "rdpgfx_server_recv_frameack W bs pos 12 c = Inr (True, pos + 12, c, [FrameAcknowledge q f t])"
proof -
  have "drop pos bs = wr32 W q @ wr32 W f @ wr32 W t @ rest" using assms by simp
  note 1 = rd_u32_at [OF this]
  note 2 = rd_u32_at [OF conjunct2 [OF 1]]
  note 3 = rd_u32_at [OF conjunct2 [OF 2]]
  show ?thesis using 1 2 3 by (simp add: rdpgfx_server_recv_frameack_def)
qed

lemma qoe_read:
  assumes "drop pos bs = wire_bytes W [W32 f, W32 t, W16 s, W16 e] @ rest"
  shows "rdpgfx_server_recv_qoe_frameack W bs pos 12 c =
    Inr (True, pos + 12, c, [QoeFrameAcknowledge f t s e])"
proof -
  have "drop pos bs = wr32 W f @ wr32 W t @ wr16 W s @ wr16 W e @ rest" using assms by simp
  note 1 = rd_u32_at [OF this]
  note 2 = rd_u32_at [OF conjunct2 [OF 1]]
  note 3 = rd_u16_at [OF conjunct2 [OF 2]]
  note 4 = rd_u16_at [OF conjunct2 [OF 3]]
  show ?thesis using 1 2 3 4 by (simp add: rdpgfx_server_recv_qoe_frameack_def)
qed

lemma cache_entries_read:
  assumes "drop pos bs = wire_bytes W (concat (map (\<lambda>(k, n). [W64 k, W32 n]) es)) @ rest"
  shows "read_cache_entries W bs (length es) pos = Inr (es, pos + 12 * length es)"
  using assms
proof (induction es arbitrary: pos)
  case (Cons e es)
  obtain k n where e: "e = (k, n)" by (rule prod.exhaust)
  have "drop pos bs = wr64 W k @ wr32 W n @
      wire_bytes W (concat (map (\<lambda>(k, n). [W64 k, W32 n]) es)) @ rest"
    using Cons.prems e by simp
  note 1 = rd_u64_at [OF this]
  note 2 = rd_u32_at [OF conjunct2 [OF 1]]
  note 3 = Cons.IH [OF conjunct2 [OF 2]]
  show ?case using 1 2 3 e by simp
qed simp

lemma wire_size_entries: "wire_size (concat (map (\<lambda>(k, n). [W64 k, W32 n]) es)) = 12 * length es"
  by (induction es) auto

lemma cache_import_read:
  assumes "drop pos bs = wire_bytes W (client_body (ClientCacheImportOffer es)) @ rest"
    "length es < 5462" "calloc_entries E (length es)"
  shows "rdpgfx_server_recv_cache_import_offer W E bs pos (of_nat (2 + 12 * length es)) c =
    Inr (True, pos + 2 + 12 * length es, c, [CacheImportOffer es])"
proof -
  let ?n = "of_nat (length es) :: u16"
  have n: "unat ?n = length es" using assms(2) by (simp add: unat_of_nat take_bit_nat_eq_self)
  have "drop pos bs = wr16 W ?n @ wire_bytes W (concat (map (\<lambda>(k, n). [W64 k, W32 n]) es)) @ rest"
    using assms(1) by simp
  note 1 = rd_u16_at [OF this]
  note 2 = cache_entries_read [OF conjunct2 [OF 1]]
  define k where "k = 2 + 12 * length es"
  have len: "unat (of_nat k :: u32) = k" using assms(2) by (intro unat_of_nat_u32) (simp add: k_def)
  have l: "\<not> (of_nat k :: u32) < 2" using len by (simp add: word_less_nat_alt k_def)
  have "unat (ucast ?n * 12 :: u32) = 12 * length es"
    using assms(2) n by (subst unat_mult_lem [THEN iffD1]) simp_all
  moreover have "unat (of_nat k - 2 :: u32) = 12 * length es"
    using len l by (subst unat_diff_le) (simp_all add: not_less k_def)
  ultimately have ge: "\<not> (of_nat k - 2 :: u32) < ucast ?n * 12" by (simp add: word_less_nat_alt)
  have lim: "\<not> ?n \<ge> 5462" using n assms(2) by (simp add: word_le_nat_alt)
  show ?thesis
    unfolding k_def [symmetric]
    using 1 2 l ge lim n assms(3) by (simp add: rdpgfx_server_recv_cache_import_offer_def)
qed

lemma client_pdu_dispatch:
  assumes "client_pdu_ok p" "env_ok E" "received c = encode_client_pdu W p"
  shows "\<exists>pos. gfx_dispatch W E (client_cmdId p) (of_nat (wire_size (client_body p))) c =
    Inr (True, c\<lparr>received := take pos (received c)\<rparr>, [client_event p])"
proof -
  let ?bs = "received c"
  have d: "drop 8 ?bs = wire_bytes W (client_body p) @ []"
    using encode_pdu_read(3) [of ?bs "client_cmdId p" "client_body p" "[]"] assms(3)
    by (simp add: encode_client_pdu_def)
  show ?thesis
  proof (cases p)
    case (ClientFrameAck q f t)
    then show ?thesis
      using frameack_read [of 8 ?bs q f t "[]" c] d
      by (auto simp: gfx_dispatch_def Let_def RDPGFX_CMDID_FRAMEACKNOWLEDGE_def
          RDPGFX_CMDID_CAPSADVERTISE_def)
  next
    case (ClientQoeFrameAck f t s e)
    then show ?thesis
      using qoe_read [of 8 ?bs f t s e "[]" c] d
      by (auto simp: gfx_dispatch_def Let_def RDPGFX_CMDID_FRAMEACKNOWLEDGE_def
          RDPGFX_CMDID_QOEFRAMEACKNOWLEDGE_def RDPGFX_CMDID_CAPSADVERTISE_def)
  next
    case (ClientCacheImportOffer es)
    have sz: "wire_size (client_body p) = 2 + 12 * length es"
      using ClientCacheImportOffer by (simp add: wire_size_entries)
    show ?thesis
      unfolding sz
      using cache_import_read [of 8 ?bs es "[]" E c] d assms(1,2) ClientCacheImportOffer
      by (auto simp: gfx_dispatch_def Let_def RDPGFX_CMDID_FRAMEACKNOWLEDGE_def env_ok_def
          RDPGFX_CMDID_QOEFRAMEACKNOWLEDGE_def RDPGFX_CMDID_CAPSADVERTISE_def
          RDPGFX_CMDID_CACHEIMPORTOFFER_def simp del: of_nat_add of_nat_mult)
  qed
qed

lemma client_body_size: "client_pdu_ok p \<Longrightarrow> 8 + wire_size (client_body p) < 2 ^ 32"
  by (cases p) (simp_all add: wire_size_entries)

lemma receive_client_pdus:
  assumes "gfx_idle c" "env_ok E" "\<And>p. p \<in> set ps \<Longrightarrow> client_pdu_ok p"
  shows "rdpgfx_server_ogon_receive_callback W E c (concat (map (encode_client_pdu W) ps)) =
    Inr (True, c, map client_event ps)"
  using assms(3)
proof (induction ps)
  case Nil
  then show ?case using receive_nil [OF gfx_idle_inv [OF assms(1)]] by simp
next
  case (Cons p ps)
  let ?c = "c\<lparr>received := encode_pdu W (client_cmdId p) (client_body p),
     requiredBytes := of_nat (8 + wire_size (client_body p))\<rparr>"
  have ok: "client_pdu_ok p" using Cons.prems by simp
  obtain pos where d: "gfx_dispatch W E (client_cmdId p) (of_nat (wire_size (client_body p))) ?c =
      Inr (True, ?c\<lparr>received := take pos (received ?c)\<rparr>, [client_event p])"
    using client_pdu_dispatch [OF ok assms(2), of ?c] by (auto simp: encode_client_pdu_def)
  have reset: "?c\<lparr>received := take pos (received ?c)\<rparr>\<lparr>requiredBytes := 8, received := []\<rparr> = c"
    using assms(1) by (simp add: gfx_idle_def)
  have grow: "\<And>n. stream_grow E n" using assms(2) by (simp add: env_ok_def)
  show ?case
    using receive_pdu [OF assms(1) grow client_body_size [OF ok], of "client_cmdId p"
        "concat (map (encode_client_pdu W) ps)"] d reset Cons.IH Cons.prems
    by (simp add: encode_client_pdu_def [of W p])
qed
end

section \<open>Properties\<close>

lemma demo_gfx_eq: "demo_gfx = \<lparr>rdpgfx_channel = True, received = [], requiredBytes = 8,
    capsReceived = False, gfx_version = 0, gfx_flags = 0, h264Supported = False,
    avc444Supported = False, avc444v2Supported = False, avc444Restricted = False\<rparr>"
  by (simp add: demo_gfx_def rdpgfx_server_context_new_def rdpgfx_server_open_def)

lemma demo_idle: "gfx_idle demo_gfx" "env_ok demo_env" "gfx_inv demo_gfx"
  using gfx_idle_inv [of demo_gfx] by (simp_all add: demo_gfx_eq gfx_idle_def env_ok_def demo_env_def)

lemma feed_safe:
  "gfx_inv c \<Longrightarrow> in_bounds (gfx_feed W E c chunks) \<and>
    (\<forall>c' evs. gfx_feed W E c chunks = Inr (True, c', evs) \<longrightarrow> gfx_inv c')"
proof (induction chunks arbitrary: c)
  case (Cons x xs)
  note safe = receive_safe [OF Cons.prems, of W E x]
  show ?case
  proof (cases "rdpgfx_server_ogon_receive_callback W E c x")
    case (Inl e)
    then show ?thesis using safe by (cases e) (simp add: in_bounds_def)
  next
    case (Inr r)
    obtain ok c1 evs where r: "r = (ok, c1, evs)" by (rule prod_cases3)
    show ?thesis
    proof (cases ok)
      case True
      then have "gfx_inv c1" using safe Inr r by simp
      note IH = Cons.IH [OF this]
      show ?thesis
      proof (cases "gfx_feed W E c1 xs")
        case (Inl e)
        then show ?thesis using IH by (cases e) (simp add: in_bounds_def)
      qed (use IH Inr r True in \<open>auto simp: gfx_then_def\<close>)
    qed (use Inr r in simp)
  qed
qed simp

text \<open>
  C22: how the transport cuts the client's data into pieces does not matter: receiving the
  pieces one after the other gives the context, the calls and the result of receiving their
  concatenation at once, whether the data is well formed or not, as long as the receive stream
  can grow.
\<close>

theorem gfx_chunking_irrelevant:
  assumes "gfx_inv c" "\<And>n. stream_grow E n"
  shows "gfx_feed W E c chunks = rdpgfx_server_ogon_receive_callback W E c (concat chunks)"
  using assms by (rule feed_concat)

theorem gfx_chunking_irrelevant_witness:
  "gfx_feed le_wire demo_env demo_gfx [[0x0D, 0, 0], [], [0, 20]] =
    rdpgfx_server_ogon_receive_callback le_wire demo_env demo_gfx [0x0D, 0, 0, 0, 20]"
  using gfx_chunking_irrelevant [OF demo_idle(3), of demo_env le_wire "[[0x0D, 0, 0], [], [0, 20]]"]
  by (simp add: demo_env_def)

text \<open>
  C23: well-formed PDUs of the client, cut into pieces in any way, cause exactly the calls they
  describe, in order, and leave the channel idle and open. The laws of the wire format and that
  memory is available are hypotheses.
\<close>

theorem gfx_client_pdus_delivered:
  assumes "wire_format W" "gfx_idle c" "env_ok E" "\<And>p. p \<in> set ps \<Longrightarrow> client_pdu_ok p"
    "concat chunks = concat (map (encode_client_pdu W) ps)"
  shows "gfx_feed W E c chunks = Inr (True, c, map client_event ps)"
  using feed_concat [OF gfx_idle_inv [OF assms(2)], of E W chunks] assms(3,5)
    wire_format.receive_client_pdus [OF assms(1-4)] by (simp add: env_ok_def)

theorem gfx_client_pdus_delivered_witness:
  "gfx_feed le_wire demo_env demo_gfx
     [[0x0D, 0, 0, 0, 20, 0, 0], [0, 1, 0, 0, 0, 2, 0, 0, 0, 3, 0, 0], [0, 0x10, 0, 0, 0, 22, 0, 0, 0],
      [1, 0, 7, 0, 0, 0, 0, 0, 0, 0, 9, 0, 0, 0]] =
   Inr (True, demo_gfx, [FrameAcknowledge 1 2 3, CacheImportOffer [(7, 9)]])"
  by (subst gfx_client_pdus_delivered [OF le.wire_format_axioms demo_idle(1,2),
        of "[ClientFrameAck 1 2 3, ClientCacheImportOffer [(7, 9)]]"])
     (auto, code_simp)

text \<open>
  C24: on a channel opened once, no data a client can send, in any pieces, makes the receiver
  read outside the bytes received, whatever the stream functions and the channel return; while
  the channel is not failed the stream holds less than the bytes required.
\<close>

theorem gfx_receive_in_bounds:
  assumes "rdpgfx_server_context_new True True = Some c0" "rdpgfx_server_open True c0 = (c, evs)"
  shows "gfx_feed W E c chunks \<noteq> Inl OutOfBounds \<and>
    (\<forall>c' evs'. gfx_feed W E c chunks = Inr (True, c', evs') \<longrightarrow>
       8 \<le> requiredBytes c' \<and> length (received c') < unat (requiredBytes c'))"
proof -
  have "gfx_inv c" using assms
    by (auto simp: rdpgfx_server_context_new_def rdpgfx_server_open_def gfx_inv_def)
  then show ?thesis using feed_safe [of c W E chunks] by (auto simp: in_bounds_def gfx_inv_def)
qed

theorem gfx_receive_in_bounds_witness:
  "gfx_feed le_wire demo_env demo_gfx [[0x12, 0, 0, 0, 255, 255, 255, 255], [9, 9]] \<noteq> Inl OutOfBounds"
  using gfx_receive_in_bounds [of "the (rdpgfx_server_context_new True True)" demo_gfx "[ChannelOpen]"
      le_wire demo_env "[[0x12, 0, 0, 0, 255, 255, 255, 255], [9, 9]]"]
  by (simp add: demo_gfx_eq rdpgfx_server_context_new_def rdpgfx_server_open_def)

text \<open>
  C28: opening again a context whose receive stream still holds more than the 8 bytes of a
  header (the channel was closed inside a PDU) makes the next receive call read behind the data
  it is given, about 4 GB if the stream can be grown that far: \<open>rdpgfx_server_open\<close> resets the
  number of required bytes but not the stream.
\<close>

theorem reopen_reads_out_of_bounds:
  assumes "\<not> rdpgfx_channel c" "8 < length (received c)" "length (received c) < 2 ^ 32"
    "length (received c) + length data < 2 ^ 32 + 8"
  shows "rdpgfx_server_ogon_receive_callback W E (fst (rdpgfx_server_open True c)) data =
    (if stream_grow E (2 ^ 32 + 8 - length (received c)) then Inl OutOfBounds
     else Inr (False, fst (rdpgfx_server_open True c), []))"
proof -
  let ?n = "length (received c)" and ?o = "fst (rdpgfx_server_open True c)"
  have o: "received ?o = received c" "requiredBytes ?o = 8"
    using assms(1) by (simp_all add: rdpgfx_server_open_def)
  have n: "unat (of_nat ?n :: u32) = ?n" using assms(3) by (rule unat_of_nat_u32)
  then have "\<not> (of_nat ?n :: u32) \<le> 8" using assms(2) by (simp add: word_le_nat_alt)
  then have "unat (8 - of_nat ?n :: u32) = 2 ^ 32 + 8 - ?n"
    using n assms(2,3) by (simp add: unat_sub_if_size word_size)
  moreover have "length data < 2 ^ 32 + 8 - ?n" "8 \<le> ?n + length data" using assms(2,4) by simp_all
  ultimately show ?thesis
    using o by (subst rdpgfx_server_ogon_receive_callback.simps) (simp add: Let_def)
qed

theorem reopen_reads_out_of_bounds_witness:
  "\<exists>c. gfx_feed le_wire demo_env demo_gfx [[0x0D, 0, 0, 0, 20, 0, 0, 0], [1]] = Inr (True, c, []) \<and>
     rdpgfx_server_ogon_receive_callback le_wire demo_env
       (fst (rdpgfx_server_open True (fst (rdpgfx_server_close c)))) [0] = Inl OutOfBounds"
proof -
  let ?c = "demo_gfx\<lparr>received := [0x0D, 0, 0, 0, 20, 0, 0, 0], requiredBytes := 20\<rparr>"
  let ?d = "?c\<lparr>received := received ?c @ [1]\<rparr>"
  have rd: "rd_u16 le_wire [0x0D, 0, 0, 0, 20, 0, 0, 0] 0 = Inr (0x0D, 2)"
    "rd_u32 le_wire [0x0D, 0, 0, 0, 20, 0, 0, 0] 4 = Inr (20, 8)"
    by code_simp+
  have "gfx_step le_wire demo_env (demo_gfx\<lparr>received := [0x0D, 0, 0, 0, 20, 0, 0, 0]\<rparr>) = Inr (True, ?c, [])"
    using rd by (simp add: gfx_step_def Let_def)
  then have "rdpgfx_server_ogon_receive_callback le_wire demo_env demo_gfx [0x0D, 0, 0, 0, 20, 0, 0, 0] =
      res_bind (rdpgfx_server_ogon_receive_callback le_wire demo_env ?c []) (\<lambda>(ok, c, evs). Inr (ok, c, evs))"
    by (subst receive_step [OF demo_idle(3) _ refl]) (simp_all add: demo_env_def demo_gfx_eq)
  also have "\<dots> = Inr (True, ?c, [])" by (subst receive_nil) (simp_all add: gfx_inv_def)
  finally have "gfx_feed le_wire demo_env demo_gfx [[0x0D, 0, 0, 0, 20, 0, 0, 0], [1]] = Inr (True, ?d, [])"
    using receive_rest [of ?c "[1]" le_wire demo_env] by (simp add: demo_env_def)
  moreover have "rdpgfx_server_ogon_receive_callback le_wire demo_env
       (fst (rdpgfx_server_open True (fst (rdpgfx_server_close ?d)))) [0] = Inl OutOfBounds"
    by (subst reopen_reads_out_of_bounds) (simp_all add: rdpgfx_server_close_def demo_gfx_eq demo_env_def)
  ultimately show ?thesis by blast
qed

end
