(* ===== verification/Rdpgfx_Caps.thy ===== *)
theory Rdpgfx_Caps
  imports Rdpgfx_Receive
begin

text \<open>
  Capability negotiation on the graphics channel: the loop over the advertised sets, the choice
  of the version and the codecs, and the confirmation.
\<close>

type_synonym capset = "u32 \<times> u32 \<times> u8 list"

definition capset_items :: "capset \<Rightarrow> wire_item list" where
  "capset_items s = (case s of (version, flags, extra) \<Rightarrow>
     [W32 version, W32 (of_nat (4 + length extra)), W32 flags, WBytes extra])"

definition caps_body :: "capset list \<Rightarrow> wire_item list" where
  "caps_body sets = W16 (of_nat (length sets)) # concat (map capset_items sets)"

definition caps_fold ::
    "capset list \<Rightarrow> rdpgfx_server_context \<times> bool \<Rightarrow> rdpgfx_server_context \<times> bool" where
  "caps_fold sets ct = fold (\<lambda>(v, f, x). apply_capset (fix_capversion v) f) sets ct"

definition supported_range :: "u32 \<Rightarrow> bool" where
  "supported_range v \<longleftrightarrow> RDPGFX_CAPVERSION_8 \<le> v \<and> v \<le> RDPGFX_CAPVERSION_106"

text \<open>AVC444v2 implies AVC444 implies H.264, and AVC444v2 needs at least version 10.1.\<close>

definition codec_inv :: "rdpgfx_server_context \<Rightarrow> bool" where
  "codec_inv c \<longleftrightarrow> (avc444v2Supported c \<longrightarrow> avc444Supported c \<and> RDPGFX_CAPVERSION_101 \<le> gfx_version c) \<and>
     (avc444Supported c \<longrightarrow> h264Supported c)"

definition demo_caps :: "capset list" where
  "demo_caps = [(RDPGFX_CAPVERSION_8, 0, []), (RDPGFX_CAPVERSION_81, 0x10, []), (0x999, 1, [1, 2])]"

section \<open>Capability negotiation\<close>

lemma capset_items_simp [simp]:
  "capset_items (v, f, x) = [W32 v, W32 (of_nat (4 + length x)), W32 f, WBytes x]"
  by (simp add: capset_items_def)

lemma capset_codecs_frame:
  assumes "capset_codecs v f (c, t) = (c', t')"
  shows "received c' = received c" "requiredBytes c' = requiredBytes c"
    "rdpgfx_channel c' = rdpgfx_channel c" "capsReceived c' = capsReceived c"
    "avc444Restricted c' = avc444Restricted c" "gfx_version c' = gfx_version c"
proof -
  have "c' = fst (capset_codecs v f (c, t))" using assms by simp
  then show "received c' = received c" "requiredBytes c' = requiredBytes c"
    "rdpgfx_channel c' = rdpgfx_channel c" "capsReceived c' = capsReceived c"
    "avc444Restricted c' = avc444Restricted c" "gfx_version c' = gfx_version c"
    by (simp_all add: capset_codecs_def Let_def)
qed

lemma capset_codecs_inv:
  assumes "capset_codecs v f (c, t) = (c', t')" "avc444Supported c \<longrightarrow> h264Supported c"
    "avc444v2Supported c \<longrightarrow> avc444Supported c \<and> RDPGFX_CAPVERSION_101 < v"
  shows "(avc444Supported c' \<longrightarrow> h264Supported c') \<and>
    (avc444v2Supported c' \<longrightarrow> avc444Supported c' \<and> RDPGFX_CAPVERSION_101 \<le> v)"
proof (cases "v \<in> {RDPGFX_CAPVERSION_8, RDPGFX_CAPVERSION_81, RDPGFX_CAPVERSION_10}")
  case True
  then show ?thesis
    using assms by (auto simp: capset_codecs_def Let_def capversion_defs)
next
  case other: False
  show ?thesis
  proof (cases "v = RDPGFX_CAPVERSION_101")
    case True
    then show ?thesis using assms other by (auto simp: capset_codecs_def)
  next
    case False
    show ?thesis
    proof (cases "v \<in> {RDPGFX_CAPVERSION_102, RDPGFX_CAPVERSION_103, RDPGFX_CAPVERSION_104,
        RDPGFX_CAPVERSION_105, RDPGFX_CAPVERSION_106}")
      case True
      then have "RDPGFX_CAPVERSION_101 \<le> v" by (auto simp: capversion_defs)
      then show ?thesis using assms(1) other False True by (auto simp: capset_codecs_def Let_def)
    next
      case none: False
      then have "c' = c" using assms(1) other False by (auto simp: capset_codecs_def Let_def)
      then show ?thesis using assms(2,3) by auto
    qed
  qed
qed

lemma apply_capset_cases:
  assumes "apply_capset v f (c, t) = (c', t')"
  obtains "\<not> (supported_range v \<and> gfx_version c < v)" "c' = c"
  | c1 where "supported_range v" "gfx_version c < v" "capset_codecs v f (c, t) = (c1, t')"
    "c' = c1\<lparr>gfx_version := v, gfx_flags := f\<rparr>"
proof (cases "supported_range v \<and> gfx_version c < v")
  case True
  obtain c1 t1 where c1: "capset_codecs v f (c, t) = (c1, t1)" by (rule prod.exhaust)
  then have "c' = c1\<lparr>gfx_version := v, gfx_flags := f\<rparr>" "t1 = t'"
    using assms True by (simp_all add: apply_capset_def supported_range_def)
  then show thesis using that(2) True c1 by blast
next
  case False
  then have "c' = c" using assms by (simp add: apply_capset_def supported_range_def split: if_splits)
  then show thesis using that(1) False by blast
qed

lemma apply_capset_frame:
  assumes "apply_capset v f (c, t) = (c', t')"
  shows "received c' = received c" "requiredBytes c' = requiredBytes c"
    "rdpgfx_channel c' = rdpgfx_channel c" "capsReceived c' = capsReceived c"
    "avc444Restricted c' = avc444Restricted c"
  using assms by (cases rule: apply_capset_cases; simp add: capset_codecs_frame)+

lemma apply_capset_version:
  assumes "apply_capset v f (c, t) = (c', t')"
  shows "(supported_range v \<and> gfx_version c < v \<and> gfx_version c' = v \<and> gfx_flags c' = f) \<or>
    (\<not> (supported_range v \<and> gfx_version c < v) \<and> c' = c)"
  using assms by (cases rule: apply_capset_cases) auto

lemma apply_capset_codec:
  assumes "apply_capset v f (c, t) = (c', t')" "codec_inv c"
  shows "codec_inv c'"
  using assms(1)
proof (cases rule: apply_capset_cases)
  case (2 c1)
  have "avc444v2Supported c \<longrightarrow> avc444Supported c \<and> RDPGFX_CAPVERSION_101 < v"
    "avc444Supported c \<longrightarrow> h264Supported c"
    using assms(2) 2(2) by (auto simp: codec_inv_def)
  then show ?thesis using capset_codecs_inv [OF 2(3)] 2(4) by (simp add: codec_inv_def)
qed (use assms in simp)

lemma caps_fold_Cons:
  "caps_fold ((v, f, x) # sets) ct = caps_fold sets (apply_capset (fix_capversion v) f ct)"
  by (simp add: caps_fold_def)

lemma caps_fold_result:
  assumes "caps_fold sets (c, t) = (c', t')"
  shows "received c' = received c \<and> requiredBytes c' = requiredBytes c \<and>
     rdpgfx_channel c' = rdpgfx_channel c \<and> capsReceived c' = capsReceived c \<and>
     avc444Restricted c' = avc444Restricted c \<and> (codec_inv c \<longrightarrow> codec_inv c') \<and>
     gfx_version c \<le> gfx_version c' \<and>
     (\<forall>(v, f, x) \<in> set sets. supported_range (fix_capversion v) \<longrightarrow> fix_capversion v \<le> gfx_version c') \<and>
     (gfx_version c' \<noteq> gfx_version c \<longrightarrow> (\<exists>(v, f, x) \<in> set sets.
        gfx_version c' = fix_capversion v \<and> gfx_flags c' = f)) \<and>
     (gfx_version c' = gfx_version c \<longrightarrow> gfx_flags c' = gfx_flags c)"
  using assms
proof (induction sets arbitrary: c t)
  case Nil
  then show ?case by (simp add: caps_fold_def)
next
  case (Cons s sets)
  obtain v f x where s: "s = (v, f, x)" by (rule prod_cases3)
  obtain c1 t1 where c1: "apply_capset (fix_capversion v) f (c, t) = (c1, t1)" by (rule prod.exhaust)
  have "caps_fold sets (c1, t1) = (c', t')" using Cons.prems s c1 by (simp add: caps_fold_Cons)
  note IH = Cons.IH [OF this]
  have frame: "received c1 = received c" "requiredBytes c1 = requiredBytes c"
    "rdpgfx_channel c1 = rdpgfx_channel c" "capsReceived c1 = capsReceived c"
    "avc444Restricted c1 = avc444Restricted c"
    by (rule apply_capset_frame [OF c1])+
  have ver: "gfx_version c \<le> gfx_version c1"
    "gfx_version c1 = gfx_version c \<and> gfx_flags c1 = gfx_flags c \<or>
       gfx_version c1 = fix_capversion v \<and> gfx_flags c1 = f"
    "supported_range (fix_capversion v) \<Longrightarrow> fix_capversion v \<le> gfx_version c1"
    using apply_capset_version [OF c1] by auto
  have all: "\<forall>(v, f, x) \<in> set (s # sets). supported_range (fix_capversion v) \<longrightarrow>
      fix_capversion v \<le> gfx_version c'"
    using IH ver(3) s by auto
  have ex: "\<exists>(v, f, x) \<in> set (s # sets). gfx_version c' = fix_capversion v \<and> gfx_flags c' = f"
    if "gfx_version c' \<noteq> gfx_version c"
  proof (cases "gfx_version c' = gfx_version c1")
    case True
    then have "gfx_version c1 = fix_capversion v \<and> gfx_flags c1 = f" using ver(2) that by auto
    moreover have "gfx_flags c' = gfx_flags c1" using IH True by blast
    ultimately show ?thesis using True s by auto
  next
    case False
    then show ?thesis using IH by auto
  qed
  have same: "gfx_flags c' = gfx_flags c" if "gfx_version c' = gfx_version c"
  proof -
    have "gfx_version c1 = gfx_version c" using that IH ver(1) by auto
    then have "c1 = c" using apply_capset_version [OF c1] by auto
    then show ?thesis using IH that by auto
  qed
  show ?case using IH frame ver(1) all ex same apply_capset_codec [OF c1] by auto
qed

context wire_format
begin

lemma caps_loop_read:
  assumes "drop pos bs = wire_bytes W (concat (map capset_items sets)) @ rest"
    "unat len = wire_size (concat (map capset_items sets))"
  shows "caps_loop W bs (length sets) len pos ct = Inr (True, pos + unat len, caps_fold sets ct)"
  using assms
proof (induction sets arbitrary: pos len ct)
  case Nil
  then show ?case by (simp add: caps_fold_def)
next
  case (Cons s sets)
  obtain v f x where s: "s = (v, f, x)" by (rule prod_cases3)
  let ?tail = "wire_bytes W (concat (map capset_items sets)) @ rest"
  let ?d = "of_nat (4 + length x) :: u32"
  have size: "unat len = 12 + length x + wire_size (concat (map capset_items sets))"
    using Cons.prems(2) s by simp
  have "unat len < 2 ^ LENGTH(32)" by (rule unsigned_less)
  then have d: "unat ?d = 4 + length x" using size by (intro unat_of_nat_u32) simp
  have len8: "\<not> len < 8" "unat (len - 8) = unat len - 8"
    using size by (simp_all add: word_less_nat_alt unat_diff_le word_le_nat_alt)
  have fits: "\<not> len - 8 < ?d" "4 \<le> ?d" "unat (?d - 4) = length x"
    using len8(2) size d by (simp_all add: word_less_nat_alt word_le_nat_alt unat_diff_le del: of_nat_add)
  have rest: "unat (len - 8 - ?d) = wire_size (concat (map capset_items sets))"
    using fits(1) len8(2) size d by (subst unat_diff_le) (simp_all add: not_less del: of_nat_add)
  have "drop pos bs = wr32 W v @ wr32 W ?d @ wr32 W f @ x @ ?tail"
    using Cons.prems(1) s by simp
  note 1 = rd_u32_at [OF this]
  note 2 = rd_u32_at [OF conjunct2 [OF 1]]
  note 3 = rd_u32_at [OF conjunct2 [OF 2]]
  have "drop (pos + 12 + length x) bs = drop (length x) (drop (pos + 12) bs)" by (simp add: add.commute)
  also have "\<dots> = ?tail" using 3 by (simp add: add.assoc)
  finally have "drop (pos + 12 + length x) bs = ?tail" .
  note IH = Cons.IH [OF this rest, of "apply_capset (fix_capversion v) f ct"]
  have "caps_loop W bs (Suc (length sets)) len pos ct =
      caps_loop W bs (length sets) (len - 8 - ?d) (pos + 12 + length x) (apply_capset (fix_capversion v) f ct)"
    using 1 2 3 len8(1) fits by (simp add: add.assoc del: of_nat_add)
  also have "\<dots> = Inr (True, pos + unat len, caps_fold (s # sets) ct)"
    using IH rest size s by (simp add: caps_fold_Cons)
  finally show ?case by simp
qed

lemma caps_dispatch:
  assumes "received c = encode_pdu W RDPGFX_CMDID_CAPSADVERTISE (caps_body sets)"
    "length sets < 2 ^ 16" "wire_size (caps_body sets) < 2 ^ 32" "\<not> capsReceived c" "env_ok E"
    "caps_fold sets (c, False) = (c1, t1)" "gfx_version c1 \<noteq> 0"
    "c' = (restrict_avc444 (c1, t1))\<lparr>capsReceived := True\<rparr>"
  shows "gfx_dispatch W E RDPGFX_CMDID_CAPSADVERTISE (of_nat (wire_size (caps_body sets))) c =
    Inr (True, c'\<lparr>received := wire_bytes W (capsconfirm_items c')\<rparr>,
         [ChannelWrite (wire_bytes W (capsconfirm_items c')), OpenResult OPEN_RESULT_OK])"
proof -
  let ?bs = "received c" and ?n = "of_nat (length sets) :: u16"
  define len where "len = (of_nat (wire_size (caps_body sets)) :: u32)"
  have size: "wire_size (caps_body sets) = 2 + wire_size (concat (map capset_items sets))"
    by (simp add: caps_body_def)
  have len: "unat len = wire_size (caps_body sets)"
    unfolding len_def using assms(3) by (rule unat_of_nat_u32)
  have "drop 8 ?bs = wr16 W ?n @ wire_bytes W (concat (map capset_items sets)) @ []"
    using encode_pdu_read(3) [of ?bs RDPGFX_CMDID_CAPSADVERTISE "caps_body sets" "[]"] assms(1)
    by (simp add: caps_body_def)
  note 1 = rd_u16_at [OF this]
  have l2: "\<not> len < 2" "unat (len - 2) = wire_size (concat (map capset_items sets))"
    using len size by (simp_all add: word_less_nat_alt unat_diff_le word_le_nat_alt)
  note 2 = caps_loop_read [OF conjunct2 [OF 1] l2(2), of "(c, False)"]
  have n: "unat ?n = length sets" using assms(2) by (rule unat_of_nat_u16)
  have "rdpgfx_server_recv_capabilities W ?bs 8 len c =
      Inr (True, 10 + unat (len - 2), restrict_avc444 (c1, t1))"
    using 1 2 n l2(1) assms(6,7) by (simp add: rdpgfx_server_recv_capabilities_def)
  then show ?thesis
    unfolding len_def [symmetric]
    using assms(4,5,8)
    by (simp add: gfx_dispatch_def Let_def rdpgfx_server_send_capabilities_def env_ok_def)
qed
end

lemma restrict_avc444_frame:
  "received (restrict_avc444 (c, t)) = received c" "requiredBytes (restrict_avc444 (c, t)) = requiredBytes c"
  "gfx_version (restrict_avc444 (c, t)) = gfx_version c" "gfx_flags (restrict_avc444 (c, t)) = gfx_flags c"
  by (simp_all add: restrict_avc444_def)

lemma restrict_avc444_codec:
  "codec_inv c \<Longrightarrow> (avc444v2Supported (restrict_avc444 (c, t)) \<longrightarrow> avc444Supported (restrict_avc444 (c, t))) \<and>
     (avc444Supported (restrict_avc444 (c, t)) \<longrightarrow> h264Supported (restrict_avc444 (c, t)))"
  by (simp add: restrict_avc444_def codec_inv_def)

lemma capsconfirm_cong:
  "gfx_version c = gfx_version d \<Longrightarrow> gfx_flags c = gfx_flags d \<Longrightarrow> capsconfirm_items c = capsconfirm_items d"
  by (simp add: capsconfirm_items_def)

lemma receive_caps:
  assumes "wire_format W" "env_ok E" "gfx_idle c" "\<not> capsReceived c" "length sets < 2 ^ 16"
    "8 + wire_size (caps_body sets) < 2 ^ 32"
    "caps_fold sets (c\<lparr>received := encode_pdu W RDPGFX_CMDID_CAPSADVERTISE (caps_body sets),
       requiredBytes := of_nat (8 + wire_size (caps_body sets))\<rparr>, False) = (c1, t)"
    "gfx_version c1 \<noteq> 0"
    "c' = (restrict_avc444 (c1, t))\<lparr>capsReceived := True, requiredBytes := 8, received := []\<rparr>"
  shows "rdpgfx_server_ogon_receive_callback W E c (encode_pdu W RDPGFX_CMDID_CAPSADVERTISE (caps_body sets)) =
    Inr (True, c', [ChannelWrite (wire_bytes W (capsconfirm_items c')), OpenResult OPEN_RESULT_OK])"
proof -
  let ?pdu = "encode_pdu W RDPGFX_CMDID_CAPSADVERTISE (caps_body sets)"
  let ?c = "c\<lparr>received := ?pdu, requiredBytes := of_nat (8 + wire_size (caps_body sets))\<rparr>"
  let ?d = "(restrict_avc444 (c1, t))\<lparr>capsReceived := True\<rparr>"
  have grow: "\<And>n. stream_grow E n" using assms(2) by (simp add: env_ok_def)
  have "gfx_dispatch W E RDPGFX_CMDID_CAPSADVERTISE (of_nat (wire_size (caps_body sets))) ?c =
      Inr (True, ?d\<lparr>received := wire_bytes W (capsconfirm_items ?d)\<rparr>,
           [ChannelWrite (wire_bytes W (capsconfirm_items ?d)), OpenResult OPEN_RESULT_OK])"
    by (rule wire_format.caps_dispatch [OF assms(1) _ assms(5) _ _ assms(2,7,8) refl])
       (use assms(4,6) in simp_all)
  moreover have "capsconfirm_items ?d = capsconfirm_items c'"
    using assms(9) by (intro capsconfirm_cong) simp_all
  moreover have idle: "gfx_inv c'" using assms(9) by (simp add: gfx_inv_def)
  ultimately show ?thesis
    using wire_format.receive_pdu [OF assms(1,3) grow assms(6), of RDPGFX_CMDID_CAPSADVERTISE "[]"]
      receive_nil [OF idle, of W E] assms(9) by simp
qed

section \<open>Properties\<close>



text \<open>
  C29: a client that advertises nothing but version 8, which has no H.264, on a channel that is
  opened again keeps the codec support of the connection before it: neither opening nor the
  capability set of version 8 resets it.
\<close>

theorem codecs_survive_reopen:
  assumes "wire_format W" "env_ok E" "\<not> rdpgfx_channel c" "received c = []"
    "length x < 2 ^ 31"
  shows "\<exists>c'. rdpgfx_server_ogon_receive_callback W E (fst (rdpgfx_server_open True c))
        (encode_pdu W RDPGFX_CMDID_CAPSADVERTISE (caps_body [(RDPGFX_CAPVERSION_8, f, x)])) =
      Inr (True, c', [ChannelWrite (wire_bytes W (capsconfirm_items c')), OpenResult OPEN_RESULT_OK]) \<and>
    gfx_version c' = RDPGFX_CAPVERSION_8 \<and> h264Supported c' = h264Supported c"
proof -
  let ?o = "fst (rdpgfx_server_open True c)" and ?sets = "[(RDPGFX_CAPVERSION_8, f, x)]"
  let ?c = "?o\<lparr>received := encode_pdu W RDPGFX_CMDID_CAPSADVERTISE (caps_body ?sets),
       requiredBytes := of_nat (8 + wire_size (caps_body ?sets))\<rparr>"
  have o: "gfx_idle ?o" "\<not> capsReceived ?o" "h264Supported ?o = h264Supported c" "gfx_version ?o = 0"
    using assms(3,4) by (simp_all add: rdpgfx_server_open_def gfx_idle_def)
  have f: "caps_fold ?sets (?c, False) = (?c\<lparr>gfx_version := RDPGFX_CAPVERSION_8, gfx_flags := f\<rparr>, False)"
    using o by (simp add: caps_fold_def apply_capset_def capset_codecs_def fix_capversion_def Let_def
        capversion_defs)
  define c1 where "c1 = ?c\<lparr>gfx_version := RDPGFX_CAPVERSION_8, gfx_flags := f\<rparr>"
  define c' where "c' = (restrict_avc444 (c1, False))\<lparr>capsReceived := True, requiredBytes := 8, received := []\<rparr>"
  have "gfx_version c1 \<noteq> 0" by (simp add: c1_def capversion_defs)
  moreover have "8 + wire_size (caps_body ?sets) < 2 ^ 32" "length ?sets < 2 ^ 16"
    using assms(5) by (simp_all add: caps_body_def)
  ultimately have "rdpgfx_server_ogon_receive_callback W E ?o
        (encode_pdu W RDPGFX_CMDID_CAPSADVERTISE (caps_body ?sets)) =
      Inr (True, c', [ChannelWrite (wire_bytes W (capsconfirm_items c')), OpenResult OPEN_RESULT_OK])"
    by (intro receive_caps [OF assms(1,2) o(1,2) _ _ f [folded c1_def] _ c'_def])
  moreover have "gfx_version c' = RDPGFX_CAPVERSION_8" "h264Supported c' = h264Supported c"
    using o(3) by (simp_all add: c'_def c1_def restrict_avc444_def)
  ultimately show ?thesis by blast
qed

theorem codecs_survive_reopen_witness:
  "\<exists>c'. rdpgfx_server_ogon_receive_callback le_wire demo_env
        (fst (rdpgfx_server_open True (demo_gfx\<lparr>rdpgfx_channel := False, h264Supported := True\<rparr>)))
        (encode_pdu le_wire RDPGFX_CMDID_CAPSADVERTISE (caps_body [(RDPGFX_CAPVERSION_8, 0, [])])) =
      Inr (True, c', [ChannelWrite (wire_bytes le_wire (capsconfirm_items c')), OpenResult OPEN_RESULT_OK]) \<and>
    gfx_version c' = RDPGFX_CAPVERSION_8 \<and> h264Supported c' = True"
  using codecs_survive_reopen [OF le.wire_format_axioms demo_idle(2),
      of "demo_gfx\<lparr>rdpgfx_channel := False, h264Supported := True\<rparr>" "[]" 0]
  by (simp add: demo_gfx_eq)

end
