(* ===== verification/Rdpgfx_Send.thy ===== *)
theory Rdpgfx_Send
  imports Rdpgfx_Receive
begin

text \<open>
  The PDUs the server sends on the graphics channel: their layout, the size of the streams they
  are written to, and the segmentation of large bitmaps.
\<close>

text \<open>
  The client's side of \<open>RDP_SEGMENTED_DATA\<close> as [MS-RDPEGFX] describes it: a single segment, or a
  number of segments of at most 65535 bytes of content that together have the announced size.
\<close>

fun unwrap_segments :: "wire \<Rightarrow> nat \<Rightarrow> u8 list \<Rightarrow> u8 list option" where
  "unwrap_segments W 0 bs = (if bs = [] then Some [] else None)"
| "unwrap_segments W (Suc n) bs =
     (let size = unat (rd32 W bs) in
      if length bs < 4 \<or> size = 0 \<or> 1 + 65535 < size \<or> length bs < 4 + size then None
      else map_option ((@) (take (size - 1) (drop 5 bs))) (unwrap_segments W n (drop (4 + size) bs)))"

definition gfx_unwrap :: "wire \<Rightarrow> u8 list \<Rightarrow> u8 list option" where
  "gfx_unwrap W bs =
     (case bs of
        [] \<Rightarrow> None
      | d # r \<Rightarrow>
          if d = RDPGFX_SINGLE then (if r = [] then None else Some (tl r))
          else if d = RDPGFX_MULTIPART \<and> 6 \<le> length r
          then (case unwrap_segments W (unat (rd16 W r)) (drop 6 r) of
                  None \<Rightarrow> None
                | Some pdu \<Rightarrow> if length pdu = unat (rd32 W (drop 2 r)) then Some pdu else None)
          else None)"

definition sends_pdu :: "wire \<Rightarrow> stream_out \<Rightarrow> u16 \<Rightarrow> wire_item list \<Rightarrow> bool" where
  "sends_pdu W s cmdId body \<longleftrightarrow>
     length (wire_bytes W (snd s)) \<le> unat (fst s) \<and>
     gfx_unwrap W (wire_bytes W (snd s)) = Some (encode_pdu W cmdId body)"

definition demo_bitmap :: "u8 list" where
  "demo_bitmap = replicate 200000 7"

section \<open>Sent PDUs\<close>

lemma segments_split:
  assumes "n \<noteq> 0" "k = (if RDPGFX_MAX_SEGMENT_LENGTH < n then RDPGFX_MAX_SEGMENT_LENGTH else n)"
  shows "gfx_segments n d = [W32 (1 + k), W8 PACKET_COMPR_TYPE_RDP8, WBytes (take (unat k) d)] @
      gfx_segments (n - k) (drop (unat k) d)"
    "unat k = min 65535 (unat n)" "unat (1 + k) = 1 + unat k" "unat (n - k) = unat n - unat k"
proof -
  show "gfx_segments n d = [W32 (1 + k), W8 PACKET_COMPR_TYPE_RDP8, WBytes (take (unat k) d)] @
      gfx_segments (n - k) (drop (unat k) d)"
    using assms by (subst gfx_segments.simps) (simp add: Let_def)
  show k: "unat k = min 65535 (unat n)"
    using assms(2) by (simp add: RDPGFX_MAX_SEGMENT_LENGTH_def word_less_nat_alt min_def)
  then have "unat k \<le> 65535" by simp
  then show "unat (1 + k) = 1 + unat k" by (subst unat_add_lem [THEN iffD1]) simp_all
  have "k \<le> n" using k by (simp add: word_le_nat_alt)
  then show "unat (n - k) = unat n - unat k" by (rule unat_diff_le)
qed

lemma segment_count:
  assumes "0 < n" "k = min 65535 n"
  shows "(n + 65534) div 65535 = Suc ((n - k + 65534) div (65535 :: nat))"
proof (cases "n \<le> 65535")
  case False
  then have "n + 65534 = 65535 + (n - k + 65534)" using assms by simp
  then show ?thesis by (metis div_add_self1 Suc_eq_plus1 zero_neq_numeral)
next
  case True
  then have "n + 65534 = 65535 * 1 + (n - 1)" "n - 1 < 65535" using assms by auto
  then have "(n + 65534) div 65535 = 1" by (metis div_mult_self4 div_less add.right_neutral zero_neq_numeral)
  then show ?thesis using True assms by simp
qed

context wire_format
begin

lemma unwrap_step:
  assumes "unat k = 1 + length x" "length x \<le> 65535"
  shows "unwrap_segments W (Suc n) (wr32 W k @ c # x @ rest) =
    map_option ((@) x) (unwrap_segments W n rest)"
proof -
  let ?bs = "wr32 W k @ c # x @ rest"
  have "drop 5 ?bs = x @ rest" by (simp add: len32)
  moreover have "drop (4 + unat k) ?bs = rest" using assms(1) by (simp add: len32)
  moreover have "\<not> (length ?bs < 4 \<or> unat k = 0 \<or> 1 + 65535 < unat k \<or> length ?bs < 4 + unat k)"
    using assms by (simp add: len32)
  ultimately show ?thesis
    using assms(1) unfolding unwrap_segments.simps Let_def read32 by simp
qed

lemma segments_unwrap:
  assumes "unat n = length d"
  shows "unwrap_segments W ((length d + 65534) div 65535) (wire_bytes W (gfx_segments n d)) = Some d \<and>
    wire_size (gfx_segments n d) = 5 * ((length d + 65534) div 65535) + length d"
  using assms
proof (induction "length d" arbitrary: n d rule: less_induct)
  case less
  show ?case
  proof (cases "n = 0")
    case True
    then show ?thesis using less.prems by (simp add: gfx_segments.simps)
  next
    case False
    define k where "k = (if RDPGFX_MAX_SEGMENT_LENGTH < n then RDPGFX_MAX_SEGMENT_LENGTH else n)"
    note s = segments_split [OF False k_def]
    let ?d = "drop (unat k) d"
    have pos: "0 < length d" using False less.prems by (metis unat_gt_0)
    have k: "unat k = min 65535 (length d)" using s(2) less.prems by simp
    have rest: "unat (n - k) = length ?d" using s(4) less.prems by simp
    have "length ?d < length d" using k pos by simp
    note IH = less.hyps [OF this rest]
    have cnt: "(length d + 65534) div 65535 = Suc ((length ?d + 65534) div 65535)"
      using segment_count [OF pos k] by simp
    have "unat (1 + k) = 1 + length (take (unat k) d)" "length (take (unat k) d) \<le> 65535"
      using s(3) k by simp_all
    note step = unwrap_step [OF this, of "(length ?d + 65534) div 65535" PACKET_COMPR_TYPE_RDP8
      "wire_bytes W (gfx_segments (n - k) ?d)"]
    have "unwrap_segments W (Suc ((length ?d + 65534) div 65535)) (wire_bytes W (gfx_segments n d)) = Some d"
      unfolding s(1) using step IH by simp
    moreover have "wire_size (gfx_segments n d) = 5 + unat k + wire_size (gfx_segments (n - k) ?d)"
      unfolding s(1) using k by simp
    ultimately show ?thesis unfolding cnt using IH k by simp
  qed
qed

lemma single_sends:
  assumes "snd s = gfx_single cmdId (of_nat (8 + wire_size body)) @ body" "10 + wire_size body \<le> unat (fst s)"
  shows "sends_pdu W s cmdId body"
proof -
  have "wire_bytes W (snd s) = RDPGFX_SINGLE # PACKET_COMPR_TYPE_RDP8 # encode_pdu W cmdId body"
    unfolding assms(1) by (simp add: gfx_single_def encode_pdu_def)
  then show ?thesis using assms(2) by (simp add: sends_pdu_def gfx_unwrap_def)
qed

end

lemma segment_count_word:
  fixes p :: u32
  assumes "unat p \<le> 65532 * 65535"
  defines "c \<equiv> (p + (RDPGFX_MAX_SEGMENT_LENGTH - 1)) div RDPGFX_MAX_SEGMENT_LENGTH"
  shows "unat c = (unat p + 65534) div 65535" "unat c \<le> 65532"
    "unat (ucast c :: u16) = unat c"
    "unat (7 + (5 + RDPGFX_MAX_SEGMENT_LENGTH) * c) = 7 + 65540 * unat c"
proof -
  have "unat (p + 65534) = unat p + 65534" using assms(1) by (subst unat_add_lem [THEN iffD1]) simp_all
  then show c: "unat c = (unat p + 65534) div 65535"
    unfolding c_def RDPGFX_MAX_SEGMENT_LENGTH_def by (simp add: unat_div)
  have "(unat p + 65534) div 65535 \<le> (65532 * 65535 + 65534) div 65535"
    using assms(1) by (intro div_le_mono) simp
  then show le: "unat c \<le> 65532" using c by simp
  then show "unat (ucast c :: u16) = unat c"
    by (simp add: unsigned_ucast_eq take_bit_nat_eq_self)
  have m: "unat (65540 * c) = 65540 * unat c" using le by (subst unat_mult_lem [THEN iffD1]) simp_all
  then have "unat (7 + 65540 * c) = 7 + 65540 * unat c"
    using le by (subst unat_add_lem [THEN iffD1]) simp_all
  then show "unat (7 + (5 + RDPGFX_MAX_SEGMENT_LENGTH) * c) = 7 + 65540 * unat c"
    by (simp add: RDPGFX_MAX_SEGMENT_LENGTH_def)
qed

context wire_format
begin

lemma multipart_unwrap:
  assumes "unat cnt = Suc n" "unwrap_segments W n rest = Some y"
    "unat k = 1 + length x" "length x \<le> 65535" "unat p = length x + length y"
  shows "gfx_unwrap W (RDPGFX_MULTIPART # wr16 W cnt @ wr32 W p @ wr32 W k @ c # x @ rest) = Some (x @ y)"
proof -
  let ?r = "wr16 W cnt @ wr32 W p @ wr32 W k @ c # x @ rest"
  have "rd16 W ?r = cnt" "rd32 W (drop 2 ?r) = p" "drop 6 ?r = wr32 W k @ c # x @ rest" "6 \<le> length ?r"
    by (simp_all add: read16 read32 len16 len32)
  then show ?thesis
    using unwrap_step [OF assms(3,4), of n c rest] assms(1,2,5)
    by (simp add: gfx_unwrap_def RDPGFX_MULTIPART_def RDPGFX_SINGLE_def del: append.simps)
qed

lemma pdu_length_word:
  assumes "unat hs = 8 + wire_size hdr" "unat n = length d" "unat hs + length d \<le> 65532 * 65535"
  shows "unat (hs + n :: u32) = unat hs + length d"
    "of_nat (8 + wire_size (hdr @ [WBytes d])) = hs + n"
proof -
  show p: "unat (hs + n) = unat hs + length d"
    using assms(2,3) by (subst unat_add_lem [THEN iffD1]) simp_all
  have size: "8 + wire_size (hdr @ [WBytes d]) = unat (hs + n)" using p assms(1) by simp
  show "of_nat (8 + wire_size (hdr @ [WBytes d])) = hs + n" unfolding size by simp
qed

lemma multipart_sends:
  assumes hs: "unat hs = 8 + wire_size hdr" "unat hs \<le> 25" and n: "unat n = length d"
    and max: "unat hs + length d \<le> 65532 * 65535" and big: "65535 < unat hs + length d"
  shows "sends_pdu W (gfx_wire_to_surface cmdId hs hdr n d) cmdId (hdr @ [WBytes d])"
proof -
  note p = pdu_length_word [OF hs(1) n max]
  let ?s = "gfx_wire_to_surface cmdId hs hdr n d"
  let ?c = "(hs + n + (RDPGFX_MAX_SEGMENT_LENGTH - 1)) div RDPGFX_MAX_SEGMENT_LENGTH"
  define seg where "seg = RDPGFX_MAX_SEGMENT_LENGTH - hs"
  let ?x = "wire_bytes W (gfx_header cmdId (hs + n) @ hdr @ [WBytes (take (unat seg) d)])"
  let ?y = "drop (unat seg) d"
  have "unat (hs + n) \<le> 65532 * 65535" using p max by simp
  note c = segment_count_word [OF this]
  have multi: "\<not> hs + n \<le> RDPGFX_MAX_SEGMENT_LENGTH"
    using big p by (simp add: RDPGFX_MAX_SEGMENT_LENGTH_def word_le_nat_alt)
  have seg: "unat seg = 65535 - unat hs"
    unfolding seg_def RDPGFX_MAX_SEGMENT_LENGTH_def using hs(2)
    by (subst unat_diff_le) (simp_all add: word_le_nat_alt)
  have "unat (n - seg) = length ?y"
    using seg big n by (subst unat_diff_le) (simp_all add: word_le_nat_alt)
  note u = segments_unwrap [OF this]
  have x: "length ?x = 65535" using seg hs big by (simp add: gfx_header_def len16 len32)
  have xy: "?x @ ?y = encode_pdu W cmdId (hdr @ [WBytes d])"
    unfolding encode_pdu_def p(2) by simp
  have cnt: "unat hs + length d + 65534 = 65535 + (length ?y + 65534)" using seg big hs(2) by simp
  have sc: "(unat (hs + n) + 65534) div 65535 = Suc ((length ?y + 65534) div 65535)"
    unfolding p(1) cnt by (simp add: div_add_self1)
  have bytes: "wire_bytes W (snd ?s) =
      RDPGFX_MULTIPART # wr16 W (ucast ?c) @ wr32 W (hs + n) @
      wr32 W (1 + RDPGFX_MAX_SEGMENT_LENGTH) @ PACKET_COMPR_TYPE_RDP8 # ?x @
      wire_bytes W (gfx_segments (n - seg) ?y)"
    using multi by (simp add: gfx_wire_to_surface_def Let_def seg_def)
  have "gfx_unwrap W (wire_bytes W (snd ?s)) = Some (?x @ ?y)"
    unfolding bytes
    by (rule multipart_unwrap [OF _ conjunct1 [OF u]])
       (use c sc x p max seg big hs in \<open>simp_all add: RDPGFX_MAX_SEGMENT_LENGTH_def\<close>)
  moreover have "length (wire_bytes W (snd ?s)) = 12 + length ?x + wire_size (gfx_segments (n - seg) ?y)"
    unfolding bytes by (simp add: len16 len32)
  moreover have "fst ?s = 7 + (5 + RDPGFX_MAX_SEGMENT_LENGTH) * ?c"
    using multi by (simp add: gfx_wire_to_surface_def Let_def)
  moreover have "length ?y \<le> 65535 * ((length ?y + 65534) div 65535)" by linarith
  ultimately show ?thesis
    unfolding sends_pdu_def xy using c sc u x p max by simp
qed

lemma wire_to_surface_sends:
  assumes hs: "unat hs = 8 + wire_size hdr" "unat hs \<le> 25" and n: "unat n = length d"
    and max: "unat hs + length d \<le> 65532 * 65535"
  shows "sends_pdu W (gfx_wire_to_surface cmdId hs hdr n d) cmdId (hdr @ [WBytes d])"
proof (cases "65535 < unat hs + length d")
  case False
  note p = pdu_length_word [OF hs(1) n max]
  have "hs + n \<le> RDPGFX_MAX_SEGMENT_LENGTH"
    using False p(1) by (simp add: RDPGFX_MAX_SEGMENT_LENGTH_def word_le_nat_alt)
  moreover have "unat (hs + n + 2) = unat (hs + n) + 2"
    using False p(1) by (subst unat_add_lem [THEN iffD1]) simp_all
  ultimately show ?thesis using p hs(1) n
    by (intro single_sends) (simp_all add: gfx_wire_to_surface_def Let_def del: of_nat_add)
qed (rule multipart_sends [OF assms])

end

lemma size_rects: "wire_size (concat (map rect_items rs)) = 8 * length rs"
  by (induction rs) (simp_all add: rect_items_def)

lemma size_points: "wire_size (concat (map (\<lambda>(x, y). [W16 x, W16 y]) ps)) = 4 * length ps"
  by (induction ps) (simp_all split: prod.split)

lemma size_words: "wire_size (map W16 ws) = 2 * length ws"
  by (induction ws) simp_all

lemma unat_scaled:
  assumes "k \<le> 8" "a \<le> 100"
  shows "unat (ucast (n :: u16) * of_nat k + of_nat a :: u32) = unat n * k + a"
    "ucast n * of_nat k + of_nat a = (of_nat (unat n * k + a) :: u32)"
proof -
  have "unat n < 2 ^ 16" using unsigned_less [of n] by simp
  then have "unat n * k \<le> 65535 * 8" using assms(1) by (intro mult_le_mono) simp_all
  then have "unat n * k + a < 2 ^ 32" using assms(2) by simp
  moreover show eq: "ucast n * of_nat k + of_nat a = (of_nat (unat n * k + a) :: u32)"
    by simp
  ultimately show "unat (ucast n * of_nat k + of_nat a :: u32) = unat n * k + a"
    unfolding eq by (intro unat_of_nat_u32) simp
qed

context wire_format
begin

lemma counted_sends:
  assumes "snd s = gfx_single cmdId (ucast n * of_nat k + of_nat a) @ body"
    "fst s = ucast (n :: u16) * of_nat k + of_nat (a + 2)" "8 + wire_size body = unat n * k + a"
    "k \<le> 8" "a \<le> 90"
  shows "sends_pdu W s cmdId body"
proof (rule single_sends)
  show "snd s = gfx_single cmdId (of_nat (8 + wire_size body)) @ body"
    unfolding assms(1,3) using unat_scaled(2) [of k a n] assms(4,5) by simp
  show "10 + wire_size body \<le> unat (fst s)"
    unfolding assms(2) using unat_scaled(1) [of k "a + 2" n] assms(3-5) by simp
qed

end


section \<open>Properties\<close>

text \<open>
  C26: the bitmap data of a wire-to-surface PDU arrives whole: a client that reassembles the
  segments as the protocol describes gets the PDU with its header, a length field equal to its
  size, and the data, whether it fits in one segment or not; and the sender writes no more than
  it asked the stream for. It holds for sizes up to 65532 full segments, about 4 GB.
\<close>

theorem wire_to_surface_reassembles:
  assumes "wire_format W"
    "length (w1_bitmapData p) = unat (w1_bitmapDataLength p)"
    "length (w2_bitmapData q) = unat (w2_bitmapDataLength q)"
    "25 + length (w1_bitmapData p) \<le> 65532 * 65535" "21 + length (w2_bitmapData q) \<le> 65532 * 65535"
  shows "sends_pdu W (rdpgfx_server_wire_to_surface_1 p) RDPGFX_CMDID_WIRETOSURFACE_1
      ([W16 (w1_surfaceId p), W16 (w1_codecId p), W8 (w1_pixelFormat p)] @ rect_items (w1_destRect p) @
       [W32 (w1_bitmapDataLength p), WBytes (w1_bitmapData p)]) \<and>
    sends_pdu W (rdpgfx_server_wire_to_surface_2 q) RDPGFX_CMDID_WIRETOSURFACE_2
      [W16 (w2_surfaceId q), W16 (w2_codecId q), W32 (w2_codecContextId q), W8 (w2_pixelFormat q),
       W32 (w2_bitmapDataLength q), WBytes (w2_bitmapData q)]"
proof
  show "sends_pdu W (rdpgfx_server_wire_to_surface_1 p) RDPGFX_CMDID_WIRETOSURFACE_1
      ([W16 (w1_surfaceId p), W16 (w1_codecId p), W8 (w1_pixelFormat p)] @ rect_items (w1_destRect p) @
       [W32 (w1_bitmapDataLength p), WBytes (w1_bitmapData p)])"
    using wire_format.wire_to_surface_sends [OF assms(1), of RDPGFX_WIRETOSURFACE_1_HEADER_SIZE
        "[W16 (w1_surfaceId p), W16 (w1_codecId p), W8 (w1_pixelFormat p)] @
         rect_items (w1_destRect p) @ [W32 (w1_bitmapDataLength p)]"] assms(2,4)
    by (simp add: rdpgfx_server_wire_to_surface_1_def RDPGFX_WIRETOSURFACE_1_HEADER_SIZE_def rect_items_def)
  show "sends_pdu W (rdpgfx_server_wire_to_surface_2 q) RDPGFX_CMDID_WIRETOSURFACE_2
      [W16 (w2_surfaceId q), W16 (w2_codecId q), W32 (w2_codecContextId q), W8 (w2_pixelFormat q),
       W32 (w2_bitmapDataLength q), WBytes (w2_bitmapData q)]"
    using wire_format.wire_to_surface_sends [OF assms(1), of RDPGFX_WIRETOSURFACE_2_HEADER_SIZE
        "[W16 (w2_surfaceId q), W16 (w2_codecId q), W32 (w2_codecContextId q), W8 (w2_pixelFormat q),
          W32 (w2_bitmapDataLength q)]"] assms(3,5)
    by (simp add: rdpgfx_server_wire_to_surface_2_def RDPGFX_WIRETOSURFACE_2_HEADER_SIZE_def)
qed

lemma length_demo_bitmap: "length demo_bitmap = 200000"
  unfolding demo_bitmap_def by (rule length_replicate)

theorem wire_to_surface_reassembles_witness:
  "sends_pdu le_wire (rdpgfx_server_wire_to_surface_2
      \<lparr>w2_surfaceId = 1, w2_codecId = 9, w2_codecContextId = 0, w2_pixelFormat = 0x20,
       w2_bitmapDataLength = 200000, w2_bitmapData = demo_bitmap\<rparr>) RDPGFX_CMDID_WIRETOSURFACE_2
      [W16 1, W16 9, W32 0, W8 0x20, W32 200000, WBytes (demo_bitmap)]"
  using wire_to_surface_reassembles [OF le.wire_format_axioms,
    of "\<lparr>w1_surfaceId = 1, w1_codecId = 8, w1_pixelFormat = 0x20,
         w1_destRect = \<lparr>rect_left = 0, rect_top = 0, rect_right = 1, rect_bottom = 1\<rparr>,
         w1_bitmapDataLength = 4, w1_bitmapData = [1, 2, 3, 4]\<rparr>"
       "\<lparr>w2_surfaceId = 1, w2_codecId = 9, w2_codecContextId = 0, w2_pixelFormat = 0x20,
         w2_bitmapDataLength = 200000, w2_bitmapData = demo_bitmap\<rparr>"]
  by (simp add: length_demo_bitmap)

text \<open>
  C27: every other PDU of the server is written inside the stream allocated for it and arrives as
  the PDU the caller described, with a length field equal to its size; the lists have the
  number of elements the caller gives.
\<close>

theorem server_pdus_well_formed:
  assumes "wire_format W"
    "length (sf_fillRects p) = unat (sf_fillRectCount p)"
    "length pts = unat npts" "length slots = unat nslots"
  shows "sends_pdu W (rdpgfx_server_solidfill p) RDPGFX_CMDID_SOLIDFILL
      ([W16 (sf_surfaceId p), W8 (sf_B p), W8 (sf_G p), W8 (sf_R p), W8 (sf_XA p),
        W16 (sf_fillRectCount p)] @ concat (map rect_items (sf_fillRects p))) \<and>
    sends_pdu W (rdpgfx_server_cache_to_surface slot sid npts pts) RDPGFX_CMDID_CACHETOSURFACE
      ([W16 slot, W16 sid, W16 npts] @ concat (map (\<lambda>(x, y). [W16 x, W16 y]) pts)) \<and>
    sends_pdu W (rdpgfx_server_cache_import_reply nslots slots) RDPGFX_CMDID_CACHEIMPORTREPLY
      (W16 nslots # map W16 slots) \<and>
    sends_pdu W (rdpgfx_server_create_surface sid w h px) RDPGFX_CMDID_CREATESURFACE
      [W16 sid, W16 w, W16 h, W8 px] \<and>
    sends_pdu W (rdpgfx_server_delete_surface sid) RDPGFX_CMDID_DELETESURFACE [W16 sid] \<and>
    sends_pdu W (rdpgfx_server_start_frame ts fid) RDPGFX_CMDID_STARTFRAME [W32 ts, W32 fid] \<and>
    sends_pdu W (rdpgfx_server_end_frame fid) RDPGFX_CMDID_ENDFRAME [W32 fid] \<and>
    sends_pdu W (rdpgfx_server_map_surface_to_output sid ox oy) RDPGFX_CMDID_MAPSURFACETOOUTPUT
      [W16 sid, W16 0, W32 ox, W32 oy] \<and>
    sends_pdu W (rdpgfx_server_surface_to_cache sid key slot r) RDPGFX_CMDID_SURFACETOCACHE
      ([W16 sid, W64 key, W16 slot] @ rect_items r) \<and>
    (\<exists>pad. sends_pdu W (rdpgfx_server_reset_graphics gw gh) RDPGFX_CMDID_RESETGRAPHICS
      ([W32 gw, W32 gh, W32 1, W32 0, W32 0, W32 (gw - 1), W32 (gh - 1), W32 MONITOR_PRIMARY] @
       [WBytes pad]))"
proof (intro conjI exI)
  note single = wire_format.single_sends [OF assms(1)] and counted = wire_format.counted_sends [OF assms(1)]
  show "sends_pdu W (rdpgfx_server_solidfill p) RDPGFX_CMDID_SOLIDFILL
      ([W16 (sf_surfaceId p), W8 (sf_B p), W8 (sf_G p), W8 (sf_R p), W8 (sf_XA p),
        W16 (sf_fillRectCount p)] @ concat (map rect_items (sf_fillRects p)))"
    by (rule counted [where n = "sf_fillRectCount p" and k = 8 and a = 16])
       (use assms(2) in \<open>simp_all add: rdpgfx_server_solidfill_def size_rects add.commute\<close>)
  show "sends_pdu W (rdpgfx_server_cache_to_surface slot sid npts pts) RDPGFX_CMDID_CACHETOSURFACE
      ([W16 slot, W16 sid, W16 npts] @ concat (map (\<lambda>(x, y). [W16 x, W16 y]) pts))"
    by (rule counted [where n = npts and k = 4 and a = 14])
       (use assms(3) in \<open>simp_all add: rdpgfx_server_cache_to_surface_def size_points Let_def\<close>)
  show "sends_pdu W (rdpgfx_server_cache_import_reply nslots slots) RDPGFX_CMDID_CACHEIMPORTREPLY
      (W16 nslots # map W16 slots)"
    by (rule counted [where n = nslots and k = 2 and a = 10])
       (use assms(4) in \<open>simp_all add: rdpgfx_server_cache_import_reply_def size_words Let_def\<close>)
  show "sends_pdu W (rdpgfx_server_reset_graphics gw gh) RDPGFX_CMDID_RESETGRAPHICS
      ([W32 gw, W32 gh, W32 1, W32 0, W32 0, W32 (gw - 1), W32 (gh - 1), W32 MONITOR_PRIMARY] @
       [WBytes (replicate (342 - 42) 0)])"
    by (rule single) (simp_all add: rdpgfx_server_reset_graphics_def gfx_single_def gfx_header_def
        Let_def del: replicate.simps)
qed (rule wire_format.single_sends [OF assms(1)]; simp add: rdpgfx_server_create_surface_def
    rdpgfx_server_delete_surface_def rdpgfx_server_start_frame_def rdpgfx_server_end_frame_def
    rdpgfx_server_map_surface_to_output_def rdpgfx_server_surface_to_cache_def rect_items_def)+

theorem server_pdus_well_formed_witness:
  "sends_pdu le_wire (rdpgfx_server_cache_to_surface 3 1 2 [(4, 5), (6, 7)]) RDPGFX_CMDID_CACHETOSURFACE
     [W16 3, W16 1, W16 2, W16 4, W16 5, W16 6, W16 7]"
  using server_pdus_well_formed [OF le.wire_format_axioms,
    of "\<lparr>sf_surfaceId = 1, sf_B = 0, sf_G = 0, sf_R = 0, sf_XA = 0, sf_fillRectCount = 0, sf_fillRects = []\<rparr>"
      "[(4, 5), (6, 7)]" 2 "[]" 0 3 1]
  by simp

end
