(* ===== verification/Backend_Messages.thy ===== *)
theory Backend_Messages
  imports Wire_Stream
begin

text \<open>
  The messages between the server and a backend, as \<open>backend/protocol.c\<close> has them: the structs of
  \<open>include/ogon/backend.h\<close>, the functions that read and prepare each of them, and the table of
  descriptors. Memory is counted: a reader returns how many blocks it leaves allocated, a cleanup
  how many it frees.
\<close>

section \<open>Messages\<close>

text \<open>A C string is its bytes up to the terminating zero; None is the null pointer.\<close>

type_synonym cstring = "u8 list"

definition strdup :: "cstring \<Rightarrow> cstring" where
  "strdup s = takeWhile (\<lambda>b. b \<noteq> 0) s"

text \<open>The members of the union \<open>ogon_message\<close>, each with the fields of its struct.\<close>

datatype ogon_message =
    SetPointer (m_xorBpp: u32) (m_xPos: u32) (m_yPos: u32) (m_width: u32) (m_height: u32)
      (m_lengthAndMask: u32) (m_lengthXorMask: u32) (m_xorMaskData: "u8 list option")
      (m_andMaskData: "u8 list option") (m_clientId: u32)
  | FramebufferInfo (m_version: u32) (m_width: u32) (m_height: u32) (m_scanline: u32)
      (m_bitsPerPixel: u32) (m_bytesPerPixel: u32) (m_userId: u32) (m_multiseatCapable: bool)
  | Beep (m_duration: u32) (m_frequency: u32)
  | SetSystemPointer (m_ptrType: u32) (m_clientId: u32)
  | SbpRequest (m_sbpType: u32) (m_tag: u32) (m_dataLen: u32) (m_data: "u8 list option")
  | FramebufferSyncReply (m_bufferId: u32)
  | MessageReply (m_message_id: u32) (m_result: u32)
  | Version (m_versionMajor: u32) (m_versionMinor: u32) (m_cookie: "cstring option")
  | Capabilities (m_desktopWidth: u32) (m_desktopHeight: u32) (m_colorDepth: u32)
      (m_keyboardLayout: u32) (m_keyboardType: u32) (m_keyboardSubType: u32) (m_clientId: u32)
  | SynchronizeKeyboard (m_flags: u32) (m_clientId: u32)
  | ScancodeKeyboard (m_flags: u32) (m_code: u32) (m_keyboardType: u32) (m_clientId: u32)
  | UnicodeKeyboard (m_flags: u32) (m_code: u32) (m_clientId: u32)
  | Mouse (m_flags: u32) (m_x: u32) (m_y: u32) (m_clientId: u32)
  | ExtendedMouse (m_flags: u32) (m_x: u32) (m_y: u32) (m_clientId: u32)
  | FramebufferSyncRequest (m_bufferId: u32)
  | SbpReply (m_sbpType: u32) (m_tag: u32) (m_status: u32) (m_dataLen: u32) (m_data: "u8 list option")
  | SeatNew (m_clientId: u32) (m_keyboardLayout: u32) (m_keyboardType: u32) (m_keyboardSubType: u32)
  | SeatRemoved (m_clientId: u32)
  | UserMessage (m_message_id: u32) (m_message_type: u32) (m_style: u32) (m_timeout: u32)
      (m_parameter_num: u32) (m_parameters: "(u32 \<times> cstring option) list") (m_icp_tag: u32) (m_icp_type: u32)

text \<open>
  The protobuf messages (\<open>backend.proto\<close>) with their fields in order: \<open>required uint32\<close> as words,
  \<open>bytes\<close> and \<open>string\<close> as byte lists, \<open>optional\<close> as options, \<open>repeated\<close> as lists. A null pointer
  among the repeated strings is None.
\<close>

datatype protobuf_message =
    P_capabilities u32 u32 u32 u32 u32 u32 u32 u32
  | P_keyboardSync u32 u32
  | P_keyboardScanCode u32 u32 u32 u32
  | P_keyboardUnicode u32 u32 u32
  | P_mouseEvent u32 u32 u32 u32
  | P_mouseExtendedEvent u32 u32 u32 u32
  | P_syncRequest u32
  | P_sbpReply u32 u32 u32 "u8 list"
  | P_seatNew u32 u32 u32 u32
  | P_seatRemoved u32
  | P_message u32 u32 u32 u32 "cstring list"
  | P_versionReply u32 u32 "cstring option"
  | P_framebufferInfos u32 u32 u32 u32 u32 u32 u32 u32
  | P_setPointerShape u32 u32 u32 u32 u32 "u8 list option" "u8 list option" u32
  | P_beep u32 u32
  | P_setSystemPointer u32 u32
  | P_sbpRequest u32 u32 "u8 list"
  | P_syncReply u32
  | P_messageReply u32 u32

datatype protobuf_type =
    T_capabilities | T_keyboardSync | T_keyboardScanCode | T_keyboardUnicode | T_mouseEvent
  | T_mouseExtendedEvent | T_syncRequest | T_sbpReply | T_seatNew | T_seatRemoved | T_message
  | T_versionReply | T_framebufferInfos | T_setPointerShape | T_beep | T_setSystemPointer
  | T_sbpRequest | T_syncReply | T_messageReply

section \<open>Reading and preparing\<close>

text \<open>
  The generated protobuf functions: \<open>protobuf_c_message_pack\<close>, the \<open>__unpack\<close> functions by
  message type, and \<open>__get_packed_size\<close> as the \<open>int\<close> the code converts it to.
\<close>

record protobuf =
  pack :: "protobuf_message \<Rightarrow> u8 list"
  unpack :: "protobuf_type \<Rightarrow> u8 list \<Rightarrow> protobuf_message option"
  packed_size :: "protobuf_message \<Rightarrow> int"

text \<open>
  A reader gets the result of each of its allocations, numbered in order, and the bytes of the
  stream. It returns the message, or None for \<open>FALSE\<close>, and the number of blocks it allocated that
  are still live. Preparing a message gives the packed size or a negative error, the protobuf
  message, and the number of blocks it holds; using a null pointer, reading behind a buffer or
  using the wrong member of the union is a fault.
\<close>

type_synonym message_reader =
  "protobuf \<Rightarrow> (nat \<Rightarrow> bool) \<Rightarrow> u8 list \<Rightarrow> ogon_message option \<times> nat"

datatype protobuf_fault = NullDereference | OverRead | WrongMember

type_synonym message_preparer =
  "protobuf \<Rightarrow> (nat \<Rightarrow> bool) \<Rightarrow> ogon_message \<Rightarrow> protobuf_fault + int \<times> protobuf_message \<times> nat"

definition prepared :: "protobuf \<Rightarrow> protobuf_message \<Rightarrow> protobuf_fault + int \<times> protobuf_message \<times> nat" where
  "prepared C p = Inr (packed_size C p, p, 0)"

text \<open>The bytes behind a pointer and a length.\<close>

definition blob :: "u32 \<Rightarrow> u8 list option \<Rightarrow> protobuf_fault + u8 list" where
  "blob n d =
     (case d of
        None \<Rightarrow> if n = 0 then Inr [] else Inl NullDereference
      | Some bs \<Rightarrow> if unat n \<le> length bs then Inr (take (unat n) bs) else Inl OverRead)"

definition ogon_read_capabilities :: message_reader where
  "ogon_read_capabilities C A s =
     (case unpack C T_capabilities s of
        Some (P_capabilities _ dw dh cd kl kt ks ci) \<Rightarrow> (Some (Capabilities dw dh cd kl kt ks ci), 0)
      | _ \<Rightarrow> (None, 0))"

definition ogon_prepare_capabilities :: message_preparer where
  "ogon_prepare_capabilities C A msg =
     (case msg of
        Capabilities dw dh cd kl kt ks ci \<Rightarrow> prepared C (P_capabilities 0 dw dh cd kl kt ks ci)
      | _ \<Rightarrow> Inl WrongMember)"

definition ogon_read_synchronize_keyboard_event :: message_reader where
  "ogon_read_synchronize_keyboard_event C A s =
     (case unpack C T_keyboardSync s of
        Some (P_keyboardSync fl ci) \<Rightarrow> (Some (SynchronizeKeyboard fl ci), 0)
      | _ \<Rightarrow> (None, 0))"

definition ogon_prepare_synchronize_keyboard_event :: message_preparer where
  "ogon_prepare_synchronize_keyboard_event C A msg =
     (case msg of
        SynchronizeKeyboard fl ci \<Rightarrow> prepared C (P_keyboardSync fl ci)
      | _ \<Rightarrow> Inl WrongMember)"

definition ogon_read_scancode_keyboard_event :: message_reader where
  "ogon_read_scancode_keyboard_event C A s =
     (case unpack C T_keyboardScanCode s of
        Some (P_keyboardScanCode fl co kt ci) \<Rightarrow> (Some (ScancodeKeyboard fl co kt ci), 0)
      | _ \<Rightarrow> (None, 0))"

definition ogon_prepare_scancode_keyboard_event :: message_preparer where
  "ogon_prepare_scancode_keyboard_event C A msg =
     (case msg of
        ScancodeKeyboard fl co kt ci \<Rightarrow> prepared C (P_keyboardScanCode fl co kt ci)
      | _ \<Rightarrow> Inl WrongMember)"

definition ogon_read_unicode_keyboard_event :: message_reader where
  "ogon_read_unicode_keyboard_event C A s =
     (case unpack C T_keyboardUnicode s of
        Some (P_keyboardUnicode fl co ci) \<Rightarrow> (Some (UnicodeKeyboard fl co ci), 0)
      | _ \<Rightarrow> (None, 0))"

definition ogon_prepare_unicode_keyboard_event :: message_preparer where
  "ogon_prepare_unicode_keyboard_event C A msg =
     (case msg of
        UnicodeKeyboard fl co ci \<Rightarrow> prepared C (P_keyboardUnicode fl co ci)
      | _ \<Rightarrow> Inl WrongMember)"

definition ogon_read_mouse_event :: message_reader where
  "ogon_read_mouse_event C A s =
     (case unpack C T_mouseEvent s of
        Some (P_mouseEvent fl x y ci) \<Rightarrow> (Some (Mouse fl x y ci), 0)
      | _ \<Rightarrow> (None, 0))"

definition ogon_prepare_mouse_event :: message_preparer where
  "ogon_prepare_mouse_event C A msg =
     (case msg of
        Mouse fl x y ci \<Rightarrow> prepared C (P_mouseEvent fl x y ci)
      | _ \<Rightarrow> Inl WrongMember)"

definition ogon_read_extended_mouse_event :: message_reader where
  "ogon_read_extended_mouse_event C A s =
     (case unpack C T_mouseExtendedEvent s of
        Some (P_mouseExtendedEvent fl x y ci) \<Rightarrow> (Some (ExtendedMouse fl x y ci), 0)
      | _ \<Rightarrow> (None, 0))"

definition ogon_prepare_extended_mouse_event :: message_preparer where
  "ogon_prepare_extended_mouse_event C A msg =
     (case msg of
        ExtendedMouse fl x y ci \<Rightarrow> prepared C (P_mouseExtendedEvent fl x y ci)
      | _ \<Rightarrow> Inl WrongMember)"

definition ogon_read_framebuffer_sync_request :: message_reader where
  "ogon_read_framebuffer_sync_request C A s =
     (case unpack C T_syncRequest s of
        Some (P_syncRequest b) \<Rightarrow> (Some (FramebufferSyncRequest b), 0)
      | _ \<Rightarrow> (None, 0))"

definition ogon_prepare_framebuffer_sync_request :: message_preparer where
  "ogon_prepare_framebuffer_sync_request C A msg =
     (case msg of
        FramebufferSyncRequest b \<Rightarrow> prepared C (P_syncRequest b)
      | _ \<Rightarrow> Inl WrongMember)"

definition ogon_read_seat_new :: message_reader where
  "ogon_read_seat_new C A s =
     (case unpack C T_seatNew s of
        Some (P_seatNew ci kl kt ks) \<Rightarrow> (Some (SeatNew ci kl kt ks), 0)
      | _ \<Rightarrow> (None, 0))"

definition ogon_prepare_seat_new :: message_preparer where
  "ogon_prepare_seat_new C A msg =
     (case msg of
        SeatNew ci kl kt ks \<Rightarrow> prepared C (P_seatNew ci kl kt ks)
      | _ \<Rightarrow> Inl WrongMember)"

definition ogon_read_seat_removed :: message_reader where
  "ogon_read_seat_removed C A s =
     (case unpack C T_seatRemoved s of
        Some (P_seatRemoved ci) \<Rightarrow> (Some (SeatRemoved ci), 0)
      | _ \<Rightarrow> (None, 0))"

definition ogon_prepare_seat_removed :: message_preparer where
  "ogon_prepare_seat_removed C A msg =
     (case msg of
        SeatRemoved ci \<Rightarrow> prepared C (P_seatRemoved ci)
      | _ \<Rightarrow> Inl WrongMember)"

definition ogon_read_set_system_pointer :: message_reader where
  "ogon_read_set_system_pointer C A s =
     (case unpack C T_setSystemPointer s of
        Some (P_setSystemPointer ty ci) \<Rightarrow> (Some (SetSystemPointer ty ci), 0)
      | _ \<Rightarrow> (None, 0))"

definition ogon_prepare_set_system_pointer :: message_preparer where
  "ogon_prepare_set_system_pointer C A msg =
     (case msg of
        SetSystemPointer ty ci \<Rightarrow> prepared C (P_setSystemPointer ty ci)
      | _ \<Rightarrow> Inl WrongMember)"

definition ogon_read_beep :: message_reader where
  "ogon_read_beep C A s =
     (case unpack C T_beep s of
        Some (P_beep du fr) \<Rightarrow> (Some (Beep du fr), 0)
      | _ \<Rightarrow> (None, 0))"

definition ogon_prepare_beep :: message_preparer where
  "ogon_prepare_beep C A msg =
     (case msg of
        Beep du fr \<Rightarrow> prepared C (P_beep du fr)
      | _ \<Rightarrow> Inl WrongMember)"

definition ogon_read_framebuffer_sync_reply :: message_reader where
  "ogon_read_framebuffer_sync_reply C A s =
     (case unpack C T_syncReply s of
        Some (P_syncReply b) \<Rightarrow> (Some (FramebufferSyncReply b), 0)
      | _ \<Rightarrow> (None, 0))"

definition ogon_write_framebuffer_sync_reply :: message_preparer where
  "ogon_write_framebuffer_sync_reply C A msg =
     (case msg of
        FramebufferSyncReply b \<Rightarrow> prepared C (P_syncReply b)
      | _ \<Rightarrow> Inl WrongMember)"

definition ogon_read_message_reply :: message_reader where
  "ogon_read_message_reply C A s =
     (case unpack C T_messageReply s of
        Some (P_messageReply mid res) \<Rightarrow> (Some (MessageReply mid res), 0)
      | _ \<Rightarrow> (None, 0))"

definition ogon_prepare_message_reply :: message_preparer where
  "ogon_prepare_message_reply C A msg =
     (case msg of
        MessageReply mid res \<Rightarrow> prepared C (P_messageReply mid res)
      | _ \<Rightarrow> Inl WrongMember)"

text \<open>The pointers a message owns.\<close>

definition held :: "'a option \<Rightarrow> nat" where
  "held p = of_bool (p \<noteq> None)"

definition ogon_read_version :: message_reader where
  "ogon_read_version C A s =
     (case unpack C T_versionReply s of
        Some (P_versionReply vmajor vminor None) \<Rightarrow> (Some (Version vmajor vminor None), 0)
      | Some (P_versionReply vmajor vminor (Some cookie)) \<Rightarrow>
          if A 0 then (Some (Version vmajor vminor (Some (strdup cookie))), 1) else (None, 0)
      | _ \<Rightarrow> (None, 0))"

definition ogon_prepare_version :: message_preparer where
  "ogon_prepare_version C A msg =
     (case msg of
        Version vmajor vminor cookie \<Rightarrow> prepared C (P_versionReply vmajor vminor cookie)
      | _ \<Rightarrow> Inl WrongMember)"

definition ogon_free_version :: "ogon_message \<Rightarrow> nat" where
  "ogon_free_version msg = held (m_cookie msg)"

definition ogon_read_sbp_reply :: message_reader where
  "ogon_read_sbp_reply C A s =
     (case unpack C T_sbpReply s of
        Some (P_sbpReply status tag sbptype data) \<Rightarrow>
          if data = [] then (Some (SbpReply sbptype tag status 0 None), 0)
          else if A 0 then (Some (SbpReply sbptype tag status (of_nat (length data)) (Some data)), 1)
          else (None, 0)
      | _ \<Rightarrow> (None, 0))"

definition ogon_prepare_sbp_reply :: message_preparer where
  "ogon_prepare_sbp_reply C A msg =
     (case msg of
        SbpReply sbpType tag status dataLen data \<Rightarrow>
          res_bind (blob dataLen data) (\<lambda>bs. prepared C (P_sbpReply status tag sbpType bs))
      | _ \<Rightarrow> Inl WrongMember)"

definition ogon_sbp_reply_free :: "ogon_message \<Rightarrow> nat" where
  "ogon_sbp_reply_free msg = held (m_data msg)"

definition ogon_read_sbp_request :: message_reader where
  "ogon_read_sbp_request C A s =
     (case unpack C T_sbpRequest s of
        Some (P_sbpRequest sbptype tag data) \<Rightarrow>
          if data = [] then (Some (SbpRequest sbptype tag 0 None), 0)
          else if A 0 then (Some (SbpRequest sbptype tag (of_nat (length data)) (Some data)), 1)
          else (None, 0)
      | _ \<Rightarrow> (None, 0))"

definition ogon_prepare_sbp_request :: message_preparer where
  "ogon_prepare_sbp_request C A msg =
     (case msg of
        SbpRequest sbpType tag dataLen data \<Rightarrow>
          res_bind (blob dataLen data) (\<lambda>bs. prepared C (P_sbpRequest sbpType tag bs))
      | _ \<Rightarrow> Inl WrongMember)"

definition ogon_sbp_request_free :: "ogon_message \<Rightarrow> nat" where
  "ogon_sbp_request_free msg = held (m_data msg)"

text \<open>The parameters of a user message: \<open>ogon_read_string\<close> for each of the first five.\<close>

definition ogon_read_string :: "bool \<Rightarrow> cstring \<Rightarrow> (u32 \<times> cstring option) option" where
  "ogon_read_string ok parameter =
     (if ok then Some (of_nat (length (strdup parameter)), Some (strdup parameter)) else None)"

fun read_parameters ::
    "(nat \<Rightarrow> bool) \<Rightarrow> nat \<Rightarrow> cstring list \<Rightarrow> bool \<times> (u32 \<times> cstring option) list" where
  "read_parameters A i [] = (True, [])"
| "read_parameters A i (p # ps) =
     (case ogon_read_string (A i) p of
        None \<Rightarrow> (False, [])
      | Some q \<Rightarrow> (let (ok, qs) = read_parameters A (Suc i) ps in (ok, q # qs)))"

definition ogon_read_user_message :: message_reader where
  "ogon_read_user_message C A s =
     (case unpack C T_message s of
        Some (P_message messageid messagetype style timeout parameters) \<Rightarrow>
          let parameter_num = of_nat (length parameters) :: u32;
              (ok, qs) = read_parameters A 0 (take (min 5 (unat parameter_num)) parameters)
          in (if ok then Some (UserMessage messageid messagetype style timeout parameter_num
                                 (qs @ replicate (5 - length qs) (0, None)) 0 0) else None,
              length qs)
      | _ \<Rightarrow> (None, 0))"

definition ogon_prepare_user_message :: message_preparer where
  "ogon_prepare_user_message C A msg =
     (case msg of
        UserMessage message_id message_type style timeout parameter_num parameters _ _ \<Rightarrow>
          let target = P_message message_id message_type style timeout in
          if parameter_num = 0 then prepared C (target [])
          else if \<not> A 0 then Inr (-1, target [], 0)
          else let strings = map (\<lambda>i. if i < 5 then snd (parameters ! i) else None) [0..<unat parameter_num] in
               if None \<in> set strings then Inl NullDereference
               else Inr (packed_size C (target (map the strings)), target (map the strings), 1)
      | _ \<Rightarrow> Inl WrongMember)"

definition ogon_unprepare_user_message :: "protobuf_message \<Rightarrow> nat" where
  "ogon_unprepare_user_message target =
     (case target of P_message _ _ _ _ parameters \<Rightarrow> of_bool (parameters \<noteq> []) | _ \<Rightarrow> 0)"

definition ogon_user_message_free :: "ogon_message \<Rightarrow> nat" where
  "ogon_user_message_free msg = sum_list (map (\<lambda>q. held (snd q)) (m_parameters msg))"

text \<open>A mask of a pointer shape; the first component tells whether its allocation was made.\<close>

definition ogon_read_set_pointer :: message_reader where
  "ogon_read_set_pointer C A s =
     (case unpack C T_setPointerShape s of
        Some (P_setPointerShape xpos ypos width height xorbpp andmask xormask clientid) \<Rightarrow>
          let len = (\<lambda>m. case m of None \<Rightarrow> 0 | Some bs \<Rightarrow> of_nat (length bs)) in
          if andmask \<noteq> None \<and> \<not> A 0 then (None, 0)
          else if xormask \<noteq> None \<and> \<not> A (held andmask) then (None, 0)
          else (Some (SetPointer xorbpp xpos ypos width height (len andmask) (len xormask)
                        xormask andmask clientid), held andmask + held xormask)
      | _ \<Rightarrow> (None, 0))"

definition prepare_mask :: "u32 \<Rightarrow> u8 list option \<Rightarrow> protobuf_fault + u8 list option" where
  "prepare_mask len m =
     (if m = None then Inr None else res_bind (blob len m) (\<lambda>bs. Inr (Some bs)))"

definition ogon_prepare_set_pointer :: message_preparer where
  "ogon_prepare_set_pointer C A msg =
     (case msg of
        SetPointer xorBpp xPos yPos width height lengthAndMask lengthXorMask xorMaskData andMaskData clientId \<Rightarrow>
          res_bind (prepare_mask lengthAndMask andMaskData) (\<lambda>andmask.
          res_bind (prepare_mask lengthXorMask xorMaskData) (\<lambda>xormask.
          prepared C (P_setPointerShape xPos yPos width height xorBpp andmask xormask clientId)))
      | _ \<Rightarrow> Inl WrongMember)"

definition ogon_set_pointer_free :: "ogon_message \<Rightarrow> nat" where
  "ogon_set_pointer_free msg = held (m_andMaskData msg) + held (m_xorMaskData msg)"

definition BACKEND_FLAGS_MULTISEAT :: u32 where "BACKEND_FLAGS_MULTISEAT = 1"

definition ogon_read_framebuffer_info :: message_reader where
  "ogon_read_framebuffer_info C A s =
     (case unpack C T_framebufferInfos s of
        Some (P_framebufferInfos version width height scanline bpp bypp userid flags) \<Rightarrow>
          (Some (FramebufferInfo version width height scanline bpp bypp userid
                   (flags AND BACKEND_FLAGS_MULTISEAT \<noteq> 0)), 0)
      | _ \<Rightarrow> (None, 0))"

definition ogon_prepare_framebuffer_info :: message_preparer where
  "ogon_prepare_framebuffer_info C A msg =
     (case msg of
        FramebufferInfo version width height scanline bpp bypp userId multiseatCapable \<Rightarrow>
          prepared C (P_framebufferInfos version width height scanline bpp bypp userId
            (if multiseatCapable then 0 OR BACKEND_FLAGS_MULTISEAT else 0))
      | _ \<Rightarrow> Inl WrongMember)"

section \<open>The message table\<close>

record message_descriptor =
  md_Name :: string
  md_Read :: message_reader
  md_Prepare :: message_preparer
  md_Unprepare :: "(protobuf_message \<Rightarrow> nat) option"
  md_Free :: "(ogon_message \<Rightarrow> nat) option"

definition capabilities_descriptor :: message_descriptor where
  "capabilities_descriptor =
     \<lparr>md_Name = ''capabilities'', md_Read = ogon_read_capabilities,
      md_Prepare = ogon_prepare_capabilities, md_Unprepare = None, md_Free = None\<rparr>"

definition version_descriptor :: message_descriptor where
  "version_descriptor =
     \<lparr>md_Name = ''version'', md_Read = ogon_read_version,
      md_Prepare = ogon_prepare_version, md_Unprepare = None, md_Free = Some ogon_free_version\<rparr>"

definition synchronize_keyboard_descriptor :: message_descriptor where
  "synchronize_keyboard_descriptor =
     \<lparr>md_Name = ''Synchronize keyboard'', md_Read = ogon_read_synchronize_keyboard_event,
      md_Prepare = ogon_prepare_synchronize_keyboard_event, md_Unprepare = None, md_Free = None\<rparr>"

definition scancode_keyboard_descriptor :: message_descriptor where
  "scancode_keyboard_descriptor =
     \<lparr>md_Name = ''Scancode keyboard'', md_Read = ogon_read_scancode_keyboard_event,
      md_Prepare = ogon_prepare_scancode_keyboard_event, md_Unprepare = None, md_Free = None\<rparr>"

definition unicode_keyboard_descriptor :: message_descriptor where
  "unicode_keyboard_descriptor =
     \<lparr>md_Name = ''unicode keyboard'', md_Read = ogon_read_unicode_keyboard_event,
      md_Prepare = ogon_prepare_unicode_keyboard_event, md_Unprepare = None, md_Free = None\<rparr>"

definition mouse_descriptor :: message_descriptor where
  "mouse_descriptor =
     \<lparr>md_Name = ''mouse event'', md_Read = ogon_read_mouse_event,
      md_Prepare = ogon_prepare_mouse_event, md_Unprepare = None, md_Free = None\<rparr>"

definition extended_mouse_descriptor :: message_descriptor where
  "extended_mouse_descriptor =
     \<lparr>md_Name = ''extended mouse event'', md_Read = ogon_read_extended_mouse_event,
      md_Prepare = ogon_prepare_extended_mouse_event, md_Unprepare = None, md_Free = None\<rparr>"

definition framebuffer_sync_request_descriptor :: message_descriptor where
  "framebuffer_sync_request_descriptor =
     \<lparr>md_Name = ''framebuffer sync request'', md_Read = ogon_read_framebuffer_sync_request,
      md_Prepare = ogon_prepare_framebuffer_sync_request, md_Unprepare = None, md_Free = None\<rparr>"

definition sbp_reply_descriptor :: message_descriptor where
  "sbp_reply_descriptor =
     \<lparr>md_Name = ''sbp reply'', md_Read = ogon_read_sbp_reply,
      md_Prepare = ogon_prepare_sbp_reply, md_Unprepare = None, md_Free = Some ogon_sbp_reply_free\<rparr>"

definition immediate_sync_request_descriptor :: message_descriptor where
  "immediate_sync_request_descriptor =
     \<lparr>md_Name = ''framebuffer immediate sync request'', md_Read = ogon_read_framebuffer_sync_request,
      md_Prepare = ogon_prepare_framebuffer_sync_request, md_Unprepare = None, md_Free = None\<rparr>"

definition seat_new_descriptor :: message_descriptor where
  "seat_new_descriptor =
     \<lparr>md_Name = ''new seat announce'', md_Read = ogon_read_seat_new,
      md_Prepare = ogon_prepare_seat_new, md_Unprepare = None, md_Free = None\<rparr>"

definition seat_removed_descriptor :: message_descriptor where
  "seat_removed_descriptor =
     \<lparr>md_Name = ''removed seat announce'', md_Read = ogon_read_seat_removed,
      md_Prepare = ogon_prepare_seat_removed, md_Unprepare = None, md_Free = None\<rparr>"

definition user_message_descriptor :: message_descriptor where
  "user_message_descriptor =
     \<lparr>md_Name = ''Message'', md_Read = ogon_read_user_message,
      md_Prepare = ogon_prepare_user_message, md_Unprepare = Some ogon_unprepare_user_message, md_Free = Some ogon_user_message_free\<rparr>"

definition set_pointer_descriptor :: message_descriptor where
  "set_pointer_descriptor =
     \<lparr>md_Name = ''SetPointer'', md_Read = ogon_read_set_pointer,
      md_Prepare = ogon_prepare_set_pointer, md_Unprepare = None, md_Free = Some ogon_set_pointer_free\<rparr>"

definition set_system_pointer_descriptor :: message_descriptor where
  "set_system_pointer_descriptor =
     \<lparr>md_Name = ''SetSystemPointer'', md_Read = ogon_read_set_system_pointer,
      md_Prepare = ogon_prepare_set_system_pointer, md_Unprepare = None, md_Free = None\<rparr>"

definition framebuffer_info_descriptor :: message_descriptor where
  "framebuffer_info_descriptor =
     \<lparr>md_Name = ''FramebufferInfo'', md_Read = ogon_read_framebuffer_info,
      md_Prepare = ogon_prepare_framebuffer_info, md_Unprepare = None, md_Free = None\<rparr>"

definition beep_descriptor :: message_descriptor where
  "beep_descriptor =
     \<lparr>md_Name = ''Beep'', md_Read = ogon_read_beep,
      md_Prepare = ogon_prepare_beep, md_Unprepare = None, md_Free = None\<rparr>"

definition sbp_request_descriptor :: message_descriptor where
  "sbp_request_descriptor =
     \<lparr>md_Name = ''sbp request'', md_Read = ogon_read_sbp_request,
      md_Prepare = ogon_prepare_sbp_request, md_Unprepare = None, md_Free = Some ogon_sbp_request_free\<rparr>"

definition framebuffer_sync_reply_descriptor :: message_descriptor where
  "framebuffer_sync_reply_descriptor =
     \<lparr>md_Name = ''framebuffer sync reply'', md_Read = ogon_read_framebuffer_sync_reply,
      md_Prepare = ogon_write_framebuffer_sync_reply, md_Unprepare = None, md_Free = None\<rparr>"

definition message_reply_descriptor :: message_descriptor where
  "message_reply_descriptor =
     \<lparr>md_Name = ''message reply'', md_Read = ogon_read_message_reply,
      md_Prepare = ogon_prepare_message_reply, md_Unprepare = None, md_Free = None\<rparr>"

definition messages :: "message_descriptor list" where
  "messages =
     [set_pointer_descriptor,
      framebuffer_info_descriptor,
      beep_descriptor,
      set_system_pointer_descriptor,
      sbp_request_descriptor,
      framebuffer_sync_reply_descriptor,
      message_reply_descriptor,
      version_descriptor,
      capabilities_descriptor,
      synchronize_keyboard_descriptor,
      scancode_keyboard_descriptor,
      unicode_keyboard_descriptor,
      mouse_descriptor,
      extended_mouse_descriptor,
      framebuffer_sync_request_descriptor,
      sbp_reply_descriptor,
      immediate_sync_request_descriptor,
      seat_new_descriptor,
      seat_removed_descriptor,
      user_message_descriptor,
      version_descriptor]"

definition DESCRIPTORS_NB :: nat where
  "DESCRIPTORS_NB = length messages"

definition ogon_message_name :: "u32 \<Rightarrow> string" where
  "ogon_message_name type =
     (if unat type \<ge> DESCRIPTORS_NB then ''<invalid>'' else md_Name (messages ! unat type))"

definition ogon_message_read :: "protobuf \<Rightarrow> (nat \<Rightarrow> bool) \<Rightarrow> u8 list \<Rightarrow> u16 \<Rightarrow> ogon_message option \<times> nat" where
  "ogon_message_read C A s type =
     (if unat type \<ge> DESCRIPTORS_NB then (None, 0) else md_Read (messages ! unat type) C A s)"

definition ogon_message_prepare ::
    "protobuf \<Rightarrow> (nat \<Rightarrow> bool) \<Rightarrow> u16 \<Rightarrow> ogon_message \<Rightarrow> protobuf_fault + int \<times> protobuf_message \<times> nat" where
  "ogon_message_prepare C A type msg =
     (if unat type \<ge> DESCRIPTORS_NB then Inr (-1, P_syncReply 0, 0)
      else md_Prepare (messages ! unat type) C A msg)"

text \<open>
  Writing to a stream that holds the bytes \<open>s\<close>: header and packed message. \<open>grow\<close> tells whether
  the stream has or gets the capacity asked for.
\<close>

definition ogon_message_write ::
    "wire \<Rightarrow> protobuf \<Rightarrow> (nat \<Rightarrow> bool) \<Rightarrow> u8 list \<Rightarrow> u16 \<Rightarrow> int \<Rightarrow> protobuf_message \<Rightarrow> bool \<times> u8 list" where
  "ogon_message_write W C grow s type len encoded =
     (if \<not> grow (nat (2 + 4 + len)) then (False, s)
      else (True, s @ wr16 W type @ wr32 W (of_int len) @ pack C encoded))"

definition ogon_message_unprepare :: "u16 \<Rightarrow> protobuf_message \<Rightarrow> nat" where
  "ogon_message_unprepare type encoded =
     (if unat type \<ge> DESCRIPTORS_NB then 0
      else case md_Unprepare (messages ! unat type) of None \<Rightarrow> 0 | Some f \<Rightarrow> f encoded)"

definition ogon_message_free :: "u16 \<Rightarrow> ogon_message \<Rightarrow> bool \<Rightarrow> nat" where
  "ogon_message_free type msg onlyInnerData =
     (if unat type \<ge> DESCRIPTORS_NB then 0
      else (case md_Free (messages ! unat type) of None \<Rightarrow> 0 | Some f \<Rightarrow> f msg) +
           (if onlyInnerData then 0 else 1))"

definition RDS_ORDER_HEADER_LENGTH :: nat where "RDS_ORDER_HEADER_LENGTH = 6"

text \<open>The result, the stream, and the number of blocks that are still live.\<close>

definition ogon_message_send ::
    "wire \<Rightarrow> protobuf \<Rightarrow> (nat \<Rightarrow> bool) \<Rightarrow> (nat \<Rightarrow> bool) \<Rightarrow> u8 list \<Rightarrow> u16 \<Rightarrow> ogon_message \<Rightarrow>
     protobuf_fault + bool \<times> u8 list \<times> nat" where
  "ogon_message_send W C A grow s type msg =
     res_bind (ogon_message_prepare C A type msg) (\<lambda>(len, proto, live).
       if len < 0 then Inr (False, s, live)
       else let (ok, s) = (if \<not> grow (RDS_ORDER_HEADER_LENGTH + nat len) then (False, s)
                           else ogon_message_write W C grow s type len proto)
            in Inr (ok, s, live - ogon_message_unprepare type proto))"

definition ogon_read_message_header :: "wire \<Rightarrow> u8 list \<Rightarrow> (u16 \<times> u32) rd" where
  "ogon_read_message_header W s =
     res_bind (rd_u16 W s 0) (\<lambda>(type, pos). res_bind (rd_u32 W s pos) (\<lambda>(len, pos). Inr (type, len)))"

end
