(* ===== verification/Framing.thy ===== *)
theory Framing
  imports Backend_Messages
begin

text \<open>
  Frames of a header and a payload on a pipe, read in pieces the pipe chooses: the abstract reader
  and, as a locale, what a reader of the code has to satisfy to be an implementation of it.
\<close>

section \<open>Framing\<close>

text \<open>
  Both sides read frames of a header (type and length) and a payload, with as many \<open>ReadFile\<close>
  calls as the pipe makes necessary. The abstract reader: the bytes of the header so far, or the
  header and the bytes of the payload so far.
\<close>

datatype frame_state = Header "u8 list" | Body u16 u32 "u8 list"

fun frame_needs :: "frame_state \<Rightarrow> nat" where
  "frame_needs (Header b) = RDS_ORDER_HEADER_LENGTH - length b"
| "frame_needs (Body type len b) = unat len - length b"

fun frame_ok :: "frame_state \<Rightarrow> bool" where
  "frame_ok (Header b) = (length b < RDS_ORDER_HEADER_LENGTH)"
| "frame_ok (Body type len b) = (length b < unat len)"

fun frame_step :: "wire \<Rightarrow> (nat \<Rightarrow> bool) \<Rightarrow> frame_state \<Rightarrow> u8 list \<Rightarrow> (frame_state \<times> (u16 \<times> u8 list) option) option" where
  "frame_step W grow (Header b) bs =
     (let b = b @ bs; type = rd16 W b; len = rd32 W (drop 2 b) in
      if length b < RDS_ORDER_HEADER_LENGTH then Some (Header b, None)
      else if len = 0 then Some (Header [], Some (type, []))
      else if grow (unat len) then Some (Body type len [], None) else None)"
| "frame_step W grow (Body type len b) bs =
     (let b = b @ bs in
      if length b < unat len then Some (Body type len b, None) else Some (Header [], Some (type, b)))"

text \<open>A frame is given to its handler, which changes the rest of the state or fails.\<close>

definition frame_input ::
    "wire \<Rightarrow> (nat \<Rightarrow> bool) \<Rightarrow> (u16 \<times> u8 list \<Rightarrow> 'r \<Rightarrow> ('r \<times> 'e list) option) \<Rightarrow>
     frame_state \<times> 'r \<Rightarrow> u8 list \<Rightarrow> ((frame_state \<times> 'r) \<times> 'e list) option" where
  "frame_input W grow handle sr bs =
     (case frame_step W grow (fst sr) bs of
        None \<Rightarrow> None
      | Some (st, None) \<Rightarrow> Some ((st, snd sr), [])
      | Some (st, Some fr) \<Rightarrow>
          (case handle fr (snd sr) of None \<Rightarrow> None | Some (r, evs) \<Rightarrow> Some ((st, r), evs)))"

text \<open>
  Reading what is in the pipe: every \<open>ReadFile\<close> returns at least one and at most the number of bytes
  asked for; \<open>ns\<close> are the numbers it chooses.
\<close>

fun pump ::
    "('s \<Rightarrow> nat) \<Rightarrow> ('s \<Rightarrow> u8 list \<Rightarrow> ('s \<times> 'e list) option) \<Rightarrow> 's \<Rightarrow> u8 list \<Rightarrow> nat list \<Rightarrow>
     ('s \<times> 'e list) option" where
  "pump needs inp s [] ns = Some (s, [])"
| "pump needs inp s (b # bs) [] = None"
| "pump needs inp s (b # bs) (n # ns) =
     (let k = min (max 1 n) (needs s) in
      case inp s (take k (b # bs)) of
        None \<Rightarrow> None
      | Some (s, evs) \<Rightarrow>
          map_option (\<lambda>(s, evs'). (s, evs @ evs')) (pump needs inp s (drop k (b # bs)) ns))"

definition frame_bytes :: "wire \<Rightarrow> u16 \<times> u8 list \<Rightarrow> u8 list" where
  "frame_bytes W fr = wr16 W (fst fr) @ wr32 W (of_nat (length (snd fr))) @ snd fr"

fun handle_all ::
    "('f \<Rightarrow> 'r \<Rightarrow> ('r \<times> 'e list) option) \<Rightarrow> 'f list \<Rightarrow> 'r \<Rightarrow> ('r \<times> 'e list) option" where
  "handle_all handle [] r = Some (r, [])"
| "handle_all handle (f # fs) r =
     (case handle f r of
        None \<Rightarrow> None
      | Some (r, evs) \<Rightarrow> map_option (\<lambda>(r, evs'). (r, evs @ evs')) (handle_all handle fs r))"

abbreviation frame_pump where
  "frame_pump W grow handle \<equiv> pump (\<lambda>sr. frame_needs (fst sr)) (frame_input W grow handle)"

fun feed :: "('s \<Rightarrow> u8 list \<Rightarrow> ('s \<times> 'e list) option) \<Rightarrow> 's \<Rightarrow> u8 list list \<Rightarrow> ('s \<times> 'e list) option" where
  "feed inp s [] = Some (s, [])"
| "feed inp s (c # cs) =
     (case inp s c of
        None \<Rightarrow> None
      | Some (s, evs) \<Rightarrow> map_option (\<lambda>(s, evs'). (s, evs @ evs')) (feed inp s cs))"

fun reads_ok :: "('s \<Rightarrow> nat) \<Rightarrow> ('s \<Rightarrow> u8 list \<Rightarrow> ('s \<times> 'e list) option) \<Rightarrow> 's \<Rightarrow> u8 list list \<Rightarrow> bool" where
  "reads_ok needs inp s [] = True"
| "reads_ok needs inp s (c # cs) =
     (c \<noteq> [] \<and> length c \<le> needs s \<and>
      (case inp s c of None \<Rightarrow> True | Some (s, evs) \<Rightarrow> reads_ok needs inp s cs))"

section \<open>Reading frames\<close>

lemma pump_step:
  assumes "bs \<noteq> []" "k = min (max 1 n) (needs s)"
  shows "pump needs inp s bs (n # ns) =
    (case inp s (take k bs) of
        None \<Rightarrow> None
      | Some (s, evs) \<Rightarrow> map_option (\<lambda>(s, evs'). (s, evs @ evs')) (pump needs inp s (drop k bs) ns))"
proof -
  obtain a l where bs: "bs = a # l" using assms(1) by (cases bs) auto
  show ?thesis unfolding bs assms(2) pump.simps Let_def by (rule refl)
qed

lemma frame_input_part:
  "frame_step W grow st bs = Some (st', None) \<Longrightarrow> frame_input W grow handle (st, r) bs = Some ((st', r), [])"
  by (simp add: frame_input_def)

lemma frame_input_full:
  "frame_step W grow st bs = Some (st', Some fr) \<Longrightarrow> frame_input W grow handle (st, r) bs =
     (case handle fr r of None \<Rightarrow> None | Some (r, evs) \<Rightarrow> Some ((st', r), evs))"
  by (simp add: frame_input_def)

lemma pump_part:
  assumes "bs \<noteq> []" "k = min (max 1 n) (frame_needs st)" "frame_step W grow st (take k bs) = Some (st', None)"
  shows "frame_pump W grow handle (st, r) bs (n # ns) = frame_pump W grow handle (st', r) (drop k bs) ns"
  unfolding pump_step [OF assms(1), of k n "\<lambda>sr. frame_needs (fst sr)" "(st, r)", unfolded fst_conv, OF assms(2)]
    frame_input_part [OF assms(3)] by (simp add: option.map_id)

lemma pump_full:
  assumes "bs \<noteq> []" "k = min (max 1 n) (frame_needs st)" "frame_step W grow st (take k bs) = Some (st', Some fr)"
  shows "frame_pump W grow handle (st, r) bs (n # ns) =
    (case handle fr r of
       None \<Rightarrow> None
     | Some (r, evs) \<Rightarrow> map_option (\<lambda>(s, evs'). (s, evs @ evs')) (frame_pump W grow handle (st', r) (drop k bs) ns))"
  unfolding pump_step [OF assms(1), of k n "\<lambda>sr. frame_needs (fst sr)" "(st, r)", unfolded fst_conv, OF assms(2)]
    frame_input_full [OF assms(3)] by (simp split: option.split)

text \<open>The rest of the payload, in any pieces, completes the frame.\<close>

lemma pump_body:
  assumes "length b < unat len" "length (b @ bs) = unat len" "length (bs @ rest) \<le> length ns"
  shows "\<exists>ns'. length rest \<le> length ns' \<and>
    frame_pump W grow handle (Body t len b, r) (bs @ rest) ns =
      (case handle (t, b @ bs) r of
         None \<Rightarrow> None
       | Some (r, evs) \<Rightarrow> map_option (\<lambda>(s, evs'). (s, evs @ evs')) (frame_pump W grow handle (Header [], r) rest ns'))"
  using assms
proof (induction "length bs" arbitrary: b bs ns rule: less_induct)
  case less
  then have bs: "bs \<noteq> []" by auto
  then obtain n ns1 where ns: "ns = n # ns1" using less.prems(3) by (cases ns) auto
  define k where "k = min (max 1 n) (frame_needs (Body t len b))"
  have k: "1 \<le> k" "k \<le> length bs" using less.prems(1,2) by (auto simp: k_def)
  have td: "take k (bs @ rest) = take k bs" "drop k (bs @ rest) = drop k bs @ rest" using k by simp_all
  show ?case
  proof (cases "k = length bs")
    case True
    have "frame_step W grow (Body t len b) (take k (bs @ rest)) = Some (Header [], Some (t, b @ bs))"
      using True td less.prems(2) by (simp add: Let_def)
    note full = pump_full [OF _ k_def this, of handle r ns1]
    have "length rest \<le> length ns1" using less.prems(3) ns bs by (cases bs) simp_all
    moreover have "drop k (bs @ rest) = rest" using True by simp
    ultimately show ?thesis using full bs ns by (intro exI [of _ ns1]) (simp only: append_is_Nil_conv, simp)
  next
    case False
    then have lt: "k < length bs" using k by simp
    have "frame_step W grow (Body t len b) (take k (bs @ rest)) = Some (Body t len (b @ take k bs), None)"
      using lt td less.prems(2) by (simp add: Let_def)
    note part = pump_part [OF _ k_def this, of handle r ns1]
    have "length (drop k bs) < length bs" "length (b @ take k bs) < unat len"
      "length ((b @ take k bs) @ drop k bs) = unat len" "length (drop k bs @ rest) \<le> length ns1"
      using k lt less.prems ns by simp_all
    then show ?thesis
      using less.hyps [of "drop k bs" "b @ take k bs" ns1] part bs ns td by simp
  qed
qed

context wire_format
begin

lemma header_read:
  assumes "b = wr16 W t @ wr32 W len"
  shows "length b = 6" "rd16 W b = t" "rd32 W (drop 2 b) = len"
  using read32 [of len "[]"] by (simp_all add: assms len16 len32 read16)

lemma pump_header:
  assumes "length b < 6" "b @ bs = wr16 W t @ wr32 W (of_nat (length p))" "length p < 2 ^ 32"
    "length (bs @ p @ rest) \<le> length ns" "\<And>n. grow n"
  shows "\<exists>ns'. length rest \<le> length ns' \<and>
    frame_pump W grow handle (Header b, r) (bs @ p @ rest) ns =
      (case handle (t, p) r of
         None \<Rightarrow> None
       | Some (r, evs) \<Rightarrow> map_option (\<lambda>(s, evs'). (s, evs @ evs')) (frame_pump W grow handle (Header [], r) rest ns'))"
  using assms(1,2,4)
proof (induction "length bs" arbitrary: b bs ns rule: less_induct)
  case less
  let ?len = "of_nat (length p) :: u32"
  note hdr = header_read [OF less.prems(2)]
  have len6: "length b + length bs = 6" using hdr(1) by simp
  have bs: "bs \<noteq> []" using len6 less.prems(1) by auto
  then obtain n ns1 where ns: "ns = n # ns1" using less.prems(3) by (cases ns) auto
  define k where "k = min (max 1 n) (frame_needs (Header b))"
  have k: "1 \<le> k" "k \<le> length bs"
    using less.prems(1) len6 by (auto simp: k_def RDS_ORDER_HEADER_LENGTH_def)
  have td: "take k (bs @ p @ rest) = take k bs" "drop k (bs @ p @ rest) = drop k bs @ p @ rest" using k by simp_all
  have ns1: "length (drop k bs @ p @ rest) \<le> length ns1" using less.prems(3) ns k by simp
  have plen: "unat ?len = length p" using assms(3) by (rule unat_of_nat_u32)
  show ?case
  proof (cases "k = length bs")
    case False
    then have lt: "k < length bs" using k by simp
    have "frame_step W grow (Header b) (take k (bs @ p @ rest)) = Some (Header (b @ take k bs), None)"
      using lt td len6 by (simp add: Let_def RDS_ORDER_HEADER_LENGTH_def)
    note part = pump_part [OF _ k_def this, of handle r ns1]
    have "length (drop k bs) < length bs" "length (b @ take k bs) < 6"
      "(b @ take k bs) @ drop k bs = wr16 W t @ wr32 W (of_nat (length p))"
      using k lt len6 less.prems(2) by simp_all
    then show ?thesis using less.hyps [of "drop k bs" "b @ take k bs" ns1] ns1 part bs ns td by simp
  next
    case all: True
    show ?thesis
    proof (cases "p = []")
      case True
      have "frame_step W grow (Header b) (take k (bs @ p @ rest)) = Some (Header [], Some (t, p))"
        using all td hdr True by (simp add: Let_def RDS_ORDER_HEADER_LENGTH_def)
      note full = pump_full [OF _ k_def this, of handle r ns1]
      moreover have "drop k (bs @ p @ rest) = rest" using all True by simp
      ultimately show ?thesis using bs all ns ns1 by (intro exI [of _ ns1]) (simp only: append_is_Nil_conv, simp)
    next
      case False
      then have "?len \<noteq> 0" using plen by auto
      then have "frame_step W grow (Header b) (take k (bs @ p @ rest)) = Some (Body t ?len [], None)"
        using all td hdr assms(5) by (simp add: Let_def RDS_ORDER_HEADER_LENGTH_def)
      note part = pump_part [OF _ k_def this, of handle r ns1]
      then show ?thesis
        using pump_body [of "[]" ?len p rest ns1 W grow handle t r] False plen ns1 bs all ns by simp
    qed
  qed
qed

text \<open>
  A pipe that holds whole frames is read to its end: every frame is handled once, in order, however
  the bytes come.
\<close>

lemma pump_frames:
  assumes "\<And>fr. fr \<in> set frs \<Longrightarrow> length (snd fr) < 2 ^ 32" "\<And>n. grow n"
    "length (concat (map (frame_bytes W) frs)) \<le> length ns"
  shows "frame_pump W grow handle (Header [], r) (concat (map (frame_bytes W) frs)) ns =
    map_option (\<lambda>(r, evs). ((Header [], r), evs)) (handle_all handle frs r)"
  using assms(1,3)
proof (induction frs arbitrary: r ns)
  case (Cons fr frs)
  obtain t p where fr: "fr = (t, p)" by (rule prod.exhaust)
  let ?rest = "concat (map (frame_bytes W) frs)"
  let ?h = "wr16 W t @ wr32 W (of_nat (length p))"
  have bytes: "concat (map (frame_bytes W) (fr # frs)) = ?h @ p @ ?rest"
    by (simp add: fr frame_bytes_def)
  have "length (snd fr) < 2 ^ 32" using Cons.prems(1) by simp
  then obtain ns' where ns': "length ?rest \<le> length ns'"
    "frame_pump W grow handle (Header [], r) (?h @ p @ ?rest) ns =
      (case handle (t, p) r of
         None \<Rightarrow> None
       | Some (r, evs) \<Rightarrow> map_option (\<lambda>(s, evs'). (s, evs @ evs')) (frame_pump W grow handle (Header [], r) ?rest ns'))"
    using pump_header [of "[]" ?h t p ?rest ns grow handle r] assms(2) Cons.prems(2) fr bytes by auto
  have "frame_pump W grow handle (Header [], r') ?rest ns' =
      map_option (\<lambda>(r, evs). ((Header [], r), evs)) (handle_all handle frs r')" for r'
    by (rule Cons.IH) (use Cons.prems(1) ns'(1) in auto)
  then show ?case unfolding bytes ns'(2)
    by (auto simp: fr option.map_comp o_def case_prod_unfold split: option.split)
qed simp

end

locale framed_reader =
  fixes W :: wire and grow :: "nat \<Rightarrow> bool"
    and inv :: "'s \<Rightarrow> bool" and view :: "'s \<Rightarrow> frame_state" and rest :: "'s \<Rightarrow> 'r"
    and needs :: "'s \<Rightarrow> nat" and inp :: "'s \<Rightarrow> u8 list \<Rightarrow> ('s \<times> 'e list) option"
    and handle :: "u16 \<times> u8 list \<Rightarrow> 'r \<Rightarrow> ('r \<times> 'e list) option"
  assumes needs_view: "inv s \<Longrightarrow> needs s = frame_needs (view s)"
    and ok_view: "inv s \<Longrightarrow> frame_ok (view s)"
    and input_view: "inv s \<Longrightarrow> bs \<noteq> [] \<Longrightarrow> length bs \<le> needs s \<Longrightarrow>
      map_option (\<lambda>(s, evs). ((view s, rest s), evs)) (inp s bs) =
      frame_input W grow handle (view s, rest s) bs"
    and input_inv: "inv s \<Longrightarrow> bs \<noteq> [] \<Longrightarrow> length bs \<le> needs s \<Longrightarrow> inp s bs = Some (s', evs) \<Longrightarrow> inv s'"
begin

lemma needs_pos: "inv s \<Longrightarrow> 0 < needs s"
  using needs_view [of s] ok_view [of s] by (cases "view s") auto

lemma pump_view:
  assumes "inv s"
  shows "map_option (\<lambda>(s, evs). ((view s, rest s), evs)) (pump needs inp s bs ns) =
    frame_pump W grow handle (view s, rest s) bs ns"
  using assms
proof (induction ns arbitrary: s bs)
  case Nil
  then show ?case by (cases bs) simp_all
next
  case (Cons n ns)
  show ?case
  proof (cases "bs = []")
    case False
    define k where "k = min (max 1 n) (needs s)"
    have legal: "take k bs \<noteq> []" "length (take k bs) \<le> needs s"
      using False needs_pos [OF Cons.prems] by (auto simp: k_def)
    have k: "k = min (max 1 n) (frame_needs (fst (view s, rest s)))"
      using needs_view [OF Cons.prems] by (simp add: k_def)
    note step = pump_step [where s = s and needs = needs and inp = inp and ns = ns, OF False k_def]
      pump_step [where s = "(view s, rest s)" and needs = "\<lambda>sr. frame_needs (fst sr)" and
        inp = "frame_input W grow handle" and ns = ns, OF False k]
    note eq = input_view [OF Cons.prems legal]
    show ?thesis
    proof (cases "inp s (take k bs)")
      case None
      then have "frame_input W grow handle (view s, rest s) (take k bs) = None" using eq by simp
      then show ?thesis using None
        by (simp add: step)
    next
      case (Some se)
      obtain s' evs where se: "se = (s', evs)" by (rule prod.exhaust)
      have "frame_input W grow handle (view s, rest s) (take k bs) = Some ((view s', rest s'), evs)"
        using eq Some se by simp
      moreover have "inv s'" using input_inv [OF Cons.prems legal] Some se by simp
      from Cons.IH [OF this, of "drop k bs", symmetric] show ?thesis
        using calculation Some se
        by (simp add: step option.map_comp o_def case_prod_unfold)
    qed
  qed simp
qed

end

lemma feed_pump:
  assumes "reads_ok needs inp s cs"
  shows "feed inp s cs = pump needs inp s (concat cs) (map length cs @ ns)"
  using assms
proof (induction cs arbitrary: s)
  case (Cons c cs)
  have c: "c \<noteq> []" "length c \<le> needs s" using Cons.prems by simp_all
  have k: "length c = min (max 1 (length c)) (needs s)" using c by (cases c) auto
  have step: "pump needs inp s (c @ concat cs) (length c # map length cs @ ns) =
    (case inp s c of
       None \<Rightarrow> None
     | Some (s, evs) \<Rightarrow> map_option (\<lambda>(s, evs'). (s, evs @ evs')) (pump needs inp s (concat cs) (map length cs @ ns)))"
    using pump_step [of "c @ concat cs" "length c" "length c" needs s inp "map length cs @ ns", OF _ k] c(1)
    unfolding append_eq_conv_conj [THEN iffD1, OF refl, THEN conjunct2, symmetric] by simp
  show ?case using Cons step by (auto split: option.split)
qed simp

context framed_reader
begin

lemma feed_frames:
  assumes "wire_format W" "inv s" "view s = Header []" "reads_ok needs inp s cs"
    "concat cs = concat (map (frame_bytes W) frs)"
    "\<And>fr. fr \<in> set frs \<Longrightarrow> length (snd fr) < 2 ^ 32" "\<And>n. grow n"
  shows "map_option (\<lambda>(s, evs). ((view s, rest s), evs)) (feed inp s cs) =
    map_option (\<lambda>(r, evs). ((Header [], r), evs)) (handle_all handle frs (rest s))"
proof -
  define ns where "ns = map length cs @ replicate (length (concat cs)) 0"
  have "map_option (\<lambda>(s, evs). ((view s, rest s), evs)) (feed inp s cs) =
      frame_pump W grow handle (Header [], rest s) (concat cs) ns"
    unfolding feed_pump [OF assms(4), of "replicate (length (concat cs)) 0"] pump_view [OF assms(2)] assms(3) ns_def
    by (rule refl)
  also have "\<dots> = map_option (\<lambda>(r, evs). ((Header [], r), evs)) (handle_all handle frs (rest s))"
    unfolding assms(5)
    by (rule wire_format.pump_frames [OF assms(1)]) (use assms(5,6,7) in \<open>simp_all add: ns_def\<close>)
  finally show ?thesis .
qed

end


end
