(* ===== verification/Backend_Link.thy ===== *)
theory Backend_Link
  imports Backend_Messages
begin

text \<open>
  The two ends of the pipe between the server and a backend: \<open>backend/service.c\<close> and
  \<open>backend/transport.c\<close> on the side of the backend, and the transport part of
  \<open>rdp-server/backend.c\<close> on the side of the server.
\<close>

section \<open>The backend's side: \<open>backend/service.c\<close>\<close>

type_synonym pipe_handle = nat

record ogon_backend_service =
  svc_serverPipe :: "pipe_handle option"
  svc_remotePipe :: "pipe_handle option"
  svc_inStream :: "u8 list"
  svc_outStream :: "u8 list"
  svc_waitingHeaders :: bool
  svc_expectedBytes :: u32
  svc_messageType :: u16

text \<open>
  What the calls of the outside return: allocations when reading and preparing a message, growing a
  stream, the client's callbacks (\<open>TRUE\<close> if not set), the cookie in the environment, and the result
  and the number of bytes written of each \<open>WriteFile\<close>.
\<close>

record service_env =
  se_alloc :: "nat \<Rightarrow> bool"
  se_calloc :: "nat \<Rightarrow> bool"
  se_grow :: "nat \<Rightarrow> bool"
  se_client :: "u16 \<Rightarrow> ogon_message \<Rightarrow> bool"
  se_cookie :: "cstring option"
  se_writes :: "(bool \<times> nat) list"

text \<open>\<open>StillWriting\<close>: a write loop has not ended after the \<open>WriteFile\<close> calls that are given.\<close>

datatype link_error = HeaderOutOfBounds | BadMessage protobuf_fault | StillWriting

datatype pipe_read = NoData | BrokenPipe | ReadBytes "u8 list"

datatype ogon_incoming_bytes_result =
    INCOMING_BYTES_OK | INCOMING_BYTES_BROKEN_PIPE | INCOMING_BYTES_INVALID_MESSAGE | INCOMING_BYTES_WANT_MORE_DATA

datatype service_event = ClientCall u16 ogon_message | PipeWrite "u8 list"

definition OGON_PROTOCOL_VERSION_MAJOR :: u32 where "OGON_PROTOCOL_VERSION_MAJOR = 1"
definition OGON_PROTOCOL_VERSION_MINOR :: u32 where "OGON_PROTOCOL_VERSION_MINOR = 1"

definition ogon_service_new :: "bool \<Rightarrow> bool \<Rightarrow> bool \<Rightarrow> bool \<Rightarrow> ogon_backend_service option" where
  "ogon_service_new calloc_ok strdup_ok in_ok out_ok =
     (if calloc_ok \<and> strdup_ok \<and> in_ok \<and> out_ok
      then Some \<lparr>svc_serverPipe = None, svc_remotePipe = None, svc_inStream = [], svc_outStream = [],
                 svc_waitingHeaders = True, svc_expectedBytes = of_nat RDS_ORDER_HEADER_LENGTH,
                 svc_messageType = 0\<rparr>
      else None)"

text \<open>The write loop: the result and the bytes sent; \<open>None\<close> while it is still running.\<close>

fun write_pipe :: "u8 list \<Rightarrow> (bool \<times> nat) list \<Rightarrow> (bool \<times> u8 list) option" where
  "write_pipe [] ws = Some (True, [])"
| "write_pipe (b # bs) [] = None"
| "write_pipe (b # bs) ((ok, written) # ws) =
     (if \<not> ok then Some (False, [])
      else map_option (\<lambda>(r, sent). (r, take written (b # bs) @ sent)) (write_pipe (drop written (b # bs)) ws))"

definition ogon_service_write_message ::
    "wire \<Rightarrow> protobuf \<Rightarrow> service_env \<Rightarrow> ogon_backend_service \<Rightarrow> u16 \<Rightarrow> ogon_message \<Rightarrow>
     link_error + bool \<times> ogon_backend_service \<times> u8 list" where
  "ogon_service_write_message W C E s type msg =
     (case ogon_message_prepare C (se_calloc E) type msg of
        Inl f \<Rightarrow> Inl (BadMessage f)
      | Inr (len, encoded, live) \<Rightarrow>
          if len < 0 then Inr (False, s, [])
          else let (ok, out) = ogon_message_write W C (se_grow E) (svc_outStream s) type len encoded in
               if \<not> ok then Inr (False, s, [])
               else (case write_pipe out (se_writes E) of
                       None \<Rightarrow> Inl StillWriting
                     | Some (True, sent) \<Rightarrow> Inr (True, s\<lparr>svc_outStream := []\<rparr>, sent)
                     | Some (False, sent) \<Rightarrow> Inr (False, s\<lparr>svc_outStream := out\<rparr>, sent)))"

text \<open>The dispatch of a message that was read: success, the service, and the calls made.\<close>

definition service_dispatch ::
    "wire \<Rightarrow> protobuf \<Rightarrow> service_env \<Rightarrow> u16 \<Rightarrow> ogon_message \<Rightarrow> ogon_backend_service \<Rightarrow>
     link_error + bool \<times> ogon_backend_service \<times> service_event list" where
  "service_dispatch W C E type msg s =
     (if 8 \<le> type \<and> type \<le> 19 then Inr (se_client E type msg, s, [ClientCall type msg])
      else if type = 20
      then (case ogon_service_write_message W C E s 7
                   (Version OGON_PROTOCOL_VERSION_MAJOR OGON_PROTOCOL_VERSION_MINOR (se_cookie E)) of
              Inl e \<Rightarrow> Inl e
            | Inr (ok, s, sent) \<Rightarrow>
                Inr (ok \<and> m_versionMajor msg = OGON_PROTOCOL_VERSION_MAJOR, s, [PipeWrite sent]))
      else Inr (False, s, []))"

text \<open>A whole message: reading it, the dispatch, and freeing it.\<close>

definition service_treat ::
    "wire \<Rightarrow> protobuf \<Rightarrow> service_env \<Rightarrow> u16 \<times> u8 list \<Rightarrow> ogon_backend_service \<Rightarrow>
     link_error + bool \<times> ogon_backend_service \<times> service_event list" where
  "service_treat W C E fr s =
     (case ogon_message_read C (se_alloc E) (snd fr) (fst fr) of
        (None, _) \<Rightarrow> Inr (False, s, [])
      | (Some msg, _) \<Rightarrow> service_dispatch W C E (fst fr) msg s)"

text \<open>The end of a message: it is treated, and the next header is awaited if that succeeds.\<close>

definition service_finish ::
    "wire \<Rightarrow> protobuf \<Rightarrow> service_env \<Rightarrow> ogon_backend_service \<Rightarrow>
     link_error + ogon_incoming_bytes_result \<times> ogon_backend_service \<times> service_event list" where
  "service_finish W C E s =
     (case service_treat W C E (svc_messageType s, svc_inStream s) s of
        Inl e \<Rightarrow> Inl e
      | Inr (ok, s, evs) \<Rightarrow>
          if \<not> ok then Inr (INCOMING_BYTES_INVALID_MESSAGE, s, evs)
          else Inr (INCOMING_BYTES_OK,
                    s\<lparr>svc_inStream := [], svc_expectedBytes := of_nat RDS_ORDER_HEADER_LENGTH,
                      svc_waitingHeaders := True\<rparr>, evs))"

definition ogon_service_incoming_bytes ::
    "wire \<Rightarrow> protobuf \<Rightarrow> service_env \<Rightarrow> ogon_backend_service \<Rightarrow> pipe_read \<Rightarrow>
     link_error + ogon_incoming_bytes_result \<times> ogon_backend_service \<times> service_event list" where
  "ogon_service_incoming_bytes W C E s rd =
     (case rd of
        NoData \<Rightarrow> Inr (INCOMING_BYTES_WANT_MORE_DATA, s, [])
      | BrokenPipe \<Rightarrow> Inr (INCOMING_BYTES_BROKEN_PIPE, s, [])
      | ReadBytes bs \<Rightarrow>
          let s = s\<lparr>svc_inStream := svc_inStream s @ bs,
                    svc_expectedBytes := svc_expectedBytes s - of_nat (length bs)\<rparr> in
          if svc_expectedBytes s \<noteq> 0 then Inr (INCOMING_BYTES_OK, s, [])
          else if svc_waitingHeaders s
          then (case ogon_read_message_header W (svc_inStream s) of
                  Inl _ \<Rightarrow> Inl HeaderOutOfBounds
                | Inr (type, len) \<Rightarrow>
                    let s = s\<lparr>svc_messageType := type, svc_expectedBytes := len, svc_inStream := []\<rparr> in
                    if len \<noteq> 0
                    then if \<not> se_grow E (unat len) then Inr (INCOMING_BYTES_INVALID_MESSAGE, s, [])
                         else Inr (INCOMING_BYTES_OK, s\<lparr>svc_waitingHeaders := False\<rparr>, [])
                    else service_finish W C E s)
          else service_finish W C E s)"

datatype pipe_event = ClosePipe pipe_handle | DisconnectPipe pipe_handle

definition ogon_service_kill_client :: "ogon_backend_service \<Rightarrow> ogon_backend_service \<times> pipe_event list" where
  "ogon_service_kill_client s =
     (case svc_remotePipe s of
        None \<Rightarrow> (s, [])
      | Some h \<Rightarrow> (s\<lparr>svc_remotePipe := None, svc_inStream := [], svc_outStream := [],
                     svc_expectedBytes := of_nat RDS_ORDER_HEADER_LENGTH, svc_waitingHeaders := True\<rparr>,
                   [DisconnectPipe h]))"

text \<open>Peer credentials: what the socket reports, None if it reports nothing.\<close>

definition ogon_check_pid_and_uid ::
    "(int option \<times> int option) option \<Rightarrow> bool \<Rightarrow> int \<Rightarrow> bool \<Rightarrow> int \<Rightarrow> bool" where
  "ogon_check_pid_and_uid creds checkUid targetUid checkPid targetPid =
     (case creds of
        None \<Rightarrow> False
      | Some (uid, pid) \<Rightarrow>
          if uid \<noteq> None \<and> checkUid \<and> targetUid \<noteq> the uid then False
          else if pid \<noteq> None \<and> checkPid \<and> targetPid \<noteq> the pid then False
          else True)"

text \<open>An environment variable with a number: not set, not a number, or its value.\<close>

datatype env_number = EnvUnset | EnvInvalid | EnvNumber int

fun env_value :: "env_number \<Rightarrow> int" where
  "env_value (EnvNumber n) = n"
| "env_value _ = 0"

definition is_number :: "env_number \<Rightarrow> bool" where
  "is_number v = (case v of EnvNumber _ \<Rightarrow> True | _ \<Rightarrow> False)"

definition ogon_check_peer_credentials ::
    "env_number \<Rightarrow> env_number \<Rightarrow> (int option \<times> int option) option \<Rightarrow> bool" where
  "ogon_check_peer_credentials OGON_PID OGON_UID creds =
     (if \<not> is_number OGON_PID \<and> \<not> is_number OGON_UID then True
      else ogon_check_pid_and_uid creds (is_number OGON_UID) (env_value OGON_UID)
             (is_number OGON_PID) (env_value OGON_PID))"

text \<open>
  \<open>backend/transport.c\<close>: the name of an endpoint's pipe (\<open>sprintf_s\<close> cuts it to the buffer), and the
  pipe calls with what WinPR returns.
\<close>

fun decimal :: "nat \<Rightarrow> string" where
  "decimal n = (if n < 10 then [char_of (48 + n)] else decimal (n div 10) @ [char_of (48 + n mod 10)])"

declare decimal.simps [simp del]

definition ogon_named_pipe_get_endpoint_name :: "u32 \<Rightarrow> string \<Rightarrow> nat \<Rightarrow> string" where
  "ogon_named_pipe_get_endpoint_name i endpoint len =
     take (len - 1) ([char_of (92 :: nat), char_of (92 :: nat), CHR ''.'', char_of (92 :: nat)] @ ''pipe'' @
                     [char_of (92 :: nat)] @ ''ogon_'' @ decimal (unat i) @ ''_'' @ endpoint)"

definition ogon_named_pipe_clean :: "string option \<Rightarrow> bool \<Rightarrow> bool \<Rightarrow> bool \<Rightarrow> bool" where
  "ogon_named_pipe_clean pipeName path_ok exists deleted =
     (if pipeName = None then False else if \<not> path_ok then False else if exists then deleted else True)"

definition ogon_named_pipe_clean_endpoint :: "u32 \<Rightarrow> string \<Rightarrow> bool \<Rightarrow> bool \<Rightarrow> bool \<Rightarrow> bool" where
  "ogon_named_pipe_clean_endpoint i endpoint path_ok exists deleted =
     ogon_named_pipe_clean (Some (ogon_named_pipe_get_endpoint_name i endpoint 256)) path_ok exists deleted"

definition ogon_named_pipe_connect :: "(string \<Rightarrow> bool) \<Rightarrow> (string \<Rightarrow> pipe_handle option) \<Rightarrow> string \<Rightarrow> pipe_handle option" where
  "ogon_named_pipe_connect wait create pipeName = (if \<not> wait pipeName then None else create pipeName)"

definition ogon_named_pipe_connect_endpoint ::
    "(string \<Rightarrow> bool) \<Rightarrow> (string \<Rightarrow> pipe_handle option) \<Rightarrow> u32 \<Rightarrow> string \<Rightarrow> pipe_handle option" where
  "ogon_named_pipe_connect_endpoint wait create i endpoint =
     ogon_named_pipe_connect wait create (ogon_named_pipe_get_endpoint_name i endpoint 256)"

definition ogon_named_pipe_create :: "(string \<Rightarrow> pipe_handle option) \<Rightarrow> string \<Rightarrow> pipe_handle option" where
  "ogon_named_pipe_create create pipeName = create pipeName"

definition ogon_named_pipe_create_endpoint :: "(string \<Rightarrow> pipe_handle option) \<Rightarrow> u32 \<Rightarrow> string \<Rightarrow> pipe_handle option" where
  "ogon_named_pipe_create_endpoint create i endpoint =
     ogon_named_pipe_create create (ogon_named_pipe_get_endpoint_name i endpoint 256)"

definition ogon_named_pipe_accept :: "bool \<Rightarrow> pipe_handle option \<Rightarrow> pipe_handle option" where
  "ogon_named_pipe_accept connected hPipe = (if connected then hPipe else None)"

definition ogon_service_client_fd :: "(pipe_handle \<Rightarrow> int) \<Rightarrow> ogon_backend_service \<Rightarrow> int" where
  "ogon_service_client_fd fd s = (case svc_remotePipe s of None \<Rightarrow> -1 | Some h \<Rightarrow> fd h)"

definition ogon_service_check_peer_credentials ::
    "(pipe_handle \<Rightarrow> int) \<Rightarrow> (int \<Rightarrow> bool) \<Rightarrow> ogon_backend_service \<Rightarrow> bool" where
  "ogon_service_check_peer_credentials fd check s =
     (let n = ogon_service_client_fd fd s in if n < 0 then False else check n)"

text \<open>\<open>check\<close> is \<open>ogon_check_peer_credentials\<close> of a file descriptor.\<close>

definition ogon_service_accept ::
    "bool \<Rightarrow> (pipe_handle \<Rightarrow> int) \<Rightarrow> (int \<Rightarrow> bool) \<Rightarrow> ogon_backend_service \<Rightarrow>
     pipe_handle option \<times> ogon_backend_service \<times> pipe_event list" where
  "ogon_service_accept connected fd check s =
     (case ogon_named_pipe_accept connected (svc_serverPipe s) of
        None \<Rightarrow> (None, s, [])
      | Some rpipe \<Rightarrow>
          let (s, evs) = (case svc_remotePipe s of
                            None \<Rightarrow> (s, [])
                          | Some h \<Rightarrow> (s\<lparr>svc_expectedBytes := of_nat RDS_ORDER_HEADER_LENGTH,
                                         svc_waitingHeaders := True, svc_inStream := []\<rparr>, [ClosePipe h]));
              s = s\<lparr>svc_remotePipe := Some rpipe\<rparr>
          in if \<not> ogon_service_check_peer_credentials fd check s then (None, s, evs @ [ClosePipe rpipe])
             else (Some rpipe, s, evs))"

definition ogon_service_bind_endpoint ::
    "(string \<Rightarrow> pipe_handle option) \<Rightarrow> u32 \<Rightarrow> string \<Rightarrow> ogon_backend_service \<Rightarrow> ogon_backend_service" where
  "ogon_service_bind_endpoint create sessionId endPoint s =
     s\<lparr>svc_serverPipe := ogon_named_pipe_create_endpoint create sessionId endPoint\<rparr>"

definition ogon_service_server_fd :: "(pipe_handle \<Rightarrow> int) \<Rightarrow> ogon_backend_service \<Rightarrow> int" where
  "ogon_service_server_fd fd s = (case svc_serverPipe s of None \<Rightarrow> -1 | Some h \<Rightarrow> fd h)"

section \<open>The server's side: \<open>rdp-server/backend.c\<close>\<close>

record ogon_backend_connection =
  be_writeReady :: bool
  be_writeMask :: bool
  be_xmitBuffer :: "u8 list"
  be_stateWaitingHeader :: bool
  be_expectedReadBytes :: u32
  be_recvBuffer :: "u8 list"
  be_currentInMessageType :: u16
  be_version_exchanged :: bool
  be_backendCookie :: cstring
  be_ogonCookie :: "cstring option"
  be_next_message_id :: u32
  be_message_answer_list :: "(u32 \<times> u32 \<times> u32) list"
  be_capa_colorDepth :: u32

text \<open>
  What the outside returns. The ring buffer of FreeRDP is its content, oldest byte first;
  \<open>be_peek\<close> gives the chunks \<open>ringbuffer_peek\<close> reports. \<open>be_server\<close> are the callbacks of
  \<open>serverCallbacks\<close>, with the number they return.
\<close>

record backend_env =
  be_alloc :: "nat \<Rightarrow> bool"
  be_calloc :: "nat \<Rightarrow> bool"
  be_grow :: "nat \<Rightarrow> bool"
  be_ensure :: "nat \<Rightarrow> bool"
  be_stream_new :: "nat \<Rightarrow> bool"
  be_commit :: "nat \<Rightarrow> bool"
  be_peek :: "u8 list \<Rightarrow> u8 list list"
  be_change_source :: bool
  be_dict_add :: bool
  be_server :: "u16 \<Rightarrow> (ogon_message \<Rightarrow> int) option"

datatype backend_event = ServerCall u16 ogon_message | VersionAccepted ogon_message

text \<open>
  Writing a chunk, and the chunks of one peek: the result of the \<open>WriteFile\<close> that stopped the loop,
  if one did, and the bytes written before.
\<close>

fun write_chunk :: "u8 list \<Rightarrow> (bool \<times> nat) list \<Rightarrow> (bool option \<times> u8 list \<times> (bool \<times> nat) list) option" where
  "write_chunk [] ws = Some (None, [], ws)"
| "write_chunk (b # bs) [] = None"
| "write_chunk (b # bs) ((r, written) # ws) =
     (if \<not> r \<or> written = 0 then Some (Some r, [], ws)
      else map_option (\<lambda>(st, sent, ws). (st, take written (b # bs) @ sent, ws))
             (write_chunk (drop written (b # bs)) ws))"

fun write_chunks ::
    "u8 list list \<Rightarrow> (bool \<times> nat) list \<Rightarrow> (bool option \<times> u8 list \<times> (bool \<times> nat) list) option" where
  "write_chunks [] ws = Some (None, [], ws)"
| "write_chunks (c # cs) ws =
     (case write_chunk c ws of
        None \<Rightarrow> None
      | Some (Some r, sent, ws) \<Rightarrow> Some (Some r, sent, ws)
      | Some (None, sent, ws) \<Rightarrow>
          map_option (\<lambda>(st, sent', ws). (st, sent @ sent', ws)) (write_chunks cs ws))"

text \<open>
  \<open>drain_ringbuffer_to_pipe\<close>: the result, \<open>writeReady\<close>, the bytes written to the pipe, the content of
  the ring buffer, and the \<open>WriteFile\<close> calls not used; None while it runs.
\<close>

partial_function (option) drain_ringbuffer_to_pipe ::
    "(u8 list \<Rightarrow> u8 list list) \<Rightarrow> u8 list \<Rightarrow> (bool \<times> nat) list \<Rightarrow>
     (bool \<times> bool \<times> u8 list \<times> u8 list \<times> (bool \<times> nat) list) option" where
  "drain_ringbuffer_to_pipe peek rb ws =
     (if peek rb = [] then Some (True, True, [], rb, ws)
      else case write_chunks (peek rb) ws of
             None \<Rightarrow> None
           | Some (Some r, sent, ws) \<Rightarrow> Some (r, \<not> r, sent, drop (length sent) rb, ws)
           | Some (None, sent, ws) \<Rightarrow>
               Option.bind (drain_ringbuffer_to_pipe peek (drop (length sent) rb) ws)
                 (\<lambda>(r, ready, sent', rb, ws). Some (r, ready, sent @ sent', rb, ws)))"

declare drain_ringbuffer_to_pipe.simps [code]

definition backend_drain_output ::
    "backend_env \<Rightarrow> ogon_backend_connection \<Rightarrow> (bool \<times> nat) list \<Rightarrow> (bool \<times> ogon_backend_connection \<times> u8 list) option" where
  "backend_drain_output E b ws =
     (let finish = (\<lambda>b.
            if be_writeMask b \<noteq> (\<not> be_writeReady b)
            then if be_change_source E then (True, b\<lparr>be_writeMask := \<not> be_writeReady b\<rparr>) else (False, b)
            else (True, b))
      in
      if be_writeReady b \<and> be_xmitBuffer b \<noteq> []
      then (case drain_ringbuffer_to_pipe (be_peek E) (be_xmitBuffer b) ws of
              None \<Rightarrow> None
            | Some (ok, ready, sent, rb, _) \<Rightarrow>
                let b = b\<lparr>be_writeReady := ready, be_xmitBuffer := rb\<rparr> in
                if \<not> ok then Some (False, b, sent) else (let (ok, b) = finish b in Some (ok, b, sent)))
      else (let (ok, b) = finish b in Some (ok, b, [])))"

text \<open>The result, the blocks that are still live, the backend, and the bytes sent.\<close>

definition backend_write_rds_message ::
    "wire \<Rightarrow> protobuf \<Rightarrow> backend_env \<Rightarrow> ogon_backend_connection \<Rightarrow> (bool \<times> nat) list \<Rightarrow> u16 \<Rightarrow> ogon_message \<Rightarrow>
     link_error + bool \<times> nat \<times> ogon_backend_connection \<times> u8 list" where
  "backend_write_rds_message W C E b ws type msg =
     (case ogon_message_prepare C (be_calloc E) type msg of
        Inl f \<Rightarrow> Inl (BadMessage f)
      | Inr (len, encoded, live) \<Rightarrow>
          if len < 0 then Inr (False, live, b, [])
          else if \<not> be_ensure E (nat len + RDS_ORDER_HEADER_LENGTH) then Inr (False, live, b, [])
          else if \<not> be_stream_new E (nat len + RDS_ORDER_HEADER_LENGTH) then Inr (False, live, b, [])
          else let (ok, bytes) = ogon_message_write W C (\<lambda>n. n \<le> nat len + RDS_ORDER_HEADER_LENGTH) [] type len encoded
               in if \<not> ok then Inr (False, live, b, [])
                  else let live = live - ogon_message_unprepare type encoded
               in if \<not> be_commit E (RDS_ORDER_HEADER_LENGTH + nat len) then Inr (False, live, b, [])
                  else (case backend_drain_output E (b\<lparr>be_xmitBuffer := be_xmitBuffer b @ bytes\<rparr>) ws of
                          None \<Rightarrow> Inl StillWriting
                        | Some (ok, b, sent) \<Rightarrow> Inr (ok, live, b, sent)))"

definition SERVER_CALLBACKS_NB :: nat where "SERVER_CALLBACKS_NB = 8"

definition backend_check_version :: "ogon_backend_connection \<Rightarrow> ogon_message \<Rightarrow> bool" where
  "backend_check_version b version =
     (m_versionMajor version = OGON_PROTOCOL_VERSION_MAJOR \<and> m_cookie version \<noteq> None \<and>
      the (m_cookie version) = be_backendCookie b)"

definition backend_treat_message ::
    "protobuf \<Rightarrow> backend_env \<Rightarrow> u16 \<times> u8 list \<Rightarrow> ogon_backend_connection \<Rightarrow>
     bool \<times> ogon_backend_connection \<times> backend_event list" where
  "backend_treat_message C E fr b =
     (let type = fst fr in
      case ogon_message_read C (be_alloc E) (snd fr) type of
        (None, _) \<Rightarrow> (False, b, [])
      | (Some msg, _) \<Rightarrow>
          if unat type \<ge> SERVER_CALLBACKS_NB then (False, b, [])
          else if type = 7
          then if backend_check_version b msg then (True, b\<lparr>be_version_exchanged := True\<rparr>, [VersionAccepted msg])
               else (False, b, [])
          else if \<not> be_version_exchanged b then (False, b, [])
          else (case be_server E type of
                  None \<Rightarrow> (False, b, [])
                | Some cb \<Rightarrow> (cb msg \<ge> 0, b, [ServerCall type msg])))"

definition backend_finish ::
    "protobuf \<Rightarrow> backend_env \<Rightarrow> ogon_backend_connection \<Rightarrow> bool \<times> ogon_backend_connection \<times> backend_event list" where
  "backend_finish C E b =
     (let (ok, b, evs) = backend_treat_message C E (be_currentInMessageType b, be_recvBuffer b) b in
      if \<not> ok then (False, b, evs)
      else (True, b\<lparr>be_recvBuffer := [], be_expectedReadBytes := of_nat RDS_ORDER_HEADER_LENGTH,
                    be_stateWaitingHeader := True\<rparr>, evs))"

text \<open>One turn of the loop in \<open>backend_drain_input\<close> after \<open>ReadFile\<close> returned data.\<close>

definition backend_input ::
    "wire \<Rightarrow> protobuf \<Rightarrow> backend_env \<Rightarrow> ogon_backend_connection \<Rightarrow> u8 list \<Rightarrow>
     link_error + bool \<times> ogon_backend_connection \<times> backend_event list" where
  "backend_input W C E b bs =
     (let b = b\<lparr>be_expectedReadBytes := be_expectedReadBytes b - of_nat (length bs),
                be_recvBuffer := be_recvBuffer b @ bs\<rparr>
      in
      if be_expectedReadBytes b \<noteq> 0 then Inr (True, b, [])
      else if be_stateWaitingHeader b
      then (case ogon_read_message_header W (be_recvBuffer b) of
              Inl _ \<Rightarrow> Inl HeaderOutOfBounds
            | Inr (type, packetLen) \<Rightarrow>
                let b = b\<lparr>be_currentInMessageType := type, be_stateWaitingHeader := False,
                          be_expectedReadBytes := packetLen, be_recvBuffer := []\<rparr> in
                if packetLen \<noteq> 0
                then if \<not> be_grow E (unat packetLen) then Inr (False, b, []) else Inr (True, b, [])
                else Inr (backend_finish C E b))
      else Inr (backend_finish C E b))"

text \<open>The loop, with what the \<open>ReadFile\<close> calls return; after the last one there is no data.\<close>

fun backend_drain_input ::
    "wire \<Rightarrow> protobuf \<Rightarrow> backend_env \<Rightarrow> ogon_backend_connection \<Rightarrow> pipe_read list \<Rightarrow>
     link_error + bool \<times> ogon_backend_connection \<times> backend_event list" where
  "backend_drain_input W C E b [] = Inr (True, b, [])"
| "backend_drain_input W C E b (NoData # rs) = Inr (True, b, [])"
| "backend_drain_input W C E b (BrokenPipe # rs) = Inr (False, b, [])"
| "backend_drain_input W C E b (ReadBytes bs # rs) =
     (case backend_input W C E b bs of
        Inl e \<Rightarrow> Inl e
      | Inr (ok, b, evs) \<Rightarrow>
          if \<not> ok then Inr (False, b, evs)
          else (case backend_drain_input W C E b rs of
                  Inl e \<Rightarrow> Inl e
                | Inr (ok, b, evs') \<Rightarrow> Inr (ok, b, evs @ evs')))"

text \<open>
  \<open>handle_pipe_bytes\<close>, for a readiness mask with or without \<open>OGON_EVENTLOOP_WRITE\<close> and \<open>READ\<close>: the
  backend, the bytes written, the calls made, and how often \<open>ogon_connection_close\<close> is called.
\<close>

definition handle_pipe_bytes ::
    "wire \<Rightarrow> protobuf \<Rightarrow> backend_env \<Rightarrow> bool \<Rightarrow> bool \<Rightarrow> ogon_backend_connection \<Rightarrow> (bool \<times> nat) list \<Rightarrow>
     pipe_read list \<Rightarrow> link_error + ogon_backend_connection \<times> u8 list \<times> backend_event list \<times> nat" where
  "handle_pipe_bytes W C E writable readable b ws rs =
     (case (if writable then backend_drain_output E (b\<lparr>be_writeReady := True\<rparr>) ws else Some (True, b, [])) of
        None \<Rightarrow> Inl StillWriting
      | Some (ok, b, sent) \<Rightarrow>
          let closes = (if ok then 0 else 1) in
          if \<not> readable then Inr (b, sent, [], closes)
          else (case backend_drain_input W C E b rs of
                  Inl e \<Rightarrow> Inl e
                | Inr (ok, b, evs) \<Rightarrow> Inr (b, sent, evs, if ok then closes else Suc closes)))"

text \<open>
  The messages the server sends; \<open>send\<close> is \<open>backend_write_rds_message\<close> with its environment.
\<close>

type_synonym backend_sender =
  "ogon_backend_connection \<Rightarrow> u16 \<Rightarrow> ogon_message \<Rightarrow> link_error + bool \<times> nat \<times> ogon_backend_connection \<times> u8 list"

definition backend_synchronize_keyboard_event where
  "backend_synchronize_keyboard_event (send :: backend_sender) b flags connectionId =
     send b 9 (SynchronizeKeyboard flags connectionId)"

definition backend_scancode_keyboard_event where
  "backend_scancode_keyboard_event (send :: backend_sender) b flags code keyboardType connectionId =
     send b 10 (ScancodeKeyboard flags code keyboardType connectionId)"

definition backend_unicode_keyboard_event where
  "backend_unicode_keyboard_event (send :: backend_sender) b flags code connectionId =
     send b 11 (UnicodeKeyboard flags code connectionId)"

definition backend_mouse_event where
  "backend_mouse_event (send :: backend_sender) b flags x y connectionId =
     send b 12 (Mouse flags x y connectionId)"

definition backend_extended_mouse_event where
  "backend_extended_mouse_event (send :: backend_sender) b flags x y connectionId =
     send b 13 (ExtendedMouse flags x y connectionId)"

definition backend_framebuffer_sync_request where
  "backend_framebuffer_sync_request (send :: backend_sender) b bufferId =
     (if sint bufferId < 0 then Inr (False, 0, b, []) else send b 14 (FramebufferSyncRequest bufferId))"

definition backend_immediate_sync_request where
  "backend_immediate_sync_request (send :: backend_sender) b bufferId =
     (if sint bufferId < 0 then Inr (False, 0, b, []) else send b 16 (FramebufferSyncRequest bufferId))"

definition backend_sbp_reply where
  "backend_sbp_reply (send :: backend_sender) b msg = send b 15 msg"

definition backend_seat_new where
  "backend_seat_new (send :: backend_sender) b msg = send b 17 msg"

definition backend_seat_removed where
  "backend_seat_removed (send :: backend_sender) b clientId = send b 18 (SeatRemoved clientId)"

text \<open>A user message gets the next number; its answer is remembered under it.\<close>

definition backend_message where
  "backend_message (send :: backend_sender) E calloc_ok b msg =
     (if \<not> calloc_ok then Inr (False, 0, b, [])
      else let message_id = be_next_message_id b;
               b = b\<lparr>be_next_message_id := message_id + 1\<rparr>
           in case msg of
                UserMessage _ ty style timeout num parameters icp_tag icp_type \<Rightarrow>
                  if \<not> be_dict_add E then Inr (False, 0, b, [])
                  else send (b\<lparr>be_message_answer_list :=
                                be_message_answer_list b @ [(message_id, icp_tag, icp_type)]\<rparr>) 19
                         (UserMessage message_id ty style timeout num parameters icp_tag icp_type)
              | _ \<Rightarrow> Inl (BadMessage WrongMember))"

text \<open>The member \<open>colorDepth\<close> of the capabilities is never set.\<close>

definition backend_send_capabilities where
  "backend_send_capabilities (send :: backend_sender) b width height keyboardLayout keyboardType keyboardSubType conn_id =
     send b 8 (Capabilities width height (be_capa_colorDepth b) keyboardLayout keyboardType keyboardSubType conn_id)"

definition ogon_backend_send_version where
  "ogon_backend_send_version (send :: backend_sender) b =
     send b 20 (Version OGON_PROTOCOL_VERSION_MAJOR OGON_PROTOCOL_VERSION_MINOR (be_ogonCookie b))"

text \<open>The answer to a user message: the response that is sent, if the number is known.\<close>

definition ogon_server_message_reply ::
    "ogon_backend_connection \<Rightarrow> (u32 \<Rightarrow> u32 \<Rightarrow> u32 \<Rightarrow> int) \<Rightarrow> ogon_message \<Rightarrow> int" where
  "ogon_server_message_reply b icp_sendResponse msg =
     (case map_of (be_message_answer_list b) (m_message_id msg) of
        None \<Rightarrow> 1
      | Some (icp_tag, icp_type) \<Rightarrow> if icp_sendResponse icp_tag icp_type (m_result msg) \<noteq> 0 then 1 else 0)"

definition ogon_backend_initialize where
  "ogon_backend_initialize (send :: backend_sender) b width height keyboardLayout keyboardType keyboardSubType
     indicators conn_id =
     (case backend_send_capabilities send b width height keyboardLayout keyboardType keyboardSubType conn_id of
        Inl e \<Rightarrow> Inl e
      | Inr (ok, live, b, sent) \<Rightarrow>
          if \<not> ok then Inr (False, live, b, sent)
          else (case backend_synchronize_keyboard_event send b indicators conn_id of
                  Inl e \<Rightarrow> Inl e
                | Inr (ok, live', b, sent') \<Rightarrow> Inr (ok, live + live', b, sent @ sent')))"

text \<open>
  Creating and destroying a backend: what is held, and what the calls return. The event source
  belongs to the event loop of the connection.
\<close>

datatype backend_resource =
  R_backend | R_xmitBuffer | R_recvBuffer | R_pipe | R_pipeEventSource | R_message_answer_list | R_properties

record new_env =
  ne_calloc :: bool
  ne_ringbuffer :: bool
  ne_stream :: bool
  ne_connect :: bool
  ne_nonblocking :: bool
  ne_add_handle :: bool
  ne_dictionary :: bool

definition out_free :: "backend_resource list \<Rightarrow> backend_resource list" where
  "out_free res = remove1 R_backend res"

definition out_ringbuffer :: "backend_resource list \<Rightarrow> backend_resource list" where
  "out_ringbuffer res = out_free (remove1 R_xmitBuffer res)"

definition out_stream :: "backend_resource list \<Rightarrow> backend_resource list" where
  "out_stream res = out_ringbuffer (remove1 R_recvBuffer res)"

definition out_close :: "backend_resource list \<Rightarrow> backend_resource list" where
  "out_close res = out_stream (remove1 R_pipe res)"

definition out_send_version :: "backend_resource list \<Rightarrow> backend_resource list" where
  "out_send_version res = out_close (remove1 R_message_answer_list (remove1 R_properties res))"

definition backend_new ::
    "backend_sender \<Rightarrow> new_env \<Rightarrow> cstring \<Rightarrow> cstring option \<Rightarrow>
     link_error + ogon_backend_connection option \<times> backend_resource list" where
  "backend_new send N backendCookie ogonCookie =
     (if \<not> ne_calloc N then Inr (None, [])
      else if \<not> ne_ringbuffer N then Inr (None, out_free [R_backend])
      else if \<not> ne_stream N then Inr (None, out_ringbuffer [R_backend, R_xmitBuffer])
      else if \<not> ne_connect N then Inr (None, out_stream [R_backend, R_xmitBuffer, R_recvBuffer])
      else let res = [R_backend, R_xmitBuffer, R_recvBuffer, R_pipe] in
      if \<not> ne_nonblocking N then Inr (None, out_close res)
      else if \<not> ne_add_handle N then Inr (None, out_close res)
      else let res = res @ [R_pipeEventSource] in
      if \<not> ne_dictionary N then Inr (None, out_close res)
      else let res = res @ [R_message_answer_list, R_properties];
               ret = \<lparr>be_writeReady = True, be_writeMask = False, be_xmitBuffer = [], be_stateWaitingHeader = True,
                      be_expectedReadBytes = of_nat RDS_ORDER_HEADER_LENGTH, be_recvBuffer = [],
                      be_currentInMessageType = 0, be_version_exchanged = False, be_backendCookie = backendCookie,
                      be_ogonCookie = ogonCookie, be_next_message_id = 1, be_message_answer_list = [],
                      be_capa_colorDepth = 0\<rparr>
           in case ogon_backend_send_version send ret of
                Inl e \<Rightarrow> Inl e
              | Inr (ok, _, ret, _) \<Rightarrow>
                  if \<not> ok then Inr (None, out_send_version res)
                  else Inr (Some (ret\<lparr>be_version_exchanged := False\<rparr>), res))"

definition backend_destroy :: "backend_resource list \<Rightarrow> backend_resource list" where
  "backend_destroy res =
     fold remove1 [R_properties, R_pipeEventSource, R_pipe, R_recvBuffer, R_xmitBuffer, R_message_answer_list, R_backend] res"

end
