(* ===== verification/Backend_Readers.thy ===== *)
theory Backend_Readers
  imports Framing Backend_Link
begin

text \<open>
  Both ends read frames: \<open>ogon_service_incoming_bytes\<close> and \<open>backend_drain_input\<close> implement the
  abstract reader of \<open>Framing\<close>.
\<close>

section \<open>The service reads frames\<close>

definition svc_framing :: "u8 list \<Rightarrow> bool \<Rightarrow> u32 \<Rightarrow> u16 \<Rightarrow> ogon_backend_service \<Rightarrow> ogon_backend_service" where
  "svc_framing i w e t s = s\<lparr>svc_inStream := i, svc_waitingHeaders := w, svc_expectedBytes := e, svc_messageType := t\<rparr>"

definition svc_rest :: "ogon_backend_service \<Rightarrow> ogon_backend_service" where
  "svc_rest s = svc_framing [] True 6 0 s"

definition svc_view :: "ogon_backend_service \<Rightarrow> frame_state" where
  "svc_view s =
     (if svc_waitingHeaders s then Header (svc_inStream s)
      else Body (svc_messageType s) (svc_expectedBytes s + of_nat (length (svc_inStream s))) (svc_inStream s))"

definition svc_inv :: "ogon_backend_service \<Rightarrow> bool" where
  "svc_inv s \<longleftrightarrow>
     0 < unat (svc_expectedBytes s) \<and>
     (if svc_waitingHeaders s then unat (svc_expectedBytes s) + length (svc_inStream s) = 6
      else unat (svc_expectedBytes s) + length (svc_inStream s) < 2 ^ 32)"

definition svc_input ::
    "wire \<Rightarrow> protobuf \<Rightarrow> service_env \<Rightarrow> ogon_backend_service \<Rightarrow> u8 list \<Rightarrow>
     (ogon_backend_service \<times> service_event list) option" where
  "svc_input W C E s bs =
     (case ogon_service_incoming_bytes W C E s (ReadBytes bs) of
        Inr (INCOMING_BYTES_OK, s, evs) \<Rightarrow> Some (s, evs)
      | _ \<Rightarrow> None)"

definition svc_handle ::
    "wire \<Rightarrow> protobuf \<Rightarrow> service_env \<Rightarrow> u16 \<times> u8 list \<Rightarrow> ogon_backend_service \<Rightarrow>
     (ogon_backend_service \<times> service_event list) option" where
  "svc_handle W C E fr r =
     (case service_treat W C E fr r of Inr (True, r, evs) \<Rightarrow> Some (r, evs) | _ \<Rightarrow> None)"

definition be_framing :: "u8 list \<Rightarrow> bool \<Rightarrow> u32 \<Rightarrow> u16 \<Rightarrow> ogon_backend_connection \<Rightarrow> ogon_backend_connection" where
  "be_framing i w e t b = b\<lparr>be_recvBuffer := i, be_stateWaitingHeader := w, be_expectedReadBytes := e,
     be_currentInMessageType := t\<rparr>"

definition be_rest :: "ogon_backend_connection \<Rightarrow> ogon_backend_connection" where
  "be_rest b = be_framing [] True 6 0 b"

definition be_view :: "ogon_backend_connection \<Rightarrow> frame_state" where
  "be_view b =
     (if be_stateWaitingHeader b then Header (be_recvBuffer b)
      else Body (be_currentInMessageType b) (be_expectedReadBytes b + of_nat (length (be_recvBuffer b)))
             (be_recvBuffer b))"

definition be_inv :: "ogon_backend_connection \<Rightarrow> bool" where
  "be_inv b \<longleftrightarrow>
     0 < unat (be_expectedReadBytes b) \<and>
     (if be_stateWaitingHeader b then unat (be_expectedReadBytes b) + length (be_recvBuffer b) = 6
      else unat (be_expectedReadBytes b) + length (be_recvBuffer b) < 2 ^ 32)"

definition be_input ::
    "wire \<Rightarrow> protobuf \<Rightarrow> backend_env \<Rightarrow> ogon_backend_connection \<Rightarrow> u8 list \<Rightarrow>
     (ogon_backend_connection \<times> backend_event list) option" where
  "be_input W C E b bs =
     (case backend_input W C E b bs of Inr (True, b, evs) \<Rightarrow> Some (b, evs) | _ \<Rightarrow> None)"

definition be_handle ::
    "protobuf \<Rightarrow> backend_env \<Rightarrow> u16 \<times> u8 list \<Rightarrow> ogon_backend_connection \<Rightarrow>
     (ogon_backend_connection \<times> backend_event list) option" where
  "be_handle C E fr r =
     (case backend_treat_message C E fr r of (True, r, evs) \<Rightarrow> Some (r, evs) | _ \<Rightarrow> None)"

lemma svc_framing_simps [simp]:
  "svc_inStream (svc_framing i w e t s) = i" "svc_waitingHeaders (svc_framing i w e t s) = w"
  "svc_expectedBytes (svc_framing i w e t s) = e" "svc_messageType (svc_framing i w e t s) = t"
  "svc_outStream (svc_framing i w e t s) = svc_outStream s"
  "svc_framing i w e t (svc_framing i' w' e' t' s) = svc_framing i w e t s"
  "svc_framing (svc_inStream s) (svc_waitingHeaders s) (svc_expectedBytes s) (svc_messageType s) s = s"
  by (simp_all add: svc_framing_def)

lemma write_framing:
  "ogon_service_write_message W C E (svc_framing i w e t s) ty m =
     map_sum id (\<lambda>(ok, s, sent). (ok, svc_framing i w e t s, sent)) (ogon_service_write_message W C E s ty m)"
  by (auto simp: ogon_service_write_message_def svc_framing_def Let_def
      split: sum.split prod.split option.split bool.split)

lemma dispatch_framing:
  "service_dispatch W C E ty m (svc_framing i w e t s) =
     map_sum id (\<lambda>(ok, s, evs). (ok, svc_framing i w e t s, evs)) (service_dispatch W C E ty m s)"
  by (auto simp: service_dispatch_def write_framing split: sum.split prod.split)

lemma treat_framing:
  "service_treat W C E fr (svc_framing i w e t s) =
     map_sum id (\<lambda>(ok, s, evs). (ok, svc_framing i w e t s, evs)) (service_treat W C E fr s)"
  by (auto simp: service_treat_def dispatch_framing split: option.split prod.split)

lemma svc_handle_rest:
  "svc_handle W C E fr (svc_rest s) =
     (case service_treat W C E fr s of Inr (True, s, evs) \<Rightarrow> Some (svc_rest s, evs) | _ \<Rightarrow> None)"
  unfolding svc_handle_def svc_rest_def treat_framing
  by (auto split: sum.split prod.split bool.split)

lemma unat_minus_of_nat:
  "n \<le> unat (e :: u32) \<Longrightarrow> unat (e - of_nat n) = unat e - n"
  "n \<le> unat e \<Longrightarrow> (e = of_nat n) = (n = unat e)"
proof -
  assume n: "n \<le> unat e"
  have "unat e < 2 ^ LENGTH(32)" by (rule unsigned_less)
  then have "unat (of_nat n :: u32) = n" using n by (intro unat_of_nat_u32) simp
  then show u: "unat (e - of_nat n) = unat e - n" using n by (simp add: unat_diff_le word_le_nat_alt)
  show "(e = of_nat n) = (n = unat e)"
    using \<open>unat (of_nat n :: u32) = n\<close> by (auto simp: word_unat_eq_iff)
qed


lemma svc_framing_upd:
  "s\<lparr>svc_inStream := i, svc_expectedBytes := e\<rparr> = svc_framing i (svc_waitingHeaders s) e (svc_messageType s) s"
  "(svc_framing i w e t s)\<lparr>svc_messageType := t', svc_expectedBytes := e', svc_inStream := i'\<rparr> = svc_framing i' w e' t' s"
  "(svc_framing i w e t s)\<lparr>svc_waitingHeaders := w'\<rparr> = svc_framing i w' e t s"
  "(svc_framing i w e t s)\<lparr>svc_inStream := i', svc_expectedBytes := e', svc_waitingHeaders := w'\<rparr> = svc_framing i' w' e' t s"
  by (simp_all add: svc_framing_def)

lemma read_header_eq:
  "length b = 6 \<Longrightarrow> ogon_read_message_header W b = Inr (rd16 W b, rd32 W (drop 2 b))"
  by (simp add: ogon_read_message_header_def rd_u16_def rd_u32_def numeral_2_eq_2)

lemma incoming_part:
  assumes "length bs < unat (svc_expectedBytes s)"
  shows "ogon_service_incoming_bytes W C E s (ReadBytes bs) =
    Inr (INCOMING_BYTES_OK, svc_framing (svc_inStream s @ bs) (svc_waitingHeaders s)
      (svc_expectedBytes s - of_nat (length bs)) (svc_messageType s) s, [])"
proof -
  have "svc_expectedBytes s \<noteq> of_nat (length bs)" using assms unat_minus_of_nat(2) [of "length bs"] by simp
  then show ?thesis by (simp add: ogon_service_incoming_bytes_def svc_framing_upd Let_def)
qed

lemma incoming_body:
  assumes "length bs = unat (svc_expectedBytes s)" "\<not> svc_waitingHeaders s"
  shows "ogon_service_incoming_bytes W C E s (ReadBytes bs) =
    service_finish W C E (svc_framing (svc_inStream s @ bs) False 0 (svc_messageType s) s)"
proof -
  have "of_nat (length bs) = svc_expectedBytes s" using assms(1) by simp
  then show ?thesis using assms(2) by (simp add: ogon_service_incoming_bytes_def svc_framing_upd Let_def)
qed

lemma incoming_header:
  assumes "length (svc_inStream s @ bs) = 6" "length bs = unat (svc_expectedBytes s)" "svc_waitingHeaders s"
    "b = svc_inStream s @ bs" "t = rd16 W b" "len = rd32 W (drop 2 b)"
  shows "ogon_service_incoming_bytes W C E s (ReadBytes bs) =
    (if len = 0 then service_finish W C E (svc_framing [] True 0 t s)
     else if se_grow E (unat len) then Inr (INCOMING_BYTES_OK, svc_framing [] False len t s, [])
     else Inr (INCOMING_BYTES_INVALID_MESSAGE, svc_framing [] True len t s, []))"
proof -
  have "of_nat (length bs) = svc_expectedBytes s" using assms(2) by simp
  moreover have "ogon_read_message_header W (svc_inStream s @ bs) = Inr (t, len)"
    using read_header_eq assms(1,4-6) by blast
  ultimately show ?thesis
    using assms(3) by (simp add: ogon_service_incoming_bytes_def svc_framing_upd Let_def)
qed

lemma finish_input:
  "(case service_finish W C E (svc_framing i w e t s) of
      Inr (INCOMING_BYTES_OK, s, evs) \<Rightarrow> Some (s, evs) | _ \<Rightarrow> None) =
   (case service_treat W C E (t, i) s of
      Inr (True, s, evs) \<Rightarrow> Some (svc_framing [] True 6 t s, evs) | _ \<Rightarrow> None)"
proof (cases "service_treat W C E (t, i) s")
  case (Inr r)
  obtain ok s' evs where "r = (ok, s', evs)" by (rule prod_cases3)
  then show ?thesis using Inr
    by (cases ok) (simp_all add: service_finish_def treat_framing svc_framing_upd RDS_ORDER_HEADER_LENGTH_def)
qed (simp add: service_finish_def treat_framing)

lemma svc_view_framing:
  "svc_view (svc_framing i w e t s) = (if w then Header i else Body t (e + of_nat (length i)) i)"
  by (simp add: svc_view_def)

lemma svc_rest_framing [simp]: "svc_rest (svc_framing i w e t s) = svc_rest s"
  by (simp add: svc_rest_def)

lemma svc_needs: "svc_inv s \<Longrightarrow> unat (svc_expectedBytes s) = frame_needs (svc_view s)"
  and svc_ok: "svc_inv s \<Longrightarrow> frame_ok (svc_view s)"
proof -
  assume inv: "svc_inv s"
  have "unat (svc_expectedBytes s + of_nat (length (svc_inStream s))) =
      unat (svc_expectedBytes s) + length (svc_inStream s)" if "\<not> svc_waitingHeaders s"
    using inv that by (subst unat_add_lem [THEN iffD1]) (simp_all add: svc_inv_def unat_of_nat take_bit_nat_eq_self)
  then show "unat (svc_expectedBytes s) = frame_needs (svc_view s)" "frame_ok (svc_view s)"
    using inv by (auto simp: svc_inv_def svc_view_def RDS_ORDER_HEADER_LENGTH_def split: if_splits)
qed


lemma finish_view:
  "map_option (\<lambda>(s, evs). ((svc_view s, svc_rest s), evs))
     (case service_finish W C E (svc_framing i w e t s) of
        Inr (INCOMING_BYTES_OK, s, evs) \<Rightarrow> Some (s, evs) | _ \<Rightarrow> None) =
   (case svc_handle W C E (t, i) (svc_rest s) of None \<Rightarrow> None | Some (r, evs) \<Rightarrow> Some ((Header [], r), evs))"
  unfolding finish_input svc_handle_rest
  by (auto simp: svc_view_framing split: sum.split bool.split)

lemma svc_input_view:
  assumes inv: "svc_inv s" and bs: "bs \<noteq> []" "length bs \<le> unat (svc_expectedBytes s)"
  shows "map_option (\<lambda>(s, evs). ((svc_view s, svc_rest s), evs)) (svc_input W C E s bs) =
    frame_input W (se_grow E) (svc_handle W C E) (svc_view s, svc_rest s) bs"
proof (cases "length bs < unat (svc_expectedBytes s)")
  case True
  have needs: "length bs < frame_needs (svc_view s)" using True svc_needs [OF inv] by simp
  then show ?thesis
    unfolding svc_input_def incoming_part [OF True]
    by (auto simp: frame_input_def svc_view_framing svc_view_def Let_def split: if_splits)
next
  case False
  then have len: "length bs = unat (svc_expectedBytes s)" using bs(2) by simp
  have full: "length bs = frame_needs (svc_view s)" using len svc_needs [OF inv] by simp
  show ?thesis
  proof (cases "svc_waitingHeaders s")
    case True
    define b where "b = svc_inStream s @ bs"
    have b: "length b = 6" using inv len True by (simp add: svc_inv_def b_def)
    show ?thesis
      unfolding svc_input_def incoming_header [OF b [unfolded b_def] len True b_def refl refl]
      using True b finish_view [of W C E "[]" True 0 "rd16 W b" s]
      by (auto simp: frame_input_def svc_view_def svc_view_framing Let_def b_def RDS_ORDER_HEADER_LENGTH_def
          split: option.split)
  next
    case False
    then show ?thesis
      unfolding svc_input_def incoming_body [OF len False]
      using full finish_view [of W C E "svc_inStream s @ bs" False 0 "svc_messageType s" s] len inv
      by (auto simp: frame_input_def svc_view_def Let_def split: option.split)
  qed
qed

lemma finish_inv:
  assumes "(case service_finish W C E (svc_framing i w e t s) of
      Inr (INCOMING_BYTES_OK, s, evs) \<Rightarrow> Some (s, evs) | _ \<Rightarrow> None) = Some (s', evs)"
  shows "svc_inv s'"
  using assms unfolding finish_input
  by (auto simp: svc_inv_def split: sum.splits bool.splits)

lemma svc_input_inv:
  assumes inv: "svc_inv s" and bs: "bs \<noteq> []" "length bs \<le> unat (svc_expectedBytes s)"
    and input: "svc_input W C E s bs = Some (s', evs)"
  shows "svc_inv s'"
proof (cases "length bs < unat (svc_expectedBytes s)")
  case True
  have "s' = svc_framing (svc_inStream s @ bs) (svc_waitingHeaders s)
      (svc_expectedBytes s - of_nat (length bs)) (svc_messageType s) s"
    using input unfolding svc_input_def incoming_part [OF True] by simp
  then show ?thesis
    using inv True unat_minus_of_nat(1) [of "length bs" "svc_expectedBytes s"]
    by (simp add: svc_inv_def split: if_splits)
next
  case False
  then have len: "length bs = unat (svc_expectedBytes s)" using bs(2) by simp
  show ?thesis
  proof (cases "svc_waitingHeaders s")
    case True
    define b where "b = svc_inStream s @ bs"
    have b: "length b = 6" using inv len True by (simp add: svc_inv_def b_def)
    define n where "n = rd32 W (drop 2 b)"
    have n: "unat n < 2 ^ LENGTH(32)" by (rule unsigned_less)
    note eq = incoming_header [OF b [unfolded b_def] len True b_def refl n_def, of C E]
    show ?thesis
    proof (cases "n = 0")
      case True
      show ?thesis by (rule finish_inv) (use input eq True in \<open>simp add: svc_input_def\<close>)
    next
      case False
      then have "s' = svc_framing [] False n (rd16 W b) s"
        using input eq by (auto simp: svc_input_def split: if_splits)
      then show ?thesis using False n by (simp add: svc_inv_def unat_gt_0)
    qed
  next
    case False
    show ?thesis
      by (rule finish_inv) (use input in \<open>simp add: svc_input_def incoming_body [OF len False]\<close>)
  qed
qed

interpretation svc: framed_reader W "se_grow E" svc_inv svc_view svc_rest "\<lambda>s. unat (svc_expectedBytes s)"
    "svc_input W C E" "svc_handle W C E" for W C E
  by unfold_locales (auto simp: svc_needs svc_ok svc_input_view intro: svc_input_inv)

section \<open>The server reads frames\<close>

lemma be_framing_simps [simp]:
  "be_recvBuffer (be_framing i w e t b) = i" "be_stateWaitingHeader (be_framing i w e t b) = w"
  "be_expectedReadBytes (be_framing i w e t b) = e" "be_currentInMessageType (be_framing i w e t b) = t"
  "be_version_exchanged (be_framing i w e t b) = be_version_exchanged b"
  "be_backendCookie (be_framing i w e t b) = be_backendCookie b"
  "be_framing i w e t (be_framing i' w' e' t' b) = be_framing i w e t b"
  "be_rest (be_framing i w e t b) = be_rest b"
  by (simp_all add: be_framing_def be_rest_def)

lemma be_framing_upd:
  "b\<lparr>be_expectedReadBytes := e, be_recvBuffer := i\<rparr> =
     be_framing i (be_stateWaitingHeader b) e (be_currentInMessageType b) b"
  "(be_framing i w e t b)\<lparr>be_currentInMessageType := t', be_stateWaitingHeader := w', be_expectedReadBytes := e',
     be_recvBuffer := i'\<rparr> = be_framing i' w' e' t' b"
  "(be_framing i w e t b)\<lparr>be_recvBuffer := i', be_expectedReadBytes := e', be_stateWaitingHeader := w'\<rparr> =
     be_framing i' w' e' t b"
  "(be_framing i w e t b)\<lparr>be_version_exchanged := v\<rparr> = be_framing i w e t (b\<lparr>be_version_exchanged := v\<rparr>)"
  by (simp_all add: be_framing_def)

lemma be_treat_framing:
  "backend_treat_message C E fr (be_framing i w e t b) =
     (case backend_treat_message C E fr b of (ok, b, evs) \<Rightarrow> (ok, be_framing i w e t b, evs))"
  by (auto simp: backend_treat_message_def backend_check_version_def be_framing_upd Let_def
      split: option.split prod.split)

lemma be_handle_rest:
  "be_handle C E fr (be_rest b) =
     (case backend_treat_message C E fr b of (True, b, evs) \<Rightarrow> Some (be_rest b, evs) | _ \<Rightarrow> None)"
  unfolding be_handle_def be_rest_def be_treat_framing by (auto split: prod.split bool.split)

lemma be_input_part:
  assumes "length bs < unat (be_expectedReadBytes b)"
  shows "backend_input W C E b bs =
    Inr (True, be_framing (be_recvBuffer b @ bs) (be_stateWaitingHeader b)
      (be_expectedReadBytes b - of_nat (length bs)) (be_currentInMessageType b) b, [])"
proof -
  have "be_expectedReadBytes b \<noteq> of_nat (length bs)" using assms unat_minus_of_nat(2) [of "length bs"] by simp
  then show ?thesis by (simp add: backend_input_def be_framing_upd Let_def)
qed

lemma be_input_body:
  assumes "length bs = unat (be_expectedReadBytes b)" "\<not> be_stateWaitingHeader b"
  shows "backend_input W C E b bs =
    Inr (backend_finish C E (be_framing (be_recvBuffer b @ bs) False 0 (be_currentInMessageType b) b))"
proof -
  have "of_nat (length bs) = be_expectedReadBytes b" using assms(1) by simp
  then show ?thesis using assms(2) by (simp add: backend_input_def be_framing_upd Let_def)
qed

lemma be_framing_type:
  "(be_framing i w e t b)\<lparr>be_currentInMessageType := t', be_stateWaitingHeader := w'\<rparr> = be_framing i w' e t' b"
  by (simp add: be_framing_def)

lemma be_input_header:
  assumes "length (be_recvBuffer b @ bs) = 6" "length bs = unat (be_expectedReadBytes b)" "be_stateWaitingHeader b"
    "h = be_recvBuffer b @ bs" "t = rd16 W h" "len = rd32 W (drop 2 h)"
  shows "backend_input W C E b bs =
    (if len = 0 then Inr (backend_finish C E (be_framing [] False 0 t b))
     else Inr (be_grow E (unat len), be_framing [] False len t b, []))"
proof -
  have "of_nat (length bs) = be_expectedReadBytes b" using assms(2) by simp
  moreover have "ogon_read_message_header W (be_recvBuffer b @ bs) = Inr (t, len)"
    using read_header_eq assms(1,4-6) by blast
  ultimately show ?thesis
    using assms(3) by (simp add: backend_input_def be_framing_upd be_framing_type Let_def)
qed

lemma be_finish_input:
  "(case backend_finish C E (be_framing i w e t b) of (True, b, evs) \<Rightarrow> Some (b, evs) | _ \<Rightarrow> None) =
   (case backend_treat_message C E (t, i) b of
      (True, b, evs) \<Rightarrow> Some (be_framing [] True 6 t b, evs) | _ \<Rightarrow> None)"
proof -
  obtain ok b' evs where "backend_treat_message C E (t, i) b = (ok, b', evs)" by (rule prod_cases3)
  then show ?thesis
    by (cases ok) (simp_all add: backend_finish_def be_treat_framing be_framing_upd RDS_ORDER_HEADER_LENGTH_def)
qed

lemma be_view_framing:
  "be_view (be_framing i w e t b) = (if w then Header i else Body t (e + of_nat (length i)) i)"
  by (simp add: be_view_def)

lemma be_finish_view:
  "map_option (\<lambda>(b, evs). ((be_view b, be_rest b), evs))
     (case backend_finish C E (be_framing i w e t b) of (True, b, evs) \<Rightarrow> Some (b, evs) | _ \<Rightarrow> None) =
   (case be_handle C E (t, i) (be_rest b) of None \<Rightarrow> None | Some (r, evs) \<Rightarrow> Some ((Header [], r), evs))"
  unfolding be_finish_input be_handle_rest
  by (auto simp: be_view_framing split: prod.split bool.split)

lemma be_needs: "be_inv b \<Longrightarrow> unat (be_expectedReadBytes b) = frame_needs (be_view b)"
  and be_ok: "be_inv b \<Longrightarrow> frame_ok (be_view b)"
proof -
  assume inv: "be_inv b"
  have "unat (be_expectedReadBytes b + of_nat (length (be_recvBuffer b))) =
      unat (be_expectedReadBytes b) + length (be_recvBuffer b)" if "\<not> be_stateWaitingHeader b"
    using inv that by (subst unat_add_lem [THEN iffD1]) (simp_all add: be_inv_def unat_of_nat take_bit_nat_eq_self)
  then show "unat (be_expectedReadBytes b) = frame_needs (be_view b)" "frame_ok (be_view b)"
    using inv by (auto simp: be_inv_def be_view_def RDS_ORDER_HEADER_LENGTH_def split: if_splits)
qed

lemma be_input_view:
  assumes inv: "be_inv b" and bs: "bs \<noteq> []" "length bs \<le> unat (be_expectedReadBytes b)"
  shows "map_option (\<lambda>(b, evs). ((be_view b, be_rest b), evs)) (be_input W C E b bs) =
    frame_input W (be_grow E) (be_handle C E) (be_view b, be_rest b) bs"
proof (cases "length bs < unat (be_expectedReadBytes b)")
  case True
  have needs: "length bs < frame_needs (be_view b)" using True be_needs [OF inv] by simp
  then show ?thesis
    unfolding be_input_def be_input_part [OF True]
    by (auto simp: frame_input_def be_view_framing be_view_def Let_def split: if_splits)
next
  case False
  then have len: "length bs = unat (be_expectedReadBytes b)" using bs(2) by simp
  have full: "length bs = frame_needs (be_view b)" using len be_needs [OF inv] by simp
  show ?thesis
  proof (cases "be_stateWaitingHeader b")
    case True
    define h where "h = be_recvBuffer b @ bs"
    have h: "length h = 6" using inv len True by (simp add: be_inv_def h_def)
    show ?thesis
      unfolding be_input_def be_input_header [OF h [unfolded h_def] len True h_def refl refl]
      using True h be_finish_view [of C E "[]" False 0 "rd16 W h" b]
      by (auto simp: frame_input_def be_view_def be_view_framing Let_def h_def RDS_ORDER_HEADER_LENGTH_def
          split: option.split bool.split)
  next
    case False
    then show ?thesis
      unfolding be_input_def be_input_body [OF len False]
      using full be_finish_view [of C E "be_recvBuffer b @ bs" False 0 "be_currentInMessageType b" b] len inv
      by (auto simp: frame_input_def be_view_def Let_def split: option.split)
  qed
qed

lemma be_finish_inv:
  assumes "(case backend_finish C E (be_framing i w e t b) of (True, b, evs) \<Rightarrow> Some (b, evs) | _ \<Rightarrow> None) =
      Some (b', evs)"
  shows "be_inv b'"
  using assms unfolding be_finish_input by (auto simp: be_inv_def split: prod.splits bool.splits)

lemma be_input_inv:
  assumes inv: "be_inv b" and bs: "bs \<noteq> []" "length bs \<le> unat (be_expectedReadBytes b)"
    and input: "be_input W C E b bs = Some (b', evs)"
  shows "be_inv b'"
proof (cases "length bs < unat (be_expectedReadBytes b)")
  case True
  have "b' = be_framing (be_recvBuffer b @ bs) (be_stateWaitingHeader b)
      (be_expectedReadBytes b - of_nat (length bs)) (be_currentInMessageType b) b"
    using input unfolding be_input_def be_input_part [OF True] by simp
  then show ?thesis
    using inv True unat_minus_of_nat(1) [of "length bs" "be_expectedReadBytes b"]
    by (simp add: be_inv_def split: if_splits)
next
  case False
  then have len: "length bs = unat (be_expectedReadBytes b)" using bs(2) by simp
  show ?thesis
  proof (cases "be_stateWaitingHeader b")
    case True
    define h where "h = be_recvBuffer b @ bs"
    have h: "length h = 6" using inv len True by (simp add: be_inv_def h_def)
    define n where "n = rd32 W (drop 2 h)"
    have n: "unat n < 2 ^ LENGTH(32)" by (rule unsigned_less)
    note eq = be_input_header [OF h [unfolded h_def] len True h_def refl n_def, of C E]
    show ?thesis
    proof (cases "n = 0")
      case True
      show ?thesis by (rule be_finish_inv) (use input eq True in \<open>simp add: be_input_def\<close>)
    next
      case False
      then have "b' = be_framing [] False n (rd16 W h) b"
        using input eq by (auto simp: be_input_def split: bool.splits)
      then show ?thesis using False n by (simp add: be_inv_def unat_gt_0)
    qed
  next
    case False
    show ?thesis
      by (rule be_finish_inv) (use input in \<open>simp add: be_input_def be_input_body [OF len False]\<close>)
  qed
qed

interpretation be: framed_reader W "be_grow E" be_inv be_view be_rest "\<lambda>b. unat (be_expectedReadBytes b)"
    "be_input W C E" "be_handle C E" for W C E
  by unfold_locales (auto simp: be_needs be_ok be_input_view intro: be_input_inv)

end
