(* ===== verification/Backend_Protobuf.thy ===== *)
theory Backend_Protobuf
  imports Backend_Messages
begin

text \<open>
  What \<open>protocol.c\<close> relies on from the generated protobuf code, as a locale, and the protobuf wire
  encoding of the messages of \<open>protocols/backend.proto\<close>, which satisfies it.
\<close>

section \<open>What the code relies on\<close>

fun ptype :: "protobuf_message \<Rightarrow> protobuf_type" where
  "ptype (P_capabilities _ _ _ _ _ _ _ _) = T_capabilities"
| "ptype (P_keyboardSync _ _) = T_keyboardSync"
| "ptype (P_keyboardScanCode _ _ _ _) = T_keyboardScanCode"
| "ptype (P_keyboardUnicode _ _ _) = T_keyboardUnicode"
| "ptype (P_mouseEvent _ _ _ _) = T_mouseEvent"
| "ptype (P_mouseExtendedEvent _ _ _ _) = T_mouseExtendedEvent"
| "ptype (P_syncRequest _) = T_syncRequest"
| "ptype (P_sbpReply _ _ _ _) = T_sbpReply"
| "ptype (P_seatNew _ _ _ _) = T_seatNew"
| "ptype (P_seatRemoved _) = T_seatRemoved"
| "ptype (P_message _ _ _ _ _) = T_message"
| "ptype (P_versionReply _ _ _) = T_versionReply"
| "ptype (P_framebufferInfos _ _ _ _ _ _ _ _) = T_framebufferInfos"
| "ptype (P_setPointerShape _ _ _ _ _ _ _ _) = T_setPointerShape"
| "ptype (P_beep _ _) = T_beep"
| "ptype (P_setSystemPointer _ _) = T_setSystemPointer"
| "ptype (P_sbpRequest _ _ _) = T_sbpRequest"
| "ptype (P_syncReply _) = T_syncReply"
| "ptype (P_messageReply _ _) = T_messageReply"

text \<open>
  A field value of the protobuf encoding: all fields of \<open>backend.proto\<close> are \<open>uint32\<close> or
  length-delimited. The fields of a message with their numbers, in order.
\<close>

datatype pb_value = PB_uint32 u32 | PB_bytes "u8 list"

type_synonym pb_field = "nat \<times> pb_value"

definition pb_words :: "u32 list \<Rightarrow> pb_field list" where
  "pb_words ws = map (\<lambda>(i, w). (Suc i, PB_uint32 w)) (enumerate 0 ws)"

definition pb_opt :: "nat \<Rightarrow> u8 list option \<Rightarrow> pb_field list" where
  "pb_opt n v = (case v of None \<Rightarrow> [] | Some bs \<Rightarrow> [(n, PB_bytes bs)])"

fun pb_fields :: "protobuf_message \<Rightarrow> pb_field list" where
  "pb_fields (P_capabilities a b c d e f g h) = pb_words [a, b, c, d, e, f, g, h]"
| "pb_fields (P_keyboardSync a b) = pb_words [a, b]"
| "pb_fields (P_keyboardScanCode a b c d) = pb_words [a, b, c, d]"
| "pb_fields (P_keyboardUnicode a b c) = pb_words [a, b, c]"
| "pb_fields (P_mouseEvent a b c d) = pb_words [a, b, c, d]"
| "pb_fields (P_mouseExtendedEvent a b c d) = pb_words [a, b, c, d]"
| "pb_fields (P_syncRequest a) = pb_words [a]"
| "pb_fields (P_sbpReply a b c d) = pb_words [a, b, c] @ [(4, PB_bytes d)]"
| "pb_fields (P_seatNew a b c d) = pb_words [a, b, c, d]"
| "pb_fields (P_seatRemoved a) = pb_words [a]"
| "pb_fields (P_message a b c d ps) = pb_words [a, b, c, d] @ map (\<lambda>p. (5, PB_bytes p)) ps"
| "pb_fields (P_versionReply a b c) = pb_words [a, b] @ pb_opt 3 c"
| "pb_fields (P_framebufferInfos a b c d e f g h) = pb_words [a, b, c, d, e, f, g, h]"
| "pb_fields (P_setPointerShape a b c d e m x h) =
     pb_words [a, b, c, d, e] @ pb_opt 6 m @ pb_opt 7 x @ [(8, PB_uint32 h)]"
| "pb_fields (P_beep a b) = pb_words [a, b]"
| "pb_fields (P_setSystemPointer a b) = pb_words [a, b]"
| "pb_fields (P_sbpRequest a b c) = pb_words [a, b] @ [(3, PB_bytes c)]"
| "pb_fields (P_syncReply a) = pb_words [a]"
| "pb_fields (P_messageReply a b) = pb_words [a, b]"

text \<open>Looking up the last value of a singular field, and all values of a repeated one.\<close>

definition pb_get32 :: "pb_field list \<Rightarrow> nat \<Rightarrow> u32 option" where
  "pb_get32 fs n = (case rev [w. (m, PB_uint32 w) \<leftarrow> fs, m = n] of [] \<Rightarrow> None | w # _ \<Rightarrow> Some w)"

definition pb_all :: "pb_field list \<Rightarrow> nat \<Rightarrow> u8 list list" where
  "pb_all fs n = [bs. (m, PB_bytes bs) \<leftarrow> fs, m = n]"

definition pb_getbytes :: "pb_field list \<Rightarrow> nat \<Rightarrow> u8 list option" where
  "pb_getbytes fs n = (case rev (pb_all fs n) of [] \<Rightarrow> None | bs # _ \<Rightarrow> Some bs)"

text \<open>The required words with the numbers 1 to \<open>n\<close>.\<close>

definition pb_required :: "pb_field list \<Rightarrow> nat list \<Rightarrow> u32 list option" where
  "pb_required fs ns = those (map (pb_get32 fs) ns)"

definition pb_build :: "protobuf_type \<Rightarrow> pb_field list \<Rightarrow> protobuf_message option" where
  "pb_build t fs =
     (case t of
        T_capabilities \<Rightarrow> (case pb_required fs [1, 2, 3, 4, 5, 6, 7, 8] of
          Some [a, b, c, d, e, f, g, h] \<Rightarrow> Some (P_capabilities a b c d e f g h) | _ \<Rightarrow> None)
      | T_keyboardSync \<Rightarrow> (case pb_required fs [1, 2] of Some [a, b] \<Rightarrow> Some (P_keyboardSync a b) | _ \<Rightarrow> None)
      | T_keyboardScanCode \<Rightarrow> (case pb_required fs [1, 2, 3, 4] of
          Some [a, b, c, d] \<Rightarrow> Some (P_keyboardScanCode a b c d) | _ \<Rightarrow> None)
      | T_keyboardUnicode \<Rightarrow> (case pb_required fs [1, 2, 3] of
          Some [a, b, c] \<Rightarrow> Some (P_keyboardUnicode a b c) | _ \<Rightarrow> None)
      | T_mouseEvent \<Rightarrow> (case pb_required fs [1, 2, 3, 4] of
          Some [a, b, c, d] \<Rightarrow> Some (P_mouseEvent a b c d) | _ \<Rightarrow> None)
      | T_mouseExtendedEvent \<Rightarrow> (case pb_required fs [1, 2, 3, 4] of
          Some [a, b, c, d] \<Rightarrow> Some (P_mouseExtendedEvent a b c d) | _ \<Rightarrow> None)
      | T_syncRequest \<Rightarrow> (case pb_required fs [1] of Some [a] \<Rightarrow> Some (P_syncRequest a) | _ \<Rightarrow> None)
      | T_sbpReply \<Rightarrow> (case (pb_required fs [1, 2, 3], pb_getbytes fs 4) of
          (Some [a, b, c], Some d) \<Rightarrow> Some (P_sbpReply a b c d) | _ \<Rightarrow> None)
      | T_seatNew \<Rightarrow> (case pb_required fs [1, 2, 3, 4] of
          Some [a, b, c, d] \<Rightarrow> Some (P_seatNew a b c d) | _ \<Rightarrow> None)
      | T_seatRemoved \<Rightarrow> (case pb_required fs [1] of Some [a] \<Rightarrow> Some (P_seatRemoved a) | _ \<Rightarrow> None)
      | T_message \<Rightarrow> (case pb_required fs [1, 2, 3, 4] of
          Some [a, b, c, d] \<Rightarrow> Some (P_message a b c d (pb_all fs 5)) | _ \<Rightarrow> None)
      | T_versionReply \<Rightarrow> (case pb_required fs [1, 2] of
          Some [a, b] \<Rightarrow> Some (P_versionReply a b (pb_getbytes fs 3)) | _ \<Rightarrow> None)
      | T_framebufferInfos \<Rightarrow> (case pb_required fs [1, 2, 3, 4, 5, 6, 7, 8] of
          Some [a, b, c, d, e, f, g, h] \<Rightarrow> Some (P_framebufferInfos a b c d e f g h) | _ \<Rightarrow> None)
      | T_setPointerShape \<Rightarrow> (case pb_required fs [1, 2, 3, 4, 5, 8] of
          Some [a, b, c, d, e, h] \<Rightarrow>
            Some (P_setPointerShape a b c d e (pb_getbytes fs 6) (pb_getbytes fs 7) h) | _ \<Rightarrow> None)
      | T_beep \<Rightarrow> (case pb_required fs [1, 2] of Some [a, b] \<Rightarrow> Some (P_beep a b) | _ \<Rightarrow> None)
      | T_setSystemPointer \<Rightarrow> (case pb_required fs [1, 2] of
          Some [a, b] \<Rightarrow> Some (P_setSystemPointer a b) | _ \<Rightarrow> None)
      | T_sbpRequest \<Rightarrow> (case (pb_required fs [1, 2], pb_getbytes fs 3) of
          (Some [a, b], Some c) \<Rightarrow> Some (P_sbpRequest a b c) | _ \<Rightarrow> None)
      | T_syncReply \<Rightarrow> (case pb_required fs [1] of Some [a] \<Rightarrow> Some (P_syncReply a) | _ \<Rightarrow> None)
      | T_messageReply \<Rightarrow> (case pb_required fs [1, 2] of
          Some [a, b] \<Rightarrow> Some (P_messageReply a b) | _ \<Rightarrow> None))"

fun varint :: "nat \<Rightarrow> u8 list" where
  "varint n = (if n < 128 then [of_nat n] else of_nat (n mod 128 + 128) # varint (n div 128))"

declare varint.simps [simp del]

fun unvarint :: "u8 list \<Rightarrow> (nat \<times> u8 list) option" where
  "unvarint [] = None"
| "unvarint (b # bs) =
     (if unat b < 128 then Some (unat b, bs)
      else map_option (\<lambda>(n, r). (unat b - 128 + 128 * n, r)) (unvarint bs))"

fun field_bytes :: "pb_field \<Rightarrow> u8 list" where
  "field_bytes (n, PB_uint32 w) = varint (8 * n) @ varint (unat w)"
| "field_bytes (n, PB_bytes bs) = varint (8 * n + 2) @ varint (length bs) @ bs"

lemma unvarint_shorter: "unvarint bs = Some (n, r) \<Longrightarrow> length r < length bs"
  by (induction bs arbitrary: n r) (fastforce split: if_splits)+

function read_fields :: "u8 list \<Rightarrow> pb_field list option" where
  "read_fields bs =
     (if bs = [] then Some []
      else case unvarint bs of
             None \<Rightarrow> None
           | Some (t, r) \<Rightarrow>
               (case unvarint r of
                  None \<Rightarrow> None
                | Some (v, r') \<Rightarrow>
                    if t mod 8 = 0
                    then map_option ((#) (t div 8, PB_uint32 (of_nat v))) (read_fields r')
                    else if t mod 8 = 2 \<and> v \<le> length r'
                    then map_option ((#) (t div 8, PB_bytes (take v r'))) (read_fields (drop v r'))
                    else None))"
  by pat_completeness auto
termination
  by (relation "measure length") (auto dest!: unvarint_shorter)

declare read_fields.simps [simp del]

definition pb_codec :: protobuf where
  "pb_codec =
     \<lparr>pack = (\<lambda>p. concat (map field_bytes (pb_fields p))),
      unpack = (\<lambda>t bs. case read_fields bs of None \<Rightarrow> None | Some fs \<Rightarrow> pb_build t fs),
      packed_size = (\<lambda>p. int (length (concat (map field_bytes (pb_fields p)))))\<rparr>"

text \<open>
  What the code relies on: packing and unpacking a message are inverse, unpacking gives a message
  of the type asked for, and the packed size is the number of bytes packing writes, as long as it
  fits the C type.
\<close>

locale protobuf_laws =
  fixes C :: protobuf
  assumes unpack_pack: "unpack C (ptype p) (pack C p) = Some p"
    and unpack_type: "unpack C t bs = Some p \<Longrightarrow> ptype p = t"
    and size_pack: "length (pack C p) < 2 ^ 31 \<Longrightarrow> packed_size C p = int (length (pack C p))"

section \<open>The protobuf encoding\<close>

lemma unvarint_varint: "unvarint (varint n @ bs) = Some (n, bs)"
proof (induction n rule: varint.induct)
  case (1 n)
  show ?case
  proof (cases "n < 128")
    case True
    then show ?thesis by (simp add: varint.simps unat_of_nat take_bit_nat_eq_self)
  next
    case False
    have "unat (of_nat (n mod 128 + 128) :: u8) = n mod 128 + 128"
      by (simp add: unat_of_nat take_bit_nat_eq_self del: of_nat_add)
    then show ?thesis using 1 [OF False] False
      by (subst varint.simps) (simp del: of_nat_add)
  qed
qed

lemma varint_nonempty [simp]: "varint n \<noteq> []"
  by (subst varint.simps) simp

lemma read_fields_uint32:
  "read_fields (field_bytes (n, PB_uint32 w) @ bs) = map_option ((#) (n, PB_uint32 w)) (read_fields bs)"
  by (subst read_fields.simps) (simp add: unvarint_varint)

lemma read_fields_delimited:
  "read_fields (field_bytes (n, PB_bytes v) @ bs) = map_option ((#) (n, PB_bytes v)) (read_fields bs)"
proof -
  have "(8 * n + 2) mod 8 = 2" "(8 * n + 2) div 8 = n" by presburger+
  then show ?thesis by (subst read_fields.simps) (simp add: unvarint_varint)
qed

lemma read_fields_field:
  "read_fields (field_bytes f @ bs) = map_option ((#) f) (read_fields bs)"
proof (cases f)
  case (Pair n v)
  then show ?thesis by (cases v) (simp_all only: read_fields_uint32 read_fields_delimited)
qed

lemma read_fields_bytes: "read_fields (concat (map field_bytes fs)) = Some fs"
  by (induction fs) (simp_all add: read_fields_field, simp add: read_fields.simps)

lemma concat_map_empty: "concat (map (\<lambda>x. []) xs) = []"
  by (induction xs) simp_all

lemma pb_build_fields: "pb_build (ptype p) (pb_fields p) = Some p"
  by (cases p) (simp_all add: pb_build_def pb_required_def pb_get32_def pb_getbytes_def pb_all_def
      pb_words_def pb_opt_def o_def concat_map_empty split: option.split)

lemma case_some_cons:
  "(case r of None \<Rightarrow> None | Some [] \<Rightarrow> None | Some (x # xs) \<Rightarrow> f x xs) = Some p \<Longrightarrow>
    (\<And>x xs. r = Some (x # xs) \<Longrightarrow> f x xs = Some p \<Longrightarrow> P) \<Longrightarrow> P"
  by (auto split: option.splits list.splits)

lemma case_cons:
  "(case xs of [] \<Rightarrow> None | x # xs \<Rightarrow> f x xs) = Some p \<Longrightarrow>
    (\<And>x ys. f x ys = Some p \<Longrightarrow> P) \<Longrightarrow> P"
  by (auto split: list.splits)

lemma pb_build_type: "pb_build t fs = Some p \<Longrightarrow> ptype p = t"
  by (cases t; simp add: pb_build_def; (erule case_some_cons case_cons | clarsimp split: list.splits option.splits)+)

interpretation pb: protobuf_laws pb_codec
proof
  show "unpack pb_codec (ptype p) (pack pb_codec p) = Some p" for p
    by (simp add: pb_codec_def read_fields_bytes pb_build_fields)
  show "ptype p = t" if "unpack pb_codec t bs = Some p" for t bs p
    using that by (auto simp: pb_codec_def split: option.splits intro: pb_build_type)
  show "packed_size pb_codec p = int (length (pack pb_codec p))" for p
    unfolding pb_codec_def by simp
qed

end
