(* ===== verification/Backend_Roundtrip.thy ===== *)
theory Backend_Roundtrip
  imports Backend_Protobuf
begin

text \<open>
  The readers are the inverses of the preparers for every message a caller may send, and the
  memory of a message is accounted for.
\<close>

section \<open>Round trip of the messages\<close>

text \<open>The type numbers of a message.\<close>

fun message_types :: "ogon_message \<Rightarrow> u16 list" where
  "message_types (SetPointer _ _ _ _ _ _ _ _ _ _) = [0]"
| "message_types (FramebufferInfo _ _ _ _ _ _ _ _) = [1]"
| "message_types (Beep _ _) = [2]"
| "message_types (SetSystemPointer _ _) = [3]"
| "message_types (SbpRequest _ _ _ _) = [4]"
| "message_types (FramebufferSyncReply _) = [5]"
| "message_types (MessageReply _ _) = [6]"
| "message_types (Version _ _ _) = [7, 20]"
| "message_types (Capabilities _ _ _ _ _ _ _) = [8]"
| "message_types (SynchronizeKeyboard _ _) = [9]"
| "message_types (ScancodeKeyboard _ _ _ _) = [10]"
| "message_types (UnicodeKeyboard _ _ _) = [11]"
| "message_types (Mouse _ _ _ _) = [12]"
| "message_types (ExtendedMouse _ _ _ _) = [13]"
| "message_types (FramebufferSyncRequest _) = [14, 16]"
| "message_types (SbpReply _ _ _ _ _) = [15]"
| "message_types (SeatNew _ _ _ _) = [17]"
| "message_types (SeatRemoved _) = [18]"
| "message_types (UserMessage _ _ _ _ _ _ _ _) = [19]"

text \<open>
  Messages a caller may send: the lengths are those of the buffers, an empty buffer is the null
  pointer, strings have no zero byte, and a user message has at most five parameters.
\<close>

definition cstring_ok :: "cstring \<Rightarrow> bool" where
  "cstring_ok s \<longleftrightarrow> 0 \<notin> set s"

definition buffer_ok :: "u32 \<Rightarrow> u8 list option \<Rightarrow> bool" where
  "buffer_ok n d = (case d of None \<Rightarrow> n = 0 | Some bs \<Rightarrow> unat n = length bs)"

definition parameter_ok :: "u32 \<times> cstring option \<Rightarrow> bool" where
  "parameter_ok q = (case q of (n, None) \<Rightarrow> False | (n, Some s) \<Rightarrow> n = of_nat (length s) \<and> cstring_ok s)"

definition parameters_ok :: "nat \<Rightarrow> (u32 \<times> cstring option) list \<Rightarrow> bool" where
  "parameters_ok n ps \<longleftrightarrow> n \<le> 5 \<and> length ps = 5 \<and> list_all parameter_ok (take n ps) \<and>
     drop n ps = replicate (5 - n) (0, None)"

fun message_ok :: "ogon_message \<Rightarrow> bool" where
  "message_ok (SetPointer _ _ _ _ _ la lx xm am _) = (buffer_ok la am \<and> buffer_ok lx xm)"
| "message_ok (SbpRequest _ _ n d) = (buffer_ok n d \<and> d \<noteq> Some [])"
| "message_ok (SbpReply _ _ _ n d) = (buffer_ok n d \<and> d \<noteq> Some [])"
| "message_ok (Version _ _ cookie) = (case cookie of None \<Rightarrow> True | Some s \<Rightarrow> cstring_ok s)"
| "message_ok (UserMessage _ _ _ _ n ps tag ty) = (parameters_ok (unat n) ps \<and> tag = 0 \<and> ty = 0)"
| "message_ok _ = True"

definition bytes_of :: "u8 list option \<Rightarrow> u8 list" where
  "bytes_of d = (case d of None \<Rightarrow> [] | Some bs \<Rightarrow> bs)"

fun to_proto :: "ogon_message \<Rightarrow> protobuf_message" where
  "to_proto (SetPointer bpp x y w h la lx xm am ci) = P_setPointerShape x y w h bpp am xm ci"
| "to_proto (FramebufferInfo v w h sc bpp bypp ui ms) = P_framebufferInfos v w h sc bpp bypp ui (if ms then 1 else 0)"
| "to_proto (Beep du fr) = P_beep du fr"
| "to_proto (SetSystemPointer ty ci) = P_setSystemPointer ty ci"
| "to_proto (SbpRequest ty tag n d) = P_sbpRequest ty tag (bytes_of d)"
| "to_proto (FramebufferSyncReply b) = P_syncReply b"
| "to_proto (MessageReply mid res) = P_messageReply mid res"
| "to_proto (Version a b c) = P_versionReply a b c"
| "to_proto (Capabilities dw dh cd kl kt ks ci) = P_capabilities 0 dw dh cd kl kt ks ci"
| "to_proto (SynchronizeKeyboard fl ci) = P_keyboardSync fl ci"
| "to_proto (ScancodeKeyboard fl co kt ci) = P_keyboardScanCode fl co kt ci"
| "to_proto (UnicodeKeyboard fl co ci) = P_keyboardUnicode fl co ci"
| "to_proto (Mouse fl x y ci) = P_mouseEvent fl x y ci"
| "to_proto (ExtendedMouse fl x y ci) = P_mouseExtendedEvent fl x y ci"
| "to_proto (FramebufferSyncRequest b) = P_syncRequest b"
| "to_proto (SbpReply ty tag st n d) = P_sbpReply st tag ty (bytes_of d)"
| "to_proto (SeatNew ci kl kt ks) = P_seatNew ci kl kt ks"
| "to_proto (SeatRemoved ci) = P_seatRemoved ci"
| "to_proto (UserMessage mid ty st ti n ps _ _) = P_message mid ty st ti (map (\<lambda>q. the (snd q)) (take (unat n) ps))"

definition blocks :: "ogon_message \<Rightarrow> nat" where
  "blocks m = (case m of UserMessage _ _ _ _ n _ _ _ \<Rightarrow> of_bool (n \<noteq> 0) | _ \<Rightarrow> 0)"

definition balanced :: "message_reader \<Rightarrow> (ogon_message \<Rightarrow> nat) \<Rightarrow> bool" where
  "balanced rd fr \<longleftrightarrow> (\<forall>C A s. case rd C A s of
     (Some m, live) \<Rightarrow> live = fr m | (None, live) \<Rightarrow> live = 0)"

lemmas descriptor_defs =
  capabilities_descriptor_def version_descriptor_def synchronize_keyboard_descriptor_def
  scancode_keyboard_descriptor_def unicode_keyboard_descriptor_def mouse_descriptor_def
  extended_mouse_descriptor_def framebuffer_sync_request_descriptor_def sbp_reply_descriptor_def
  immediate_sync_request_descriptor_def seat_new_descriptor_def seat_removed_descriptor_def
  user_message_descriptor_def set_pointer_descriptor_def set_system_pointer_descriptor_def
  framebuffer_info_descriptor_def beep_descriptor_def sbp_request_descriptor_def
  framebuffer_sync_reply_descriptor_def message_reply_descriptor_def

lemma messages_nth [simp]:
  "DESCRIPTORS_NB = 21"
  "md_Read (messages ! 0) = ogon_read_set_pointer" "md_Prepare (messages ! 0) = ogon_prepare_set_pointer"
  "md_Read (messages ! Suc 0) = ogon_read_framebuffer_info" "md_Prepare (messages ! Suc 0) = ogon_prepare_framebuffer_info"
  "md_Read (messages ! 2) = ogon_read_beep" "md_Prepare (messages ! 2) = ogon_prepare_beep"
  "md_Read (messages ! 3) = ogon_read_set_system_pointer" "md_Prepare (messages ! 3) = ogon_prepare_set_system_pointer"
  "md_Read (messages ! 4) = ogon_read_sbp_request" "md_Prepare (messages ! 4) = ogon_prepare_sbp_request"
  "md_Read (messages ! 5) = ogon_read_framebuffer_sync_reply" "md_Prepare (messages ! 5) = ogon_write_framebuffer_sync_reply"
  "md_Read (messages ! 6) = ogon_read_message_reply" "md_Prepare (messages ! 6) = ogon_prepare_message_reply"
  "md_Read (messages ! 7) = ogon_read_version" "md_Prepare (messages ! 7) = ogon_prepare_version"
  "md_Read (messages ! 8) = ogon_read_capabilities" "md_Prepare (messages ! 8) = ogon_prepare_capabilities"
  "md_Read (messages ! 9) = ogon_read_synchronize_keyboard_event"
  "md_Prepare (messages ! 9) = ogon_prepare_synchronize_keyboard_event"
  "md_Read (messages ! 10) = ogon_read_scancode_keyboard_event"
  "md_Prepare (messages ! 10) = ogon_prepare_scancode_keyboard_event"
  "md_Read (messages ! 11) = ogon_read_unicode_keyboard_event"
  "md_Prepare (messages ! 11) = ogon_prepare_unicode_keyboard_event"
  "md_Read (messages ! 12) = ogon_read_mouse_event" "md_Prepare (messages ! 12) = ogon_prepare_mouse_event"
  "md_Read (messages ! 13) = ogon_read_extended_mouse_event"
  "md_Prepare (messages ! 13) = ogon_prepare_extended_mouse_event"
  "md_Read (messages ! 14) = ogon_read_framebuffer_sync_request"
  "md_Prepare (messages ! 14) = ogon_prepare_framebuffer_sync_request"
  "md_Read (messages ! 15) = ogon_read_sbp_reply" "md_Prepare (messages ! 15) = ogon_prepare_sbp_reply"
  "md_Read (messages ! 16) = ogon_read_framebuffer_sync_request"
  "md_Prepare (messages ! 16) = ogon_prepare_framebuffer_sync_request"
  "md_Read (messages ! 17) = ogon_read_seat_new" "md_Prepare (messages ! 17) = ogon_prepare_seat_new"
  "md_Read (messages ! 18) = ogon_read_seat_removed" "md_Prepare (messages ! 18) = ogon_prepare_seat_removed"
  "md_Read (messages ! 19) = ogon_read_user_message" "md_Prepare (messages ! 19) = ogon_prepare_user_message"
  "md_Read (messages ! 20) = ogon_read_version" "md_Prepare (messages ! 20) = ogon_prepare_version"
  by (simp_all add: DESCRIPTORS_NB_def messages_def descriptor_defs)

lemma messages_cleanup [simp]:
  "n < 21 \<Longrightarrow> md_Unprepare (messages ! n) = (if n = 19 then Some ogon_unprepare_user_message else None)"
  "n < 21 \<Longrightarrow> md_Free (messages ! n) =
     (if n = 0 then Some ogon_set_pointer_free else if n = 4 then Some ogon_sbp_request_free
      else if n = 7 \<or> n = 20 then Some ogon_free_version else if n = 15 then Some ogon_sbp_reply_free
      else if n = 19 then Some ogon_user_message_free else None)"
proof -
  have range: "n < 21 \<Longrightarrow> n \<in> set [0..<21]" by simp
  have "list_all (\<lambda>n. md_Unprepare (messages ! n) = (if n = 19 then Some ogon_unprepare_user_message else None))
      [0..<21]"
    by (simp add: messages_def descriptor_defs upt_rec)
  then show "n < 21 \<Longrightarrow> md_Unprepare (messages ! n) = (if n = 19 then Some ogon_unprepare_user_message else None)"
    using range by (simp add: list_all_iff)
  have "list_all (\<lambda>n. md_Free (messages ! n) =
     (if n = 0 then Some ogon_set_pointer_free else if n = 4 then Some ogon_sbp_request_free
      else if n = 7 \<or> n = 20 then Some ogon_free_version else if n = 15 then Some ogon_sbp_reply_free
      else if n = 19 then Some ogon_user_message_free else None)) [0..<21]"
    by (simp add: messages_def descriptor_defs upt_rec)
  then show "n < 21 \<Longrightarrow> md_Free (messages ! n) =
     (if n = 0 then Some ogon_set_pointer_free else if n = 4 then Some ogon_sbp_request_free
      else if n = 7 \<or> n = 20 then Some ogon_free_version else if n = 15 then Some ogon_sbp_reply_free
      else if n = 19 then Some ogon_user_message_free else None)"
    using range by (simp add: list_all_iff)
qed

lemmas reader_defs = ogon_read_capabilities_def ogon_read_synchronize_keyboard_event_def
  ogon_read_scancode_keyboard_event_def ogon_read_unicode_keyboard_event_def ogon_read_mouse_event_def
  ogon_read_extended_mouse_event_def ogon_read_framebuffer_sync_request_def ogon_read_seat_new_def
  ogon_read_seat_removed_def ogon_read_set_system_pointer_def ogon_read_beep_def
  ogon_read_framebuffer_sync_reply_def ogon_read_message_reply_def ogon_read_framebuffer_info_def

lemmas preparer_defs = ogon_prepare_capabilities_def ogon_prepare_synchronize_keyboard_event_def
  ogon_prepare_scancode_keyboard_event_def ogon_prepare_unicode_keyboard_event_def
  ogon_prepare_mouse_event_def ogon_prepare_extended_mouse_event_def
  ogon_prepare_framebuffer_sync_request_def ogon_prepare_seat_new_def ogon_prepare_seat_removed_def
  ogon_prepare_set_system_pointer_def ogon_prepare_beep_def ogon_write_framebuffer_sync_reply_def
  ogon_prepare_message_reply_def ogon_prepare_framebuffer_info_def ogon_prepare_version_def

lemma blob_buffer: "buffer_ok n d \<Longrightarrow> blob n d = Inr (bytes_of d)"
  by (auto simp: blob_def buffer_ok_def bytes_of_def split: option.splits)

lemma buffer_length: "unat n = length bs \<Longrightarrow> of_nat (length bs) = (n :: u32)"
  by (drule sym) simp

lemma mask_buffer: "buffer_ok n d \<Longrightarrow> prepare_mask n d = Inr d"
  by (auto simp: prepare_mask_def blob_buffer bytes_of_def)

lemma strdup_ok: "cstring_ok s \<Longrightarrow> strdup s = s"
  by (auto simp: strdup_def cstring_ok_def)

lemma parameters_strings:
  assumes "parameters_ok n ps"
  shows "map (\<lambda>i. if i < 5 then snd (ps ! i) else None) [0..<n] = map snd (take n ps)"
    "None \<notin> set (map snd (take n ps))" "length (take n ps) = n"
proof -
  have n: "n \<le> 5" "length ps = 5" and all: "list_all parameter_ok (take n ps)"
    using assms by (simp_all add: parameters_ok_def)
  show "length (take n ps) = n" using n by simp
  show "map (\<lambda>i. if i < 5 then snd (ps ! i) else None) [0..<n] = map snd (take n ps)"
    using n by (intro nth_equalityI) simp_all
  show "None \<notin> set (map snd (take n ps))"
    using all by (auto simp: list_all_iff parameter_ok_def split: option.splits)
qed

lemma read_parameters_ok:
  assumes "list_all parameter_ok qs" "\<And>i. A i"
  shows "read_parameters A i (map (\<lambda>q. the (snd q)) qs) = (True, qs)"
  using assms(1)
proof (induction qs arbitrary: i)
  case (Cons q qs)
  then obtain n s where "q = (n, Some s)" "n = of_nat (length s)" "cstring_ok s"
    by (cases q) (auto simp: parameter_ok_def split: option.splits)
  then show ?case using Cons assms(2) by (simp add: ogon_read_string_def strdup_ok)
qed simp

lemma user_message_prepare:
  assumes "parameters_ok (unat n) ps" "\<And>i. A i" "m = UserMessage mid ty st ti n ps tag t"
  shows "ogon_prepare_user_message C A m = Inr (packed_size C (to_proto m), to_proto m, blocks m)"
proof (cases "n = 0")
  case True
  then show ?thesis by (simp add: assms(3) ogon_prepare_user_message_def prepared_def blocks_def Let_def)
next
  case False
  let ?strings = "map (\<lambda>i. if i < 5 then snd (ps ! i) else None) [0..<unat n]"
  let ?p = "P_message mid ty st ti (map the ?strings)"
  note s = parameters_strings [OF assms(1)]
  have none: "None \<notin> set ?strings" unfolding s(1) by (rule s(2))
  have "?p = to_proto m" unfolding s(1) assms(3) by (simp add: o_def)
  moreover have "ogon_prepare_user_message C A m = Inr (packed_size C ?p, ?p, 1)"
    unfolding assms(3) ogon_prepare_user_message_def ogon_message.case Let_def
    using False assms(2) none by (simp only: if_False if_True simp_thms)
  ultimately show ?thesis using False by (simp add: assms(3) blocks_def)
qed

lemma prepare_message:
  assumes "message_ok m" "type \<in> set (message_types m)" "\<And>i. A i"
  shows "ogon_message_prepare C A type m = Inr (packed_size C (to_proto m), to_proto m, blocks m)"
proof (cases m)
  case (SetPointer bpp x y w h la lx xm am ci)
  then show ?thesis using assms
    by (simp add: ogon_message_prepare_def ogon_prepare_set_pointer_def mask_buffer prepared_def blocks_def)
next
  case (SbpRequest ty tag n d)
  then show ?thesis using assms
    by (simp add: ogon_message_prepare_def ogon_prepare_sbp_request_def blob_buffer prepared_def blocks_def)
next
  case (SbpReply ty tag st n d)
  then show ?thesis using assms
    by (simp add: ogon_message_prepare_def ogon_prepare_sbp_reply_def blob_buffer prepared_def blocks_def)
next
  case (UserMessage mid ty st ti n ps tag t)
  then show ?thesis using assms user_message_prepare [of n ps A, OF _ _ UserMessage]
    by (simp add: ogon_message_prepare_def)
qed (use assms(2) in \<open>auto simp: ogon_message_prepare_def preparer_defs prepared_def blocks_def
      BACKEND_FLAGS_MULTISEAT_def\<close>)

lemma held_params:
  "list_all parameter_ok qs \<Longrightarrow> sum_list (map (\<lambda>q. held (snd q)) qs) = length qs"
  by (induction qs) (auto simp: held_def parameter_ok_def split: option.splits)

lemma held_padding: "sum_list (map (\<lambda>q. held (snd q)) (replicate k (0, None))) = 0"
  by (induction k) (simp_all add: held_def)

context protobuf_laws
begin

lemma unpack_as: "ptype p = t \<Longrightarrow> unpack C t (pack C p) = Some p"
  using unpack_pack [of p] by simp

lemma user_message_read:
  assumes "parameters_ok (unat n) ps" "\<And>i. A i" "m = UserMessage mid ty st ti n ps 0 0"
  shows "ogon_read_user_message C A (pack C (to_proto m)) = (Some m, ogon_user_message_free m)"
proof -
  let ?qs = "take (unat n) ps"
  have ok: "list_all parameter_ok ?qs" and len: "length ?qs = unat n" and le: "unat n \<le> 5"
    and pad: "drop (unat n) ps = replicate (5 - unat n) (0, None)"
    using assms(1) by (simp_all add: parameters_ok_def)
  have ps: "ps = ?qs @ replicate (5 - unat n) (0, None)" using pad append_take_drop_id [of "unat n" ps] by simp
  have free: "ogon_user_message_free m = length ?qs"
    unfolding ogon_user_message_free_def assms(3) ogon_message.sel
    by (subst ps) (simp only: map_append sum_list_append held_params [OF ok] held_padding)
  have "of_nat (unat n) = n" "min 5 (unat n) = unat n" using le by simp_all
  then show ?thesis
    using read_parameters_ok [where i = 0, OF ok assms(2)] len ps free
    by (simp add: assms(3) ogon_read_user_message_def unpack_as Let_def)
qed

lemma read_message:
  assumes "message_ok m" "type \<in> set (message_types m)" "\<And>i. A i"
  shows "ogon_message_read C A (pack C (to_proto m)) type = (Some m, ogon_message_free type m True)"
proof (cases m)
  case (SetPointer bpp x y w h la lx xm am ci)
  then show ?thesis using assms
    by (auto simp: ogon_message_read_def ogon_message_free_def ogon_read_set_pointer_def unpack_as Let_def
        ogon_set_pointer_free_def buffer_ok_def buffer_length split: option.splits)
next
  case (SbpRequest ty tag n d)
  then show ?thesis using assms
    by (auto simp: ogon_message_read_def ogon_message_free_def ogon_read_sbp_request_def unpack_as
        bytes_of_def ogon_sbp_request_free_def buffer_ok_def buffer_length held_def split: option.splits)
next
  case (SbpReply ty tag st n d)
  then show ?thesis using assms
    by (auto simp: ogon_message_read_def ogon_message_free_def ogon_read_sbp_reply_def unpack_as
        bytes_of_def ogon_sbp_reply_free_def buffer_ok_def buffer_length held_def split: option.splits)
next
  case (Version a b c)
  then show ?thesis using assms
    by (cases c) (auto simp: ogon_message_read_def ogon_message_free_def ogon_read_version_def unpack_as
        ogon_free_version_def held_def strdup_ok)
next
  case (UserMessage mid ty st ti n ps tag t)
  then show ?thesis using assms user_message_read [of n ps A m mid ty st ti]
    by (simp add: ogon_message_read_def ogon_message_free_def)
qed (use assms(2) in \<open>auto simp: ogon_message_read_def ogon_message_free_def reader_defs unpack_as
      BACKEND_FLAGS_MULTISEAT_def\<close>)

end

section \<open>Memory of the readers\<close>

lemma plain_balanced:
  "balanced ogon_read_capabilities (\<lambda>_. 0)" "balanced ogon_read_synchronize_keyboard_event (\<lambda>_. 0)"
  "balanced ogon_read_scancode_keyboard_event (\<lambda>_. 0)" "balanced ogon_read_unicode_keyboard_event (\<lambda>_. 0)"
  "balanced ogon_read_mouse_event (\<lambda>_. 0)" "balanced ogon_read_extended_mouse_event (\<lambda>_. 0)"
  "balanced ogon_read_framebuffer_sync_request (\<lambda>_. 0)" "balanced ogon_read_seat_new (\<lambda>_. 0)"
  "balanced ogon_read_seat_removed (\<lambda>_. 0)" "balanced ogon_read_set_system_pointer (\<lambda>_. 0)"
  "balanced ogon_read_beep (\<lambda>_. 0)" "balanced ogon_read_framebuffer_sync_reply (\<lambda>_. 0)"
  "balanced ogon_read_message_reply (\<lambda>_. 0)" "balanced ogon_read_framebuffer_info (\<lambda>_. 0)"
  by (simp_all add: balanced_def reader_defs split: option.split protobuf_message.split)

lemma owning_balanced:
  "balanced ogon_read_version ogon_free_version" "balanced ogon_read_sbp_reply ogon_sbp_reply_free"
  "balanced ogon_read_sbp_request ogon_sbp_request_free" "balanced ogon_read_set_pointer ogon_set_pointer_free"
  by (auto simp: balanced_def ogon_read_version_def ogon_free_version_def ogon_read_sbp_reply_def
      ogon_sbp_reply_free_def ogon_read_sbp_request_def ogon_sbp_request_free_def ogon_read_set_pointer_def
      ogon_set_pointer_free_def held_def Let_def split: option.split protobuf_message.split)

lemma read_parameters_held:
  "read_parameters A i ps = (ok, qs) \<Longrightarrow>
    sum_list (map (\<lambda>q. held (snd q)) qs) = length qs \<and> length qs \<le> length ps \<and>
    (\<not> ok \<longrightarrow> length qs < length ps)"
proof (induction A i ps arbitrary: ok qs rule: read_parameters.induct)
  case (2 A i p ps)
  obtain ok' qs' where r: "read_parameters A (Suc i) ps = (ok', qs')" by (rule prod.exhaust)
  show ?case
  proof (cases "A i")
    case True
    then show ?thesis using 2 r by (auto simp: ogon_read_string_def held_def)
  qed (use 2 in \<open>auto simp: ogon_read_string_def\<close>)
qed auto

lemma user_message_live:
  "case ogon_read_user_message C A s of
     (Some m, live) \<Rightarrow> live = ogon_user_message_free m | (None, live) \<Rightarrow> live \<le> 4"
proof (cases "\<exists>a b c d ps. unpack C T_message s = Some (P_message a b c d ps)")
  case True
  then obtain a b c d ps where u: "unpack C T_message s = Some (P_message a b c d ps)" by blast
  define n where "n = (of_nat (length ps) :: u32)"
  obtain ok qs where r: "read_parameters A 0 (take (min 5 (unat n)) ps) = (ok, qs)" by (rule prod.exhaust)
  note held = read_parameters_held [OF r]
  have "length qs \<le> 5" using held by simp
  moreover have "\<not> ok \<Longrightarrow> length qs \<le> 4" using held by simp
  ultimately show ?thesis using held
    by (simp add: ogon_read_user_message_def u n_def [symmetric] r Let_def ogon_user_message_free_def held_def
        del: map_replicate)
qed (simp add: ogon_read_user_message_def split: option.split protobuf_message.split)

lemma read_balanced:
  assumes "n < 21" "n \<noteq> 19"
  shows "balanced (md_Read (messages ! n)) (\<lambda>m. case md_Free (messages ! n) of None \<Rightarrow> 0 | Some f \<Rightarrow> f m)"
proof -
  have "list_all (\<lambda>n. n \<noteq> 19 \<longrightarrow> balanced (md_Read (messages ! n))
      (\<lambda>m. case md_Free (messages ! n) of None \<Rightarrow> 0 | Some f \<Rightarrow> f m)) [0..<21]"
    by (simp add: messages_def descriptor_defs upt_rec plain_balanced owning_balanced)
  then show ?thesis using assms by (simp add: list_all_iff)
qed

lemma message_read_live:
  "case ogon_message_read C A s type of
     (Some m, live) \<Rightarrow> live = ogon_message_free type m True
   | (None, live) \<Rightarrow> live \<le> 4 \<and> (type \<noteq> 19 \<longrightarrow> live = 0)"
proof (cases "unat type < 21 \<and> unat type \<noteq> 19")
  case True
  then have "balanced (md_Read (messages ! unat type))
      (\<lambda>m. case md_Free (messages ! unat type) of None \<Rightarrow> 0 | Some f \<Rightarrow> f m)"
    by (intro read_balanced) simp_all
  then have "case md_Read (messages ! unat type) C A s of
      (Some m, live) \<Rightarrow> live = (case md_Free (messages ! unat type) of None \<Rightarrow> 0 | Some f \<Rightarrow> f m)
    | (None, live) \<Rightarrow> live = 0"
    unfolding balanced_def by (elim allE [of _ C] allE [of _ A] allE [of _ s])
  moreover have "ogon_message_read C A s type = md_Read (messages ! unat type) C A s"
    "ogon_message_free type m True = (case md_Free (messages ! unat type) of None \<Rightarrow> 0 | Some f \<Rightarrow> f m)" for m
    using True by (simp_all add: ogon_message_read_def ogon_message_free_def del: messages_cleanup)
  ultimately show ?thesis by (simp split: prod.splits option.splits del: messages_cleanup)
next
  case False
  show ?thesis
  proof (cases "unat type < 21")
    case True
    then have "unat type = 19" using False by simp
    then have "type = 19" by (simp add: word_unat_eq_iff)
    then show ?thesis using user_message_live [of C A s]
      by (simp add: ogon_message_read_def ogon_message_free_def split: prod.splits option.splits)
  qed (simp add: ogon_message_read_def)
qed

section \<open>Properties\<close>

text \<open>
  C35: a message that is read holds exactly the blocks \<open>ogon_message_free\<close> frees, and a message that
  is refused holds none, for any bytes and any allocation failing; except for the user message,
  where up to four parameters read before a failing \<open>strdup\<close> are lost.
\<close>

theorem message_read_memory:
  "case ogon_message_read C A s type of
     (Some m, live) \<Rightarrow> live = ogon_message_free type m True
   | (None, live) \<Rightarrow> live \<le> 4 \<and> (type \<noteq> 19 \<longrightarrow> live = 0)"
  by (rule message_read_live)

theorem message_read_memory_witness:
  "ogon_message_read pb_codec (\<lambda>i. i \<noteq> 2) (pack pb_codec (P_message 1 2 3 4 [[72], [105], [33]])) 19 = (None, 2) \<and>
   (case ogon_message_read pb_codec (\<lambda>_. True) (pack pb_codec (P_versionReply 1 1 (Some [7]))) 7 of
      (Some m, live) \<Rightarrow> live = ogon_message_free 7 m True | (None, live) \<Rightarrow> live = 0)"
proof
  show "ogon_message_read pb_codec (\<lambda>i. i \<noteq> 2) (pack pb_codec (P_message 1 2 3 4 [[72], [105], [33]])) 19 = (None, 2)"
    by code_simp
  show "case ogon_message_read pb_codec (\<lambda>_. True) (pack pb_codec (P_versionReply 1 1 (Some [7]))) 7 of
      (Some m, live) \<Rightarrow> live = ogon_message_free 7 m True | (None, live) \<Rightarrow> live = 0"
    using message_read_memory [where C = pb_codec and A = "\<lambda>_. True" and
        s = "pack pb_codec (P_versionReply 1 1 (Some [7]))" and type = 7]
    by (simp split: prod.splits option.splits)
qed

end
