(* ===== verification/Backend_Delivery.thy ===== *)
theory Backend_Delivery
  imports Backend_Readers Backend_Roundtrip "HOL-Library.Sublist"
begin

text \<open>
  From one end of the pipe to the other: what is written is what is framed, and what is framed is
  delivered; who is served before the version exchange; and the resources of the two ends.
\<close>

text \<open>
  \<open>ringbuffer_peek\<close> reports chunks with the oldest bytes of the buffer, at least one byte if there
  is one.
\<close>

definition peek_ok :: "(u8 list \<Rightarrow> u8 list list) \<Rightarrow> bool" where
  "peek_ok peek \<longleftrightarrow> (\<forall>rb. prefix (concat (peek rb)) rb \<and> (rb = [] \<longleftrightarrow> peek rb = []) \<and> [] \<notin> set (peek rb))"

definition message_frame :: "protobuf \<Rightarrow> u16 \<times> ogon_message \<Rightarrow> u16 \<times> u8 list" where
  "message_frame C tm = (fst tm, pack C (to_proto (snd tm)))"

definition messages_bytes :: "wire \<Rightarrow> protobuf \<Rightarrow> (u16 \<times> ogon_message) list \<Rightarrow> u8 list" where
  "messages_bytes W C tms = concat (map (frame_bytes W) (map (message_frame C) tms))"

definition sendable :: "protobuf \<Rightarrow> u16 \<times> ogon_message \<Rightarrow> bool" where
  "sendable C tm \<longleftrightarrow> message_ok (snd tm) \<and> fst tm \<in> set (message_types (snd tm)) \<and>
     length (pack C (to_proto (snd tm))) < 2 ^ 31"

datatype backend_op =
    SendMessage u16 ogon_message "(bool \<times> nat) list"
  | PipeBytes bool bool "(bool \<times> nat) list" "pipe_read list"

fun op_messages :: "backend_op \<Rightarrow> (u16 \<times> ogon_message) list" where
  "op_messages (SendMessage type m _) = [(type, m)]"
| "op_messages (PipeBytes _ _ _ _) = []"

definition backend_op_step ::
    "wire \<Rightarrow> protobuf \<Rightarrow> backend_env \<Rightarrow> ogon_backend_connection \<Rightarrow> backend_op \<Rightarrow>
     link_error + ogon_backend_connection \<times> u8 list \<times> backend_event list \<times> nat" where
  "backend_op_step W C E b op =
     (case op of
        SendMessage type m ws \<Rightarrow>
          (case backend_write_rds_message W C E b ws type m of
             Inl e \<Rightarrow> Inl e
           | Inr (ok, live, b, sent) \<Rightarrow> Inr (b, sent, [], if ok then 0 else 1))
      | PipeBytes writable readable ws rs \<Rightarrow> handle_pipe_bytes W C E writable readable b ws rs)"

text \<open>
  A sequence of sends and pipe events; a connection that failed is used until it is closed. The last
  component counts the failed sends and the calls of \<open>ogon_connection_close\<close>.
\<close>

fun backend_run ::
    "wire \<Rightarrow> protobuf \<Rightarrow> backend_env \<Rightarrow> ogon_backend_connection \<Rightarrow> backend_op list \<Rightarrow>
     link_error + ogon_backend_connection \<times> u8 list \<times> backend_event list \<times> nat" where
  "backend_run W C E b [] = Inr (b, [], [], 0)"
| "backend_run W C E b (op # ops) =
     (case backend_op_step W C E b op of
        Inl e \<Rightarrow> Inl e
      | Inr (b, sent, evs, failed) \<Rightarrow>
          map_sum id (\<lambda>(b, sent', evs', failed'). (b, sent @ sent', evs @ evs', failed + failed'))
            (backend_run W C E b ops))"

text \<open>Messages the service sends, each with the results of its \<open>WriteFile\<close> calls.\<close>

fun service_sends ::
    "wire \<Rightarrow> protobuf \<Rightarrow> service_env \<Rightarrow> ogon_backend_service \<Rightarrow> ((u16 \<times> ogon_message) \<times> (bool \<times> nat) list) list \<Rightarrow>
     (ogon_backend_service \<times> u8 list) option" where
  "service_sends W C E s [] = Some (s, [])"
| "service_sends W C E s ((tm, ws) # ops) =
     (case ogon_service_write_message W C (E\<lparr>se_writes := ws\<rparr>) s (fst tm) (snd tm) of
        Inr (True, s, sent) \<Rightarrow> map_option (\<lambda>(s, sent'). (s, sent @ sent')) (service_sends W C E s ops)
      | _ \<Rightarrow> None)"

fun accepts :: "bool \<Rightarrow> cstring \<Rightarrow> backend_event list \<Rightarrow> bool" where
  "accepts exchanged cookie [] = True"
| "accepts exchanged cookie (VersionAccepted v # evs) =
     (exchanged \<or> m_versionMajor v = OGON_PROTOCOL_VERSION_MAJOR \<and> m_cookie v = Some cookie)"
| "accepts exchanged cookie (ServerCall t m # evs) = exchanged"

definition keeps_cookie :: "ogon_backend_connection \<Rightarrow> ogon_backend_connection \<Rightarrow> backend_event list \<Rightarrow> bool" where
  "keeps_cookie b b' evs \<longleftrightarrow>
     be_backendCookie b' = be_backendCookie b \<and>
     (be_version_exchanged b' \<longrightarrow> be_version_exchanged b \<or> evs \<noteq> []) \<and>
     accepts (be_version_exchanged b) (be_backendCookie b) evs"

definition sample_service :: ogon_backend_service where
  "sample_service = the (ogon_service_new True True True True)"

definition sample_service_env :: service_env where
  "sample_service_env = \<lparr>se_alloc = \<lambda>_. True, se_calloc = \<lambda>_. True, se_grow = \<lambda>_. True, se_client = \<lambda>_ _. True,
     se_cookie = Some [7], se_writes = []\<rparr>"

definition sample_peek :: "u8 list \<Rightarrow> u8 list list" where
  "sample_peek rb = (if rb = [] then [] else [take 16 rb])"

definition sample_backend_env :: backend_env where
  "sample_backend_env = \<lparr>be_alloc = \<lambda>_. True, be_calloc = \<lambda>_. True, be_grow = \<lambda>_. True, be_ensure = \<lambda>_. True,
     be_stream_new = \<lambda>_. True, be_commit = \<lambda>_. True, be_peek = sample_peek, be_change_source = True,
     be_dict_add = True, be_server = \<lambda>_. Some (\<lambda>_. 0)\<rparr>"

definition sample_backend :: ogon_backend_connection where
  "sample_backend = \<lparr>be_writeReady = True, be_writeMask = False, be_xmitBuffer = [], be_stateWaitingHeader = True,
     be_expectedReadBytes = 6, be_recvBuffer = [], be_currentInMessageType = 0, be_version_exchanged = False,
     be_backendCookie = [7], be_ogonCookie = None, be_next_message_id = 1, be_message_answer_list = [],
     be_capa_colorDepth = 0\<rparr>"

definition sample_ops :: "backend_op list" where
  "sample_ops = [SendMessage 9 (SynchronizeKeyboard 1 2) [(True, 4), (True, 0)], PipeBytes True False [(True, 3), (True, 9)] []]"

definition sample_sends :: "((u16 \<times> ogon_message) \<times> (bool \<times> nat) list) list" where
  "sample_sends = [((7, Version 1 1 (Some [7])), [(True, 5), (True, 0), (True, 20)]), ((2, Beep 5 6), [(True, 10)])]"

text \<open>The loop of \<open>backend_drain_input\<close> feeds what is read.\<close>

lemma drain_input_feed:
  assumes "feed (be_input W C E) b cs = Some (b', evs)"
  shows "backend_drain_input W C E b (map ReadBytes cs) = Inr (True, b', evs)"
  using assms
proof (induction cs arbitrary: b evs)
  case (Cons c cs)
  then obtain b1 evs1 evs2 where 1: "be_input W C E b c = Some (b1, evs1)"
    "feed (be_input W C E) b1 cs = Some (b', evs2)" "evs = evs1 @ evs2"
    by (auto split: option.splits)
  have "backend_input W C E b c = Inr (True, b1, evs1)"
    using 1(1) by (auto simp: be_input_def split: sum.splits bool.splits)
  then show ?case using Cons.IH [OF 1(2)] 1(3) by simp
qed simp

section \<open>What is written\<close>

lemma write_chunk_sent:
  "write_chunk bs ws = Some (st, sent, ws') \<Longrightarrow> prefix sent bs \<and> (st = None \<longrightarrow> sent = bs) \<and> (st \<noteq> None \<longrightarrow> sent \<noteq> bs)"
proof (induction bs ws arbitrary: sent rule: write_chunk.induct)
  case (3 b bs r written ws)
  show ?case
  proof (cases "\<not> r \<or> written = 0")
    case False
    then obtain sent' where w: "write_chunk (drop written (b # bs)) ws = Some (st, sent', ws')"
      "sent = take written (b # bs) @ sent'"
      using "3.prems" by auto
    note IH = "3.IH" [OF False w(1)]
    have split: "b # bs = take written (b # bs) @ drop written (b # bs)" by simp
    have "prefix sent (take written (b # bs) @ drop written (b # bs))"
      using IH unfolding w(2) same_prefix_prefix by simp
    moreover have "sent = b # bs \<longleftrightarrow> sent' = drop written (b # bs)"
      using w(2) split same_append_eq by metis
    ultimately show ?thesis using IH by auto
  qed (use "3.prems" in auto)
qed simp_all

lemma write_chunks_sent:
  "write_chunks cs ws = Some (st, sent, ws') \<Longrightarrow>
     prefix sent (concat cs) \<and> (st = None \<longrightarrow> sent = concat cs) \<and> (st \<noteq> None \<longrightarrow> sent \<noteq> concat cs)"
proof (induction cs ws arbitrary: sent rule: write_chunks.induct)
  case (2 c cs ws)
  then obtain st1 sent1 ws1 where 1: "write_chunk c ws = Some (st1, sent1, ws1)"
    by (auto split: option.splits)
  note s1 = write_chunk_sent [OF 1]
  show ?case
  proof (cases st1)
    case None
    then obtain sent2 where "write_chunks cs ws1 = Some (st, sent2, ws')" "sent = sent1 @ sent2"
      using "2.prems" 1 by auto
    then show ?thesis using "2.IH" [OF 1] None s1 by auto
  next
    case (Some r)
    then show ?thesis using "2.prems" 1 s1 by (auto simp: prefix_def)
  qed
qed simp

lemma write_chunk_returns:
  "length bs \<le> length ws \<Longrightarrow>
     \<exists>st sent ws'. write_chunk bs ws = Some (st, sent, ws') \<and> length ws \<le> length ws' + length bs"
proof (induction bs ws rule: write_chunk.induct)
  case (3 b bs r written ws)
  show ?case
  proof (cases "\<not> r \<or> written = 0")
    case False
    then have "length (drop written (b # bs)) \<le> length ws" using "3.prems" by auto
    then obtain st sent ws' where "write_chunk (drop written (b # bs)) ws = Some (st, sent, ws')"
      "length ws \<le> length ws' + length (drop written (b # bs))"
      using "3.IH" [OF False] by blast
    then show ?thesis using False by auto
  qed auto
qed auto

lemma write_chunks_returns:
  "length (concat cs) \<le> length ws \<Longrightarrow>
     \<exists>st sent ws'. write_chunks cs ws = Some (st, sent, ws') \<and> length ws \<le> length ws' + length (concat cs)"
proof (induction cs ws rule: write_chunks.induct)
  case (2 c cs ws)
  obtain st sent ws' where 1: "write_chunk c ws = Some (st, sent, ws')" "length ws \<le> length ws' + length c"
    using write_chunk_returns [of c ws] "2.prems" by auto
  show ?case
  proof (cases st)
    case None
    have "length (concat cs) \<le> length ws'" using 1(2) "2.prems" by simp
    then obtain st2 sent2 ws2 where "write_chunks cs ws' = Some (st2, sent2, ws2)"
      "length ws' \<le> length ws2 + length (concat cs)"
      using "2.IH" [OF 1(1) refl None refl] by auto
    then show ?thesis using None 1 by auto
  qed (use 1 in auto)
qed simp

lemma peek_okD:
  assumes "peek_ok peek"
  shows "prefix (concat (peek rb)) rb" "rb = [] \<longleftrightarrow> peek rb = []" "rb \<noteq> [] \<Longrightarrow> concat (peek rb) \<noteq> []"
proof -
  have ok: "prefix (concat (peek rb)) rb \<and> (rb = [] \<longleftrightarrow> peek rb = []) \<and> [] \<notin> set (peek rb)"
    using assms unfolding peek_ok_def by blast
  then show "prefix (concat (peek rb)) rb" "rb = [] \<longleftrightarrow> peek rb = []" by blast+
  show "rb \<noteq> [] \<Longrightarrow> concat (peek rb) \<noteq> []" using ok by (cases "peek rb") auto
qed

lemma drain_step:
  assumes "peek_ok peek" "rb \<noteq> []" "write_chunks (peek rb) ws = Some (st, sent, ws')"
  shows "sent @ drop (length sent) rb = rb" "st = None \<Longrightarrow> sent = concat (peek rb)"
    "st \<noteq> None \<Longrightarrow> drop (length sent) rb \<noteq> []"
proof -
  note peek = peek_okD [OF assms(1), of rb]
  note sent = write_chunks_sent [OF assms(3)]
  have "prefix sent rb" using sent peek(1) prefix_order.trans by blast
  then show "sent @ drop (length sent) rb = rb" by (auto simp: prefix_def)
  show "st = None \<Longrightarrow> sent = concat (peek rb)" using sent by simp
  show "drop (length sent) rb \<noteq> []" if "st \<noteq> None"
  proof -
    have "length sent < length (concat (peek rb))"
      using sent that prefix_length_less [of sent "concat (peek rb)"] by (simp add: strict_prefix_def)
    then show ?thesis using prefix_length_le [OF peek(1)] by simp
  qed
qed

lemma drain_shorter:
  assumes "peek_ok peek" "rb \<noteq> []" "write_chunks (peek rb) ws = Some (None, sent, ws')"
  shows "length (drop (length sent) rb) < length rb"
proof -
  have "sent \<noteq> []" using drain_step(2) [OF assms refl] peek_okD(3) [OF assms(1,2)] by simp
  then show ?thesis using assms(2) by simp
qed

lemma drain_unfold:
  assumes "peek_ok peek" "rb \<noteq> []"
  shows "drain_ringbuffer_to_pipe peek rb ws =
    (case write_chunks (peek rb) ws of
       None \<Rightarrow> None
     | Some (Some r, sent, ws) \<Rightarrow> Some (r, \<not> r, sent, drop (length sent) rb, ws)
     | Some (None, sent, ws) \<Rightarrow>
         Option.bind (drain_ringbuffer_to_pipe peek (drop (length sent) rb) ws)
           (\<lambda>(r, ready, sent', rb, ws). Some (r, ready, sent @ sent', rb, ws)))"
  using peek_okD(2) [OF assms(1), of rb] assms(2) by (subst drain_ringbuffer_to_pipe.simps) simp

lemma drain_empty: "peek_ok peek \<Longrightarrow> drain_ringbuffer_to_pipe peek [] ws = Some (True, True, [], [], ws)"
  using peek_okD(2) [of peek "[]"] by (subst drain_ringbuffer_to_pipe.simps) simp

lemma drain_sent:
  assumes "peek_ok peek" "drain_ringbuffer_to_pipe peek rb ws = Some (r, ready, sent, rb', ws')"
  shows "sent @ rb' = rb \<and> (if rb' = [] then r \<and> ready else ready = (\<not> r))"
  using assms(2)
proof (induction "length rb" arbitrary: rb ws sent rule: less_induct)
  case less
  show ?case
  proof (cases "rb = []")
    case True
    then show ?thesis using less.prems drain_empty [OF assms(1)] by simp
  next
    case False
    obtain st sent1 ws1 where w: "write_chunks (peek rb) ws = Some (st, sent1, ws1)"
      using less.prems drain_unfold [OF assms(1) False] by (auto split: option.splits)
    note step = drain_step [OF assms(1) False w]
    show ?thesis
    proof (cases st)
      case (Some r1)
      then show ?thesis using less.prems drain_unfold [OF assms(1) False, of ws] w step by auto
    next
      case None
      then obtain sent2 where 2: "sent = sent1 @ sent2"
        "drain_ringbuffer_to_pipe peek (drop (length sent1) rb) ws1 = Some (r, ready, sent2, rb', ws')"
        using less.prems drain_unfold [OF assms(1) False, of ws] w by (auto simp: bind_eq_Some_conv)
      then show ?thesis
        using less.hyps [OF drain_shorter [OF assms(1) False w [unfolded None]] 2(2)] step(1) by simp
    qed
  qed
qed

lemma drain_returns:
  assumes "peek_ok peek" "length rb \<le> length ws"
  shows "drain_ringbuffer_to_pipe peek rb ws \<noteq> None"
  using assms(2)
proof (induction "length rb" arbitrary: rb ws rule: less_induct)
  case less
  show ?case
  proof (cases "rb = []")
    case True
    then show ?thesis using drain_empty [OF assms(1)] by simp
  next
    case False
    have "length (concat (peek rb)) \<le> length ws"
      using less.prems prefix_length_le [OF peek_okD(1) [OF assms(1), of rb]] by simp
    then obtain st sent ws' where w: "write_chunks (peek rb) ws = Some (st, sent, ws')"
      "length ws \<le> length ws' + length (concat (peek rb))"
      using write_chunks_returns by blast
    show ?thesis
    proof (cases st)
      case None
      have "length (drop (length sent) rb) \<le> length ws'"
        using drain_step(2) [OF assms(1) False w(1) None] w(2) less.prems by simp
      then have "drain_ringbuffer_to_pipe peek (drop (length sent) rb) ws' \<noteq> None"
        using less.hyps drain_shorter [OF assms(1) False w(1) [unfolded None]] by blast
      then show ?thesis using drain_unfold [OF assms(1) False, of ws] w(1) None by auto
    qed (use drain_unfold [OF assms(1) False, of ws] w(1) in auto)
  qed
qed

text \<open>Draining the output sends the oldest bytes and keeps the rest.\<close>

lemma drain_output_sent:
  assumes "peek_ok (be_peek E)" "backend_drain_output E b ws = Some (ok, b', sent)"
  shows "sent @ be_xmitBuffer b' = be_xmitBuffer b"
  using assms drain_sent [OF assms(1)]
  by (auto simp: backend_drain_output_def Let_def split: if_splits option.splits prod.splits)

lemma messages_bytes_simps [simp]:
  "messages_bytes W C [] = []"
  "messages_bytes W C (tm # tms) = frame_bytes W (message_frame C tm) @ messages_bytes W C tms"
  "messages_bytes W C (tms @ tms') = messages_bytes W C tms @ messages_bytes W C tms'"
  by (simp_all add: messages_bytes_def)

lemma unprepare_blocks:
  assumes "message_ok m" "type \<in> set (message_types m)"
  shows "blocks m - ogon_message_unprepare type (to_proto m) = 0"
  using assms by (cases m) (auto simp: blocks_def ogon_message_unprepare_def ogon_unprepare_user_message_def
      parameters_ok_def unat_eq_0)

context protobuf_laws
begin

lemma write_frame:
  assumes "sendable C (type, m)" "grow (6 + length (pack C (to_proto m)))"
  shows "ogon_message_write W C grow s type (packed_size C (to_proto m)) (to_proto m) =
    (True, s @ frame_bytes W (message_frame C (type, m)))"
proof -
  let ?p = "pack C (to_proto m)"
  have len: "packed_size C (to_proto m) = int (length ?p)"
    using size_pack assms(1) by (simp add: sendable_def)
  have "nat (2 + 4 + int (length ?p)) = 6 + length ?p" by simp
  then show ?thesis
    using assms(2) unfolding len ogon_message_write_def
    by (simp add: frame_bytes_def message_frame_def)
qed

lemma backend_write_frame:
  assumes "sendable C (type, m)" "\<And>i. be_calloc E i" "peek_ok (be_peek E)"
    "backend_write_rds_message W C E b ws type m = Inr (True, live, b', sent)"
  shows "live = 0 \<and> sent @ be_xmitBuffer b' = be_xmitBuffer b @ frame_bytes W (message_frame C (type, m))"
proof -
  let ?p = "pack C (to_proto m)"
  have len: "packed_size C (to_proto m) = int (length ?p)"
    using size_pack assms(1) by (simp add: sendable_def)
  have ok: "message_ok m" "type \<in> set (message_types m)" using assms(1) by (simp_all add: sendable_def)
  note prep = prepare_message [of m type "be_calloc E" C, OF ok assms(2)]
  note wr = write_frame [OF assms(1), of "\<lambda>n. n \<le> length ?p + RDS_ORDER_HEADER_LENGTH" W "[]",
      unfolded len RDS_ORDER_HEADER_LENGTH_def, simplified]
  have "backend_drain_output E (b\<lparr>be_xmitBuffer := be_xmitBuffer b @ frame_bytes W (message_frame C (type, m))\<rparr>) ws =
      Some (True, b', sent) \<and> live = blocks m - ogon_message_unprepare type (to_proto m)"
    using assms(4) wr
    by (auto simp: backend_write_rds_message_def prep len Let_def RDS_ORDER_HEADER_LENGTH_def
        split: if_splits option.splits)
  then show ?thesis
    using drain_output_sent [OF assms(3)] unprepare_blocks [OF ok] by fastforce
qed

end

lemma map_sum_Inr_conv: "map_sum id f x = Inr y \<longleftrightarrow> (\<exists>z. x = Inr z \<and> y = f z)"
  by (cases x) auto

lemma finish_xmit: "backend_finish C E b = (ok, b', evs) \<Longrightarrow> be_xmitBuffer b' = be_xmitBuffer b"
  by (auto simp: backend_finish_def backend_treat_message_def Let_def split: option.splits if_splits prod.splits)

lemma input_xmit: "backend_input W C E b bs = Inr (ok, b', evs) \<Longrightarrow> be_xmitBuffer b' = be_xmitBuffer b"
  by (auto simp: backend_input_def Let_def split: if_splits sum.splits dest!: finish_xmit)

lemma drain_input_xmit: "backend_drain_input W C E b rs = Inr (ok, b', evs) \<Longrightarrow> be_xmitBuffer b' = be_xmitBuffer b"
proof (induction W C E b rs arbitrary: evs rule: backend_drain_input.induct)
  case (4 W C E b bs rs)
  then obtain ok1 b1 evs1 where 1: "backend_input W C E b bs = Inr (ok1, b1, evs1)"
    by (auto split: sum.splits)
  show ?case
  proof (cases ok1)
    case True
    then obtain evs2 where "backend_drain_input W C E b1 rs = Inr (ok, b', evs2)"
      using 4(2) 1 by (auto split: sum.splits)
    then have "be_xmitBuffer b' = be_xmitBuffer b1" using 4(1) [OF 1 refl refl] True by blast
    then show ?thesis using input_xmit [OF 1] by simp
  next
    case False
    then show ?thesis using 4(2) 1 input_xmit [OF 1] by simp
  qed
qed simp_all

lemma op_step_sent:
  assumes "protobuf_laws C" "\<And>tm. tm \<in> set (op_messages op) \<Longrightarrow> sendable C tm" "\<And>i. be_calloc E i"
    "peek_ok (be_peek E)" "backend_op_step W C E b op = Inr (b', sent, evs, 0)"
  shows "sent @ be_xmitBuffer b' =
    be_xmitBuffer b @ messages_bytes W C (op_messages op)"
proof (cases op)
  case (SendMessage type m ws)
  then obtain live where "backend_write_rds_message W C E b ws type m = Inr (True, live, b', sent)"
    using assms(5) by (auto simp: backend_op_step_def split: sum.splits if_splits)
  then show ?thesis
    using protobuf_laws.backend_write_frame [OF assms(1) _ assms(3,4)] assms(2) SendMessage by simp
next
  case (PipeBytes writable readable ws rs)
  then have "handle_pipe_bytes W C E writable readable b ws rs = Inr (b', sent, evs, 0)"
    using assms(5) by (simp add: backend_op_step_def)
  then have "\<exists>b1 ok. (if writable then backend_drain_output E (b\<lparr>be_writeReady := True\<rparr>) ws else Some (True, b, [])) =
      Some (ok, b1, sent) \<and> be_xmitBuffer b' = be_xmitBuffer b1"
    by (auto simp: handle_pipe_bytes_def Let_def split: option.splits if_splits sum.splits dest!: drain_input_xmit)
  then show ?thesis
    using drain_output_sent [OF assms(4)] PipeBytes by (fastforce split: if_splits)
qed

lemma run_sent:
  assumes "protobuf_laws C" "\<And>tm. tm \<in> set (concat (map op_messages ops)) \<Longrightarrow> sendable C tm" "\<And>i. be_calloc E i"
    "peek_ok (be_peek E)" "backend_run W C E b ops = Inr (b', sent, evs, 0)"
  shows "sent @ be_xmitBuffer b' =
    be_xmitBuffer b @ messages_bytes W C (concat (map op_messages ops))"
  using assms(2,5)
proof (induction ops arbitrary: b sent evs)
  case (Cons op ops)
  then obtain b1 sent1 evs1 sent2 evs2 where 1: "backend_op_step W C E b op = Inr (b1, sent1, evs1, 0)"
    "backend_run W C E b1 ops = Inr (b', sent2, evs2, 0)" "sent = sent1 @ sent2"
    by (auto simp: map_sum_Inr_conv split: sum.splits)
  have "sent2 @ be_xmitBuffer b' =
      be_xmitBuffer b1 @ messages_bytes W C (concat (map op_messages ops))"
    by (rule Cons.IH [OF _ 1(2)]) (use Cons.prems(1) in auto)
  then have "sent @ be_xmitBuffer b' = (sent1 @ be_xmitBuffer b1) @
      messages_bytes W C (concat (map op_messages ops))"
    unfolding 1(3) append.assoc by (rule arg_cong)
  also have "sent1 @ be_xmitBuffer b1 =
      be_xmitBuffer b @ messages_bytes W C (op_messages op)"
    by (rule op_step_sent [OF assms(1) _ assms(3,4) 1(1)]) (use Cons.prems(1) in simp)
  finally show ?case by simp
qed simp

lemma handle_all_same:
  assumes "\<And>fr. fr \<in> set frs \<Longrightarrow> handle (f fr) r = Some (r, [ev fr])"
  shows "handle_all handle (map f frs) r = Some (r, map ev frs)"
  using assms by (induction frs) auto

lemma messages_frames:
  assumes "\<And>tm. tm \<in> set tms \<Longrightarrow> sendable C tm" "fr \<in> set (map (message_frame C) tms)"
  shows "length (snd fr) < 2 ^ 32"
proof -
  obtain tm where "tm \<in> set tms" "fr = message_frame C tm" using assms(2) by auto
  then have "length (snd fr) < 2 ^ 31" using assms(1) by (auto simp: message_frame_def sendable_def)
  then show ?thesis by simp
qed

context protobuf_laws
begin

lemma svc_handle_message:
  assumes "sendable C tm" "8 \<le> fst tm" "fst tm \<le> 19" "\<And>i. se_alloc E i" "\<And>t m. se_client E t m"
  shows "svc_handle W C E (message_frame C tm) r = Some (r, [ClientCall (fst tm) (snd tm)])"
proof -
  obtain t m where tm: "tm = (t, m)" by (rule prod.exhaust)
  have "ogon_message_read C (se_alloc E) (pack C (to_proto m)) t = (Some m, ogon_message_free t m True)"
    by (rule read_message) (use assms(1,4) tm in \<open>simp_all add: sendable_def\<close>)
  then show ?thesis
    using assms(2,3,5) tm by (simp add: svc_handle_def service_treat_def message_frame_def service_dispatch_def)
qed

lemma be_handle_message:
  assumes "sendable C tm" "fst tm < 7" "\<And>i. be_alloc E i" "be_version_exchanged b"
    "be_server E (fst tm) = Some cb" "0 \<le> cb (snd tm)"
  shows "be_handle C E (message_frame C tm) b = Some (b, [ServerCall (fst tm) (snd tm)])"
proof -
  obtain t m where tm: "tm = (t, m)" by (rule prod.exhaust)
  have "ogon_message_read C (be_alloc E) (pack C (to_proto m)) t = (Some m, ogon_message_free t m True)"
    by (rule read_message) (use assms(1,3) tm in \<open>simp_all add: sendable_def\<close>)
  moreover have "unat t < 7" using assms(2) tm word_less_nat_alt [of t 7] by simp
  moreover have "t \<noteq> 7" using assms(2) tm by auto
  ultimately show ?thesis
    using assms(4-6) tm
    by (simp add: be_handle_def backend_treat_message_def message_frame_def SERVER_CALLBACKS_NB_def Let_def)
qed

lemma be_handle_version:
  assumes "sendable C (7, v)" "\<And>i. be_alloc E i" "backend_check_version b v"
  shows "be_handle C E (message_frame C (7, v)) b =
    Some (b\<lparr>be_version_exchanged := True\<rparr>, [VersionAccepted v])"
proof -
  have "ogon_message_read C (be_alloc E) (pack C (to_proto v)) 7 = (Some v, ogon_message_free 7 v True)"
    by (rule read_message) (use assms(1,2) in \<open>simp_all add: sendable_def\<close>)
  then show ?thesis
    using assms(3)
    by (simp add: be_handle_def backend_treat_message_def message_frame_def SERVER_CALLBACKS_NB_def Let_def)
qed

lemma service_write_frame:
  assumes "sendable C (type, m)" "\<And>i. se_calloc E i" "\<And>n. se_grow E n" "svc_outStream s = []"
    "ogon_service_write_message W C E s type m = Inr (True, s', sent)"
  shows "sent = frame_bytes W (message_frame C (type, m)) \<and> svc_outStream s' = []"
proof -
  have ok: "message_ok m" "type \<in> set (message_types m)" using assms(1) by (simp_all add: sendable_def)
  note prep = prepare_message [of m type "se_calloc E" C, OF ok assms(2)]
  have len: "0 \<le> packed_size C (to_proto m)" using size_pack assms(1) by (simp add: sendable_def)
  note wr = write_frame [OF assms(1), of "se_grow E" W "[]", OF assms(3)]
  have pipe: "write_pipe bs ws = Some (True, sent) \<Longrightarrow> sent = bs" for bs ws sent
    by (induction bs ws arbitrary: sent rule: write_pipe.induct) (auto split: if_splits)
  show ?thesis
    using assms(4,5) len wr pipe
    by (auto simp: ogon_service_write_message_def prep split: option.splits bool.splits)
qed

end

lemma service_sends_bytes:
  assumes "protobuf_laws C" "\<And>tm. tm \<in> set (map fst ops) \<Longrightarrow> sendable C tm" "\<And>i. se_calloc E i" "\<And>n. se_grow E n"
    "svc_outStream s = []" "service_sends W C E s ops = Some (s', sent)"
  shows "sent = messages_bytes W C (map fst ops)"
  using assms(2,5,6)
proof (induction ops arbitrary: s sent)
  case (Cons op ops)
  obtain tm ws where op: "op = (tm, ws)" by (rule prod.exhaust)
  obtain s1 sent1 sent2 where 1: "ogon_service_write_message W C (E\<lparr>se_writes := ws\<rparr>) s (fst tm) (snd tm) = Inr (True, s1, sent1)"
    "service_sends W C E s1 ops = Some (s', sent2)" "sent = sent1 @ sent2"
    using Cons.prems(3) op by (auto split: sum.splits bool.splits)
  have "sendable C (fst tm, snd tm)" using Cons.prems(1) op by simp
  then have "sent1 = frame_bytes W (message_frame C (fst tm, snd tm)) \<and> svc_outStream s1 = []"
    by (rule protobuf_laws.service_write_frame [OF assms(1)]) (use assms(3,4) Cons.prems(2) 1(1) in simp_all)
  then show ?case using Cons.IH [OF _ _ 1(2)] Cons.prems(1) 1(3) op by simp
qed simp

lemma be_rest_upd: "be_rest (b\<lparr>be_version_exchanged := v\<rparr>) = (be_rest b)\<lparr>be_version_exchanged := v\<rparr>"
  by (simp add: be_rest_def be_framing_def)

lemma check_version_rest: "backend_check_version (be_rest b) v = backend_check_version b v"
  by (simp add: backend_check_version_def be_rest_def be_framing_def)

section \<open>Authentication\<close>

lemma accepts_mono: "accepts ex c evs \<Longrightarrow> (ex \<Longrightarrow> ex') \<Longrightarrow> accepts ex' c evs"
  by (induction ex c evs rule: accepts.induct) auto

lemma accepts_append: "accepts ex c evs \<Longrightarrow> evs \<noteq> [] \<Longrightarrow> accepts ex c (evs @ evs')"
  by (induction ex c evs rule: accepts.induct) auto

lemma keeps_cookie_trans:
  "keeps_cookie b b1 evs1 \<Longrightarrow> keeps_cookie b1 b2 evs2 \<Longrightarrow> keeps_cookie b b2 (evs1 @ evs2)"
  by (cases "evs1 = []") (auto simp: keeps_cookie_def accepts_append elim: accepts_mono)

lemma keeps_cookie_same:
  "be_backendCookie b' = be_backendCookie b \<Longrightarrow> be_version_exchanged b' = be_version_exchanged b \<Longrightarrow>
     keeps_cookie b b' []"
  by (simp add: keeps_cookie_def)

lemma finish_cookie: "backend_finish C E b = (ok, b', evs) \<Longrightarrow> keeps_cookie b b' evs"
  by (auto simp: backend_finish_def backend_treat_message_def backend_check_version_def keeps_cookie_def
      Let_def split: option.splits if_splits prod.splits)

lemma input_cookie: "backend_input W C E b bs = Inr (ok, b', evs) \<Longrightarrow> keeps_cookie b b' evs"
  by (auto simp: backend_input_def Let_def keeps_cookie_def split: if_splits sum.splits
      dest!: finish_cookie)

lemma drain_input_cookie: "backend_drain_input W C E b rs = Inr (ok, b', evs) \<Longrightarrow> keeps_cookie b b' evs"
proof (induction W C E b rs arbitrary: evs rule: backend_drain_input.induct)
  case (4 W C E b bs rs)
  then obtain ok1 b1 evs1 where 1: "backend_input W C E b bs = Inr (ok1, b1, evs1)"
    by (auto split: sum.splits)
  show ?case
  proof (cases ok1)
    case True
    then obtain evs2 where 2: "backend_drain_input W C E b1 rs = Inr (ok, b', evs2)" "evs = evs1 @ evs2"
      using 4(2) 1 by (auto split: sum.splits)
    then have "keeps_cookie b1 b' evs2" using 4(1) [OF 1 refl refl] True by blast
    then show ?thesis using keeps_cookie_trans [OF input_cookie [OF 1]] 2(2) by simp
  next
    case False
    then show ?thesis using 4(2) 1 input_cookie [OF 1] by simp
  qed
qed (simp_all add: keeps_cookie_same)

lemma drain_output_cookie: "backend_drain_output E b ws = Some (ok, b', sent) \<Longrightarrow> keeps_cookie b b' []"
  by (rule keeps_cookie_same)
    (auto simp: backend_drain_output_def Let_def split: if_splits option.splits prod.splits)

lemma write_cookie:
  "backend_write_rds_message W C E b ws type m = Inr (ok, live, b', sent) \<Longrightarrow> keeps_cookie b b' []"
  by (auto simp: backend_write_rds_message_def Let_def keeps_cookie_same
      split: sum.splits if_splits option.splits prod.splits dest!: drain_output_cookie)
    (auto simp: keeps_cookie_def)

lemma op_step_cookie:
  assumes "backend_op_step W C E b op = Inr (b', sent, evs, failed)"
  shows "keeps_cookie b b' evs"
proof (cases op)
  case (SendMessage type m ws)
  then show ?thesis using assms by (auto simp: backend_op_step_def split: sum.splits dest!: write_cookie)
next
  case (PipeBytes writable readable ws rs)
  then obtain ok b1 where 1: "(if writable then backend_drain_output E (b\<lparr>be_writeReady := True\<rparr>) ws else Some (True, b, [])) =
      Some (ok, b1, sent)" "\<not> readable \<Longrightarrow> b' = b1 \<and> evs = []"
    "readable \<Longrightarrow> \<exists>ok. backend_drain_input W C E b1 rs = Inr (ok, b', evs)"
    using assms by (auto simp: backend_op_step_def handle_pipe_bytes_def Let_def split: option.splits if_splits sum.splits)
  have "keeps_cookie b b1 []"
    using 1(1) by (auto simp: keeps_cookie_def split: if_splits dest!: drain_output_cookie)
  moreover have "keeps_cookie b1 b' evs"
    using 1(2,3) drain_input_cookie keeps_cookie_same by (cases readable) auto
  ultimately show ?thesis using keeps_cookie_trans by fastforce
qed

lemma run_cookie: "backend_run W C E b ops = Inr (b', sent, evs, failed) \<Longrightarrow> keeps_cookie b b' evs"
proof (induction ops arbitrary: b sent evs failed)
  case (Cons op ops)
  then obtain b1 sent1 evs1 f1 sent2 evs2 f2 where "backend_op_step W C E b op = Inr (b1, sent1, evs1, f1)"
    "backend_run W C E b1 ops = Inr (b', sent2, evs2, f2)" "evs = evs1 @ evs2"
    by (auto simp: map_sum_Inr_conv split: sum.splits)
  then show ?case using op_step_cookie Cons.IH keeps_cookie_trans by blast
qed (simp add: keeps_cookie_same)


section \<open>Sample instances\<close>

lemma sample_peek_ok: "peek_ok sample_peek"
  by (simp add: peek_ok_def sample_peek_def take_is_prefix)

lemmas sample_env_simps [simp] = sample_service_env_def sample_backend_env_def

lemma sample_run:
  "map_sum id (\<lambda>(b, sent, evs, failed). (be_xmitBuffer b, sent, failed))
     (backend_run le_wire pb_codec sample_backend_env sample_backend sample_ops) =
   Inr ([], [9, 0, 4, 0, 0, 0, 8, 1, 16, 2], 0)"
  by code_simp

section \<open>Properties\<close>

text \<open>
  C30: the messages the server sends to a backend arrive: in any sequence of sends and pipe events,
  however many bytes each \<open>WriteFile\<close> takes, what has left the ring buffer, read by the service in
  any pieces, causes the calls of the client interface for exactly these messages, in order. The
  laws of the wire format, of protobuf and of the ring buffer, that memory is available and that
  the client's callbacks succeed are hypotheses.
\<close>

theorem server_messages_reach_client:
  assumes "wire_format W" "protobuf_laws C" "peek_ok (be_peek B)" "\<And>i. be_calloc B i"
    and "tms = concat (map op_messages ops)"
    and "\<And>tm. tm \<in> set tms \<Longrightarrow> sendable C tm \<and> 8 \<le> fst tm \<and> fst tm \<le> 19"
    and "backend_run W C B b ops = Inr (b', sent, evs, 0)" "be_xmitBuffer b = []" "be_xmitBuffer b' = []"
    and "\<And>i. se_alloc E i" "\<And>n. se_grow E n" "\<And>t m. se_client E t m"
    and "svc_inv s" "svc_view s = Header []"
    and "concat cs = sent" "reads_ok (\<lambda>s. unat (svc_expectedBytes s)) (svc_input W C E) s cs"
  shows "\<exists>s'. feed (svc_input W C E) s cs = Some (s', map (\<lambda>tm. ClientCall (fst tm) (snd tm)) tms) \<and>
    svc_view s' = Header [] \<and> svc_rest s' = svc_rest s"
proof -
  have "sent = messages_bytes W C tms"
    using run_sent [OF assms(2) _ assms(4,3,7)] assms(5,6,8,9) by simp
  then have bytes: "concat cs = concat (map (frame_bytes W) (map (message_frame C) tms))"
    using assms(15) by (simp add: messages_bytes_def)
  have len: "length (snd fr) < 2 ^ 32" if "fr \<in> set (map (message_frame C) tms)" for fr
    using messages_frames [OF _ that] assms(6) by blast
  have "handle_all (svc_handle W C E) (map (message_frame C) tms) (svc_rest s) =
      Some (svc_rest s, map (\<lambda>tm. ClientCall (fst tm) (snd tm)) tms)"
    by (rule handle_all_same, rule protobuf_laws.svc_handle_message [OF assms(2)]) (use assms(6,10,12) in auto)
  then show ?thesis
    using svc.feed_frames [OF assms(1,13,14,16) bytes len assms(11)] by auto
qed

theorem server_messages_reach_client_witness:
  "\<exists>s'. feed (svc_input le_wire pb_codec sample_service_env) sample_service [[9, 0, 4], [0, 0, 0], [8, 1], [16, 2]] =
     Some (s', [ClientCall 9 (SynchronizeKeyboard 1 2)]) \<and> svc_view s' = Header []"
proof -
  obtain b' evs where run: "backend_run le_wire pb_codec sample_backend_env sample_backend sample_ops =
      Inr (b', [9, 0, 4, 0, 0, 0, 8, 1, 16, 2], evs, 0)" "be_xmitBuffer b' = []"
    using sample_run by (auto simp: map_sum_Inr_conv)
  have msgs: "concat (map op_messages sample_ops) = [(9, SynchronizeKeyboard 1 2)]"
    by (simp add: sample_ops_def)
  have "length (pack pb_codec (to_proto (SynchronizeKeyboard 1 2))) = 4" by code_simp
  then have "sendable pb_codec (9, SynchronizeKeyboard 1 2)" by (simp add: sendable_def)
  moreover have "reads_ok (\<lambda>s. unat (svc_expectedBytes s)) (svc_input le_wire pb_codec sample_service_env) sample_service
      [[9, 0, 4], [0, 0, 0], [8, 1], [16, 2]]" by code_simp
  moreover have "svc_inv sample_service" "svc_view sample_service = Header []"
    by (simp_all add: sample_service_def ogon_service_new_def svc_inv_def svc_view_def RDS_ORDER_HEADER_LENGTH_def)
  moreover have "be_xmitBuffer sample_backend = []" by (simp add: sample_backend_def)
  ultimately show ?thesis
    using server_messages_reach_client [OF le.wire_format_axioms pb.protobuf_laws_axioms _ _ msgs [symmetric] _ run(1) _
        run(2), of sample_service_env sample_service "[[9, 0, 4], [0, 0, 0], [8, 1], [16, 2]]"] sample_peek_ok by auto
qed

text \<open>
  C31: the messages a backend sends after its version reply with the right version and cookie arrive
  at the server: however they are written and read, the server accepts the version and calls the
  handler of each message, in order.
\<close>

theorem service_messages_reach_server:
  assumes "wire_format W" "protobuf_laws C" "\<And>i. se_calloc S i" "\<And>n. se_grow S n" "svc_outStream s = []"
    and "map fst ops = (7, v) # tms" "\<And>tm. tm \<in> set ((7, v) # tms) \<Longrightarrow> sendable C tm"
    and "backend_check_version b v"
    and "\<And>tm. tm \<in> set tms \<Longrightarrow> fst tm < 7 \<and> (\<exists>cb. be_server E (fst tm) = Some cb \<and> 0 \<le> cb (snd tm))"
    and "service_sends W C S s ops = Some (s', sent)"
    and "\<And>i. be_alloc E i" "\<And>n. be_grow E n" "be_inv b" "be_view b = Header []"
    and "concat cs = sent" "reads_ok (\<lambda>b. unat (be_expectedReadBytes b)) (be_input W C E) b cs"
  shows "\<exists>b'. backend_drain_input W C E b (map ReadBytes cs) =
      Inr (True, b', VersionAccepted v # map (\<lambda>tm. ServerCall (fst tm) (snd tm)) tms) \<and>
    be_view b' = Header [] \<and> be_rest b' = be_rest (b\<lparr>be_version_exchanged := True\<rparr>)"
proof -
  have "sent = messages_bytes W C ((7, v) # tms)"
    using service_sends_bytes [OF assms(2) _ assms(3-5,10)] assms(6,7) by simp
  then have bytes: "concat cs = concat (map (frame_bytes W) (map (message_frame C) ((7, v) # tms)))"
    using assms(15) by (simp add: messages_bytes_def)
  have len: "length (snd fr) < 2 ^ 32" if "fr \<in> set (map (message_frame C) ((7, v) # tms))" for fr
    using messages_frames [OF _ that] assms(7) by blast
  let ?r = "be_rest (b\<lparr>be_version_exchanged := True\<rparr>)"
  have version: "be_handle C E (message_frame C (7, v)) (be_rest b) = Some (?r, [VersionAccepted v])"
    using protobuf_laws.be_handle_version [OF assms(2) _ assms(11), of v "be_rest b"] assms(7,8)
    by (simp add: check_version_rest be_rest_upd)
  have "handle_all (be_handle C E) (map (message_frame C) tms) ?r =
      Some (?r, map (\<lambda>tm. ServerCall (fst tm) (snd tm)) tms)"
  proof (rule handle_all_same)
    fix tm assume tm: "tm \<in> set tms"
    then obtain cb where "be_server E (fst tm) = Some cb" "0 \<le> cb (snd tm)" using assms(9) by blast
    then show "be_handle C E (message_frame C tm) ?r = Some (?r, [ServerCall (fst tm) (snd tm)])"
      by (intro protobuf_laws.be_handle_message [OF assms(2)]) (use assms(7,9,11) tm in \<open>auto simp: be_rest_upd\<close>)
  qed
  then have "handle_all (be_handle C E) (map (message_frame C) ((7, v) # tms)) (be_rest b) =
      Some (?r, VersionAccepted v # map (\<lambda>tm. ServerCall (fst tm) (snd tm)) tms)"
    using version by simp
  then obtain b' where "feed (be_input W C E) b cs =
      Some (b', VersionAccepted v # map (\<lambda>tm. ServerCall (fst tm) (snd tm)) tms)"
      "be_view b' = Header []" "be_rest b' = ?r"
    using be.feed_frames [OF assms(1,13,14,16) bytes len assms(12)] by auto
  then show ?thesis using drain_input_feed by blast
qed

theorem service_messages_reach_server_witness:
  "\<exists>b'. backend_drain_input le_wire pb_codec sample_backend_env sample_backend
      (map ReadBytes [[7, 0, 7, 0, 0, 0], [8, 1, 16, 1], [26, 1, 7], [2, 0, 4, 0, 0], [0], [8, 5, 16, 6]]) =
    Inr (True, b', [VersionAccepted (Version 1 1 (Some [7])), ServerCall 2 (Beep 5 6)]) \<and> be_view b' = Header []"
proof -
  let ?cs = "[[7, 0, 7, 0, 0, 0], [8, 1, 16, 1], [26, 1, 7], [2, 0, 4, 0, 0], [0], [8, 5, 16, 6]] :: u8 list list"
  have sends: "map_option snd (service_sends le_wire pb_codec sample_service_env sample_service sample_sends) = Some (concat ?cs)"
    by code_simp
  then obtain s' where sends: "service_sends le_wire pb_codec sample_service_env sample_service sample_sends = Some (s', concat ?cs)"
    by auto
  have msgs: "map fst sample_sends = (7, Version 1 1 (Some [7])) # [(2, Beep 5 6)]" by (simp add: sample_sends_def)
  have "length (pack pb_codec (to_proto (Version 1 1 (Some [7])))) = 7" "length (pack pb_codec (to_proto (Beep 5 6))) = 4"
    by code_simp+
  then have "sendable pb_codec (7, Version 1 1 (Some [7]))" "sendable pb_codec (2, Beep 5 6)"
    by (simp_all add: sendable_def cstring_ok_def)
  moreover have "reads_ok (\<lambda>b. unat (be_expectedReadBytes b)) (be_input le_wire pb_codec sample_backend_env) sample_backend ?cs"
    by code_simp
  moreover have "be_inv sample_backend" "be_view sample_backend = Header []"
    "backend_check_version sample_backend (Version 1 1 (Some [7]))" "svc_outStream sample_service = []"
    by (simp_all add: sample_backend_def be_inv_def be_view_def backend_check_version_def OGON_PROTOCOL_VERSION_MAJOR_def
        sample_service_def ogon_service_new_def)
  ultimately show ?thesis
    using service_messages_reach_server [OF le.wire_format_axioms pb.protobuf_laws_axioms _ _ _ msgs _ _ _ sends,
        of sample_backend sample_backend_env ?cs] by auto
qed

text \<open>
  C32: no handler of the server runs before the backend has proved itself: in any sequence of sends
  and pipe events, whatever the pipe delivers, the first call is preceded by a version reply with
  the server's major version and the cookie of the backend's properties.
\<close>

theorem no_server_call_before_cookie:
  assumes "backend_run W C E b ops = Inr (b', sent, evs, failed)" "\<not> be_version_exchanged b"
    "ServerCall t m \<in> set evs"
  shows "\<exists>v evs'. evs = VersionAccepted v # evs' \<and> ServerCall t m \<in> set evs' \<and>
    m_versionMajor v = OGON_PROTOCOL_VERSION_MAJOR \<and> m_cookie v = Some (be_backendCookie b)"
proof -
  have "accepts False (be_backendCookie b) evs" using run_cookie [OF assms(1)] assms(2) by (simp add: keeps_cookie_def)
  then show ?thesis
    using assms(3) by (cases "(False, be_backendCookie b, evs)" rule: accepts.cases) auto
qed

theorem no_server_call_before_cookie_witness:
  "\<exists>b' sent evs failed v evs'.
     backend_run le_wire pb_codec sample_backend_env sample_backend
       [PipeBytes False True [] (map ReadBytes [[7, 0, 7, 0, 0, 0], [8, 1, 16, 1, 26, 1, 7]]),
        PipeBytes False True [] (map ReadBytes [[2, 0, 4, 0, 0, 0], [8, 5, 16, 6]])] = Inr (b', sent, evs, failed) \<and>
     evs = VersionAccepted v # evs' \<and> m_cookie v = Some [7]"
proof -
  have "map_sum id (\<lambda>(b, sent, evs, failed). evs) (backend_run le_wire pb_codec sample_backend_env sample_backend
       [PipeBytes False True [] (map ReadBytes [[7, 0, 7, 0, 0, 0], [8, 1, 16, 1, 26, 1, 7]]),
        PipeBytes False True [] (map ReadBytes [[2, 0, 4, 0, 0, 0], [8, 5, 16, 6]])]) =
     Inr [VersionAccepted (Version 1 1 (Some [7])), ServerCall 2 (Beep 5 6)]"
    by code_simp
  then obtain b' sent failed where run: "backend_run le_wire pb_codec sample_backend_env sample_backend
       [PipeBytes False True [] (map ReadBytes [[7, 0, 7, 0, 0, 0], [8, 1, 16, 1, 26, 1, 7]]),
        PipeBytes False True [] (map ReadBytes [[2, 0, 4, 0, 0, 0], [8, 5, 16, 6]])] =
      Inr (b', sent, [VersionAccepted (Version 1 1 (Some [7])), ServerCall 2 (Beep 5 6)], failed)"
    by (auto simp: map_sum_Inr_conv)
  moreover have "\<not> be_version_exchanged sample_backend" "be_backendCookie sample_backend = [7]"
    by (simp_all add: sample_backend_def)
  ultimately show ?thesis
    using no_server_call_before_cookie [OF run, of 2 "Beep 5 6"] by auto
qed

text \<open>
  C33: every message a caller may send is written as a frame whose header has its type and length and
  whose payload is read back as the same message, with the memory of the preparation freed and
  nothing held but what \<open>ogon_message_free\<close> frees. At most five parameters of a user message and
  buffers that match their lengths are hypotheses.
\<close>

theorem message_roundtrip:
  assumes "wire_format W" "protobuf_laws C" "sendable C (type, m)" "\<And>i. A i" "\<And>i. A' i" "\<And>n. grow n"
  shows "\<exists>bs. ogon_message_send W C A grow [] type m = Inr (True, bs, 0) \<and>
    ogon_read_message_header W (take 6 bs) = Inr (type, of_nat (length (drop 6 bs))) \<and>
    ogon_message_read C A' (drop 6 bs) type = (Some m, ogon_message_free type m True)"
proof -
  have ok: "message_ok m" "type \<in> set (message_types m)" using assms(3) by (simp_all add: sendable_def)
  note prep = prepare_message [of m type A C, OF ok assms(4)]
  have len: "0 \<le> packed_size C (to_proto m)"
    using protobuf_laws.size_pack [OF assms(2)] assms(3) by (simp add: sendable_def)
  note wr = protobuf_laws.write_frame [OF assms(2,3), of grow W "[]", OF assms(6)]
  define hdr where "hdr = wr16 W type @ wr32 W (of_nat (length (pack C (to_proto m))))"
  note hr = wire_format.header_read [OF assms(1) hdr_def]
  have bytes: "frame_bytes W (message_frame C (type, m)) = hdr @ pack C (to_proto m)"
    by (simp add: frame_bytes_def message_frame_def hdr_def)
  have "ogon_message_send W C A grow [] type m = Inr (True, hdr @ pack C (to_proto m), 0)"
    using len wr assms(6) unprepare_blocks [OF ok] unfolding bytes by (simp add: ogon_message_send_def prep)
  moreover have "ogon_read_message_header W hdr = Inr (type, of_nat (length (pack C (to_proto m))))"
    using read_header_eq [of hdr W] hr by simp
  moreover have "ogon_message_read C A' (pack C (to_proto m)) type = (Some m, ogon_message_free type m True)"
    by (rule protobuf_laws.read_message [OF assms(2) ok assms(5)])
  ultimately show ?thesis using hr(1) by (intro exI [of _ "hdr @ pack C (to_proto m)"]) simp
qed

theorem message_roundtrip_witness:
  "\<exists>bs. ogon_message_send le_wire pb_codec (\<lambda>_. True) (\<lambda>_. True) [] 19
      (UserMessage 1 2 3 4 2 [(2, Some [72, 105]), (1, Some [33]), (0, None), (0, None), (0, None)] 0 0) = Inr (True, bs, 0) \<and>
    ogon_message_read pb_codec (\<lambda>_. True) (drop 6 bs) 19 =
      (Some (UserMessage 1 2 3 4 2 [(2, Some [72, 105]), (1, Some [33]), (0, None), (0, None), (0, None)] 0 0), 2)"
proof -
  let ?m = "UserMessage 1 2 3 4 2 [(2, Some [72, 105]), (1, Some [33]), (0, None), (0, None), (0, None)] 0 0"
  have "length (pack pb_codec (to_proto ?m)) = 15" by code_simp
  moreover have "message_ok ?m" by code_simp
  ultimately have ok: "sendable pb_codec (19, ?m)" by (simp add: sendable_def)
  have "ogon_message_free 19 ?m True = 2" by code_simp
  then show ?thesis
    using message_roundtrip [OF le.wire_format_axioms pb.protobuf_laws_axioms ok, of "\<lambda>_. True" "\<lambda>_. True" "\<lambda>_. True"] by auto
qed

text \<open>
  C34: draining the output of a backend ends once \<open>WriteFile\<close> has been called as often as there are
  bytes; it sends the oldest bytes and keeps the others in order, and if bytes are left on a
  working pipe the event source waits for the pipe to become writable.
\<close>

theorem output_fifo_no_stall:
  assumes "peek_ok (be_peek E)" "length (be_xmitBuffer b) \<le> length ws"
  shows "\<exists>ok b' sent. backend_drain_output E b ws = Some (ok, b', sent) \<and> sent @ be_xmitBuffer b' = be_xmitBuffer b \<and>
    (ok \<and> be_xmitBuffer b' \<noteq> [] \<longrightarrow> be_writeMask b') \<and> (ok \<and> be_writeReady b' \<and> be_writeReady b \<longrightarrow> be_xmitBuffer b' = [])"
proof (cases "be_writeReady b \<and> be_xmitBuffer b \<noteq> []")
  case True
  obtain r ready sent rb' ws' where d: "drain_ringbuffer_to_pipe (be_peek E) (be_xmitBuffer b) ws = Some (r, ready, sent, rb', ws')"
    using drain_returns [OF assms] by auto
  show ?thesis using drain_sent [OF assms(1) d] True d
    by (auto simp: backend_drain_output_def Let_def split: if_splits)
qed (auto simp: backend_drain_output_def Let_def)

theorem output_fifo_no_stall_witness:
  "\<exists>ok b' sent. backend_drain_output sample_backend_env (sample_backend\<lparr>be_xmitBuffer := [1, 2, 3]\<rparr>)
      [(True, 2), (True, 0), (True, 5)] = Some (ok, b', sent) \<and> sent @ be_xmitBuffer b' = [1, 2, 3]"
  using output_fifo_no_stall [of sample_backend_env "sample_backend\<lparr>be_xmitBuffer := [1, 2, 3]\<rparr>"
      "[(True, 2), (True, 0), (True, 5)]"] sample_peek_ok by auto



text \<open>
  C37: \<open>backend_new\<close> either returns a backend whose resources \<open>backend_destroy\<close> all releases, or
  releases what it acquired, with one exception: once the event source of the pipe has been added
  to the event loop, a failure leaves it there with the pipe closed.
\<close>

theorem backend_new_leaves_source:
  assumes "backend_new send N backendCookie ogonCookie = Inr (ret, res)"
  shows "case ret of
      Some b \<Rightarrow> backend_destroy res = []
    | None \<Rightarrow> res = (if ne_calloc N \<and> ne_ringbuffer N \<and> ne_stream N \<and> ne_connect N \<and> ne_nonblocking N \<and> ne_add_handle N
                     then [R_pipeEventSource] else [])"
  using assms
  by (auto simp: backend_new_def out_free_def out_ringbuffer_def out_stream_def out_close_def out_send_version_def
      backend_destroy_def Let_def split: if_splits sum.splits)

theorem backend_new_leaves_source_witness:
  "backend_new (\<lambda>b _ _. Inr (False, 0, b, [])) \<lparr>ne_calloc = True, ne_ringbuffer = True, ne_stream = True, ne_connect = True,
     ne_nonblocking = True, ne_add_handle = True, ne_dictionary = True\<rparr> [7] None = Inr (None, [R_pipeEventSource])"
proof -
  let ?N = "\<lparr>ne_calloc = True, ne_ringbuffer = True, ne_stream = True, ne_connect = True,
     ne_nonblocking = True, ne_add_handle = True, ne_dictionary = True\<rparr>"
  obtain res where new: "backend_new (\<lambda>b _ _. Inr (False, 0, b, [])) ?N [7] None = Inr (None, res)"
    by (simp add: backend_new_def ogon_backend_send_version_def Let_def)
  then show ?thesis using backend_new_leaves_source [OF new] by simp
qed


end
