(* ===== verification/Murmur.thy ===== *)
theory Murmur
  imports Ogon_Prelude
begin

text \<open>
  \<open>rdp-server/PMurHash.c\<close>: MurmurHash3 over data that comes in pieces. Both variants of the main
  loop, for processors that read words at any address and for those that do not, compute the hash
  of the concatenated pieces.
\<close>

section \<open>The code\<close>

definition ROTL32 :: "u32 \<Rightarrow> nat \<Rightarrow> u32" where
  "ROTL32 x r = push_bit r x OR drop_bit (32 - r) x"

definition C1 :: u32 where "C1 = 0xcc9e2d51"
definition C2 :: u32 where "C2 = 0x1b873593"

text \<open>\<open>DOBLOCK\<close> changes both of its arguments.\<close>

definition DOBLOCK :: "u32 \<Rightarrow> u32 \<Rightarrow> u32 \<times> u32" where
  "DOBLOCK h1 k1 =
     (let k1 = k1 * C1; k1 = ROTL32 k1 15; k1 = k1 * C2;
          h1 = h1 XOR k1; h1 = ROTL32 h1 13
      in (h1 * 5 + 0xe6546b64, k1))"

text \<open>Four bytes, the first one lowest.\<close>

definition READ_UINT32 :: "u8 list \<Rightarrow> u32" where
  "READ_UINT32 p =
     ucast (p ! 0) OR push_bit 8 (ucast (p ! 1)) OR push_bit 16 (ucast (p ! 2)) OR push_bit 24 (ucast (p ! 3))"

text \<open>Hash, carry and number of bytes in the carry, over the bytes to process.\<close>

fun DOBYTES :: "u32 \<Rightarrow> u32 \<Rightarrow> nat \<Rightarrow> u8 list \<Rightarrow> u32 \<times> u32 \<times> nat" where
  "DOBYTES h1 c n [] = (h1, c, n)"
| "DOBYTES h1 c n (b # bs) =
     (let c = drop_bit 8 c OR push_bit 24 (ucast b); n = n + 1 in
      if n = 4 then let (h1, c) = DOBLOCK h1 c in DOBYTES h1 c 0 bs
      else DOBYTES h1 c n bs)"

text \<open>The loop over 32-bit chunks without a carry, and with \<open>n\<close> bytes in it.\<close>

fun chunks :: "u32 \<Rightarrow> u8 list \<Rightarrow> u32" where
  "chunks h1 (b0 # b1 # b2 # b3 # bs) = chunks (fst (DOBLOCK h1 (READ_UINT32 [b0, b1, b2, b3]))) bs"
| "chunks h1 _ = h1"

fun carry_chunks :: "nat \<Rightarrow> u32 \<Rightarrow> u32 \<Rightarrow> u8 list \<Rightarrow> u32 \<times> u32" where
  "carry_chunks n h1 c (b0 # b1 # b2 # b3 # bs) =
     (let k1 = drop_bit (32 - 8 * n) c;
          c = READ_UINT32 [b0, b1, b2, b3];
          k1 = k1 OR push_bit (8 * n) c
      in carry_chunks n (fst (DOBLOCK h1 k1)) c bs)"
| "carry_chunks n h1 c _ = (h1, c)"

text \<open>
  \<open>unaligned\<close> is whether \<open>UNALIGNED_SAFE\<close> is defined, \<open>addr\<close> the address of the data; the state is
  the running hash and the carry.
\<close>

definition PMurHash32_Process :: "bool \<Rightarrow> nat \<Rightarrow> u32 \<times> u32 \<Rightarrow> u8 list \<Rightarrow> u32 \<times> u32" where
  "PMurHash32_Process unaligned addr st key =
     (let (h1, c) = st;
          n = unat (c AND 3);
          i = (if unaligned then (4 - n) mod 4 else (4 - addr mod 4) mod 4);
          (h1, c, n, ptr) =
            (if i \<noteq> 0 \<and> i \<le> length key
             then let (h1, c, n) = DOBYTES h1 c n (take i key) in (h1, c, n, drop i key)
             else (h1, c, n, key));
          m = length ptr div 4 * 4;
          (h1, c) =
            (if unaligned \<or> n = 0 then (chunks h1 (take m ptr), c)
             else carry_chunks n h1 c (take m ptr));
          (h1, c, n) = DOBYTES h1 c n (drop m ptr)
      in (h1, (c AND NOT 0xff) OR of_nat n))"

definition PMurHash32_Result :: "u32 \<Rightarrow> u32 \<Rightarrow> u32 \<Rightarrow> u32" where
  "PMurHash32_Result h carry total_length =
     (let n = unat (carry AND 3);
          h = (if n \<noteq> 0
               then let k1 = drop_bit ((4 - n) * 8) carry; k1 = k1 * C1; k1 = ROTL32 k1 15; k1 = k1 * C2 in h XOR k1
               else h);
          h = h XOR total_length;
          h = h XOR drop_bit 16 h; h = h * 0x85ebca6b;
          h = h XOR drop_bit 13 h; h = h * 0xc2b2ae35;
          h = h XOR drop_bit 16 h
      in h)"

definition PMurHash32 :: "bool \<Rightarrow> nat \<Rightarrow> u32 \<Rightarrow> u8 list \<Rightarrow> u32" where
  "PMurHash32 unaligned addr seed key =
     (let (h1, carry) = PMurHash32_Process unaligned addr (seed, 0) key in
      PMurHash32_Result h1 carry (of_nat (length key)))"

definition PMurHash32_test :: "bool \<Rightarrow> nat \<Rightarrow> u8 list \<Rightarrow> u32 \<Rightarrow> u32" where
  "PMurHash32_test unaligned addr key seed =
     (let (h1, carry) = PMurHash32_Process unaligned addr (seed, 0) key in
      PMurHash32_Result h1 carry (of_nat (length key)))"

section \<open>The reference\<close>

text \<open>MurmurHash3 of a whole byte string: its blocks, the rest, and the final mix.\<close>

fun le_word :: "u8 list \<Rightarrow> u32" where
  "le_word [] = 0"
| "le_word (b # bs) = ucast b OR push_bit 8 (le_word bs)"

definition scramble :: "u32 \<Rightarrow> u32" where
  "scramble k = ROTL32 (k * C1) 15 * C2"

fun body :: "u32 \<Rightarrow> u8 list \<Rightarrow> u32 \<times> u8 list" where
  "body h (b0 # b1 # b2 # b3 # bs) = body (ROTL32 (h XOR scramble (le_word [b0, b1, b2, b3])) 13 * 5 + 0xe6546b64) bs"
| "body h bs = (h, bs)"

definition fmix :: "u32 \<Rightarrow> u32" where
  "fmix h =
     (let h = (h XOR drop_bit 16 h) * 0x85ebca6b; h = (h XOR drop_bit 13 h) * 0xc2b2ae35 in h XOR drop_bit 16 h)"

definition murmur3 :: "u32 \<Rightarrow> u8 list \<Rightarrow> u32" where
  "murmur3 seed bs =
     (let (h, tail) = body seed bs; h = (if tail = [] then h else h XOR scramble (le_word tail)) in
      fmix (h XOR of_nat (length bs)))"

text \<open>The carry holds the bytes of the tail in its high bytes.\<close>

definition holds :: "u32 \<Rightarrow> u8 list \<Rightarrow> bool" where
  "holds c bs \<longleftrightarrow> length bs < 4 \<and> drop_bit (32 - 8 * length bs) c = le_word bs"

definition represents :: "u32 \<Rightarrow> u8 list \<Rightarrow> u32 \<Rightarrow> u32 \<Rightarrow> nat \<Rightarrow> bool" where
  "represents seed bs h c n \<longleftrightarrow> fst (body seed bs) = h \<and> holds c (snd (body seed bs)) \<and> n = length (snd (body seed bs))"

text \<open>Pieces of data, each with the address it lies at.\<close>

fun process_all :: "bool \<Rightarrow> u32 \<times> u32 \<Rightarrow> (nat \<times> u8 list) list \<Rightarrow> u32 \<times> u32" where
  "process_all unaligned st [] = st"
| "process_all unaligned st ((addr, key) # ks) = process_all unaligned (PMurHash32_Process unaligned addr st key) ks"

section \<open>Equivalence\<close>

lemma READ_UINT32_le: "READ_UINT32 [b0, b1, b2, b3] = le_word [b0, b1, b2, b3]"
  by (simp add: READ_UINT32_def push_bit_or or.assoc)

lemma DOBLOCK_body: "fst (DOBLOCK h (le_word [b0, b1, b2, b3])) = fst (body h [b0, b1, b2, b3])"
  by (simp add: DOBLOCK_def scramble_def Let_def)

lemma body_rest: "length (snd (body h bs)) < 4"
  by (induction h bs rule: body.induct) simp_all

lemma body_short: "length bs < 4 \<Longrightarrow> body h bs = (h, bs)"
  by (induction h bs rule: body.induct) simp_all

lemma body_append: "body h (xs @ ys) = (let (h, rest) = body h xs in body h (rest @ ys))"
  by (induction h xs rule: body.induct) simp_all

lemma byte_bit: "bit (b :: u8) n \<Longrightarrow> n < 8"
  using bit_imp_le_length by fastforce

lemma le_word_snoc:
  "length bs < 4 \<Longrightarrow> le_word (bs @ [b]) = le_word bs OR push_bit (8 * length bs) (ucast b)"
  by (induction bs) (simp_all add: push_bit_or or.assoc add.commute)

lemma holds_shift:
  assumes "holds c bs"
  shows "drop_bit (32 - 8 * length (bs @ [b])) (drop_bit 8 c OR push_bit 24 (ucast b)) = le_word (bs @ [b])"
proof -
  let ?n = "length bs"
  have n: "?n < 4" using assms by (simp add: holds_def)
  have "drop_bit (32 - 8 * Suc ?n) (drop_bit 8 c) = le_word bs"
  proof -
    have "32 - 8 * Suc ?n + 8 = 32 - 8 * ?n" using n by simp
    then show ?thesis using assms by (simp only: holds_def drop_bit_drop_bit)
  qed
  moreover have "drop_bit (32 - 8 * Suc ?n) (push_bit 24 (ucast b :: u32)) = push_bit (8 * ?n) (ucast b)"
  proof (rule bit_eqI)
    fix k
    have "24 \<le> k + (32 - 8 * Suc ?n) \<longleftrightarrow> 8 * ?n \<le> k" "k + (32 - 8 * Suc ?n) - 24 = k - 8 * ?n" if "8 * ?n \<le> k"
      using n that by simp_all
    then show "bit (drop_bit (32 - 8 * Suc ?n) (push_bit 24 (ucast b :: u32))) k = bit (push_bit (8 * ?n) (ucast b :: u32)) k"
      using n by (auto simp: bit_simps dest: byte_bit)
  qed
  ultimately show ?thesis using n by (simp add: le_word_snoc)
qed


lemma holds_Nil: "holds c []"
  by (auto simp: holds_def intro!: bit_eqI simp: bit_simps dest: bit_imp_le_length)

lemma body_four:
  "body h [b0, b1, b2, b3] = (fst (DOBLOCK h (le_word [b0, b1, b2, b3])), [])"
  by (simp add: DOBLOCK_def scramble_def Let_def)

lemma represents_byte:
  assumes "represents seed bs h c n" "c' = drop_bit 8 c OR push_bit 24 (ucast b)"
  shows "if n = 3 then represents seed (bs @ [b]) (fst (DOBLOCK h c')) c'' 0 else represents seed (bs @ [b]) h c' (Suc n)"
proof -
  obtain tl where tl: "body seed bs = (h, tl)" "holds c tl" "n = length tl"
    using assms(1) by (cases "body seed bs") (auto simp: represents_def)
  have app: "body seed (bs @ [b]) = body h (tl @ [b])" by (subst body_append) (simp add: tl(1))
  note shift = holds_shift [OF tl(2), of b, folded assms(2)]
  show ?thesis
  proof (cases "n = 3")
    case True
    then obtain b0 b1 b2 where t: "tl = [b0, b1, b2]" using tl(3) by (auto simp: numeral_3_eq_3 length_Suc_conv)
    then have "c' = le_word [b0, b1, b2, b]" using shift by simp
    then have "body h (tl @ [b]) = (fst (DOBLOCK h c'), [])" by (simp only: t append.simps body_four)
    then show ?thesis using True app holds_Nil by (simp add: represents_def del: body.simps)
  next
    case False
    then have "length (tl @ [b]) < 4" using tl(2,3) by (simp add: holds_def)
    then show ?thesis using False app shift tl(3) body_short [of "tl @ [b]" h]
      by (simp add: represents_def holds_def del: body.simps)
  qed
qed

lemma represents_DOBYTES:
  assumes "represents seed bs h c n" "DOBYTES h c n xs = (h', c', n')"
  shows "represents seed (bs @ xs) h' c' n'"
  using assms
proof (induction h c n xs arbitrary: bs rule: DOBYTES.induct)
  case (2 h c n b xs)
  define c1 where "c1 = drop_bit 8 c OR push_bit 24 (ucast b :: u32)"
  obtain h2 c2 where blk: "DOBLOCK h c1 = (h2, c2)" by (rule prod.exhaust)
  note step = represents_byte [OF 2(3) c1_def, of c2]
  show ?case
  proof (cases "n = 3")
    case True
    then show ?thesis
      using 2(1) [OF c1_def refl _ blk [symmetric] refl, of "bs @ [b]"] 2(4) step blk
      by (simp add: c1_def [symmetric] Let_def)
  next
    case False
    then show ?thesis
      using 2(2) [OF c1_def refl, of "bs @ [b]"] 2(4) step by (simp add: c1_def [symmetric] Let_def)
  qed
qed simp

lemma represents_chunks:
  "represents seed bs h c 0 \<Longrightarrow> length xs mod 4 = 0 \<Longrightarrow> represents seed (bs @ xs) (chunks h xs) c 0"
proof (induction h xs arbitrary: bs rule: chunks.induct)
  case (1 h b0 b1 b2 b3 xs)
  have "body seed bs = (h, [])" using 1(2) by (cases "body seed bs") (simp add: represents_def)
  then have "body seed (bs @ [b0, b1, b2, b3]) = (fst (DOBLOCK h (READ_UINT32 [b0, b1, b2, b3])), [])"
    by (subst body_append) (simp only: READ_UINT32_le body_four append_Nil Let_def case_prod_conv)
  then have "represents seed (bs @ [b0, b1, b2, b3]) (fst (DOBLOCK h (READ_UINT32 [b0, b1, b2, b3]))) c 0"
    using holds_Nil by (simp add: represents_def del: body.simps)
  moreover have "length xs mod 4 = 0" using 1(3) mod_add_self2 [of "length xs" 4] by simp
  ultimately show ?case using 1(1) [of "bs @ [b0, b1, b2, b3]"] by simp
qed simp_all

lemma le_word_append: "le_word (xs @ ys) = le_word xs OR push_bit (8 * length xs) (le_word ys)"
  by (induction xs) (simp_all add: push_bit_or or.assoc add.commute)

lemma le_word_bit: "bit (le_word bs) k \<Longrightarrow> k < 8 * length bs"
proof (induction bs arbitrary: k)
  case (Cons b bs)
  then show ?case by (cases "k < 8") (auto simp: bit_simps dest: byte_bit Cons.IH)
qed simp

lemma drop_byte:
  assumes "length bs < 4"
  shows "drop_bit 8 (le_word (b # bs)) = le_word bs"
proof (rule bit_eqI)
  fix k
  show "bit (drop_bit 8 (le_word (b # bs))) k = bit (le_word bs) k"
    using assms le_word_bit [of bs k] by (auto simp: bit_simps dest: byte_bit)
qed

lemma le_word_drop: "length bs \<le> 4 \<Longrightarrow> drop_bit (8 * k) (le_word bs) = le_word (drop k bs)"
proof (induction k arbitrary: bs)
  case (Suc k)
  show ?case
  proof (cases bs)
    case (Cons b bs')
    have "drop_bit (8 * Suc k) (le_word bs) = drop_bit (8 * k) (drop_bit 8 (le_word bs))"
      by (simp add: add.commute)
    also have "drop_bit 8 (le_word bs) = le_word bs'" unfolding Cons by (rule drop_byte) (use Cons Suc.prems in simp)
    also have "drop_bit (8 * k) (le_word bs') = le_word (drop k bs')" by (rule Suc.IH) (use Cons Suc.prems in simp)
    finally show ?thesis using Cons by simp
  qed simp
qed simp

lemma le_word_take: "le_word (take 4 bs) = le_word bs"
proof (cases "length bs \<le> 4")
  case False
  have "push_bit 32 (le_word (drop 4 bs)) = 0" by (auto intro!: bit_eqI simp: bit_simps)
  then show ?thesis using le_word_append [of "take 4 bs" "drop 4 bs"] False by (simp del: le_word.simps)
qed simp

lemma represents_carry_chunks:
  "represents seed bs h c n \<Longrightarrow> length xs mod 4 = 0 \<Longrightarrow> carry_chunks n h c xs = (h', c') \<Longrightarrow>
     represents seed (bs @ xs) h' c' n"
proof (induction n h c xs arbitrary: bs rule: carry_chunks.induct)
  case (1 n h c b0 b1 b2 b3 xs)
  let ?w = "[b0, b1, b2, b3]"
  obtain tl where tl: "body seed bs = (h, tl)" "holds c tl" "n = length tl"
    using 1(2) by (cases "body seed bs") (auto simp: represents_def)
  have n: "n < 4" using tl by (simp add: holds_def)
  define k1 where "k1 = drop_bit (32 - 8 * n) c OR push_bit (8 * n) (READ_UINT32 ?w)"
  have k1: "k1 = le_word (take 4 (tl @ ?w))"
    using tl(2,3) unfolding k1_def READ_UINT32_le le_word_take le_word_append holds_def by (simp only:)
  obtain a0 a1 a2 a3 where a: "take 4 (tl @ ?w) = [a0, a1, a2, a3]"
  proof -
    have "length (take 4 (tl @ ?w)) = Suc (Suc (Suc (Suc 0)))" by simp
    then show ?thesis using that by (auto simp only: length_Suc_conv length_0_conv)
  qed
  have rest: "drop 4 (tl @ ?w) = drop (4 - n) ?w" using n tl(3) by simp
  have "body seed (bs @ ?w) = body h (take 4 (tl @ ?w) @ drop 4 (tl @ ?w))"
    unfolding append_take_drop_id by (subst body_append) (simp add: tl(1) del: body.simps)
  also have "\<dots> = body (fst (DOBLOCK h k1)) (drop (4 - n) ?w)"
    unfolding rest unfolding a k1 by (subst body_append) (simp only: body_four Let_def case_prod_conv append_Nil)
  also have "\<dots> = (fst (DOBLOCK h k1), drop (4 - n) ?w)" by (rule body_short) (use n in simp)
  finally have "represents seed (bs @ ?w) (fst (DOBLOCK h k1)) (READ_UINT32 ?w) n"
    using n le_word_drop [of ?w "4 - n"]
    by (simp add: represents_def holds_def READ_UINT32_le diff_mult_distrib2 del: le_word.simps body.simps)
  moreover have "length xs mod 4 = 0" using 1(3) mod_add_self2 [of "length xs" 4] by simp
  ultimately show ?case
    using 1(1) [OF refl refl refl, of "bs @ ?w"] 1(4) by (simp add: k1_def Let_def del: body.simps)
qed simp_all

lemma body_tail: "length (snd (body h bs)) = length bs mod 4"
proof (induction h bs rule: body.induct)
  case (1 h b0 b1 b2 b3 bs)
  then show ?case using mod_add_self2 [of "length bs" 4] by simp
qed simp_all

lemma represents_count: "represents seed bs h c n \<Longrightarrow> n = length bs mod 4"
  by (simp add: represents_def body_tail)

lemma count_cases: "n < 4 \<Longrightarrow> n = 0 \<or> n = 1 \<or> n = 2 \<or> n = (3 :: nat)"
  by auto


lemma carry_count: "n < 4 \<Longrightarrow> unat (((c AND NOT 0xff) OR of_nat n) AND 3 :: u32) = n"
proof -
  assume n: "n < 4"
  have "(c AND NOT 0xff) AND 3 = c AND (NOT 0xff AND 3 :: u32)" by (rule and.assoc)
  also have "NOT 0xff AND 3 = (0::u32)" by simp
  finally have "((c AND NOT 0xff) OR of_nat n) AND 3 = (of_nat n AND 3 :: u32)" by (simp add: bit.conj_disj_distrib2)
  then show ?thesis using n by (auto dest!: count_cases)
qed
lemma holds_mask:
  assumes "holds c bs" "n < 4"
  shows "holds ((c AND NOT 0xff) OR of_nat n) bs"
proof -
  have "drop_bit (32 - 8 * length bs) (((c AND NOT 0xff) OR of_nat n) :: u32) = drop_bit (32 - 8 * length bs) c"
  proof (rule bit_eqI)
    fix k
    have m: "(0xff :: u32) = mask 8" by (simp add: mask_eq_exp_minus_1)
    have "length bs < 4" using assms(1) unfolding holds_def by blast
    then have "8 \<le> 32 - 8 * length bs" by arith
    moreover have "\<not> bit (of_nat n :: u32) j" if "8 \<le> j" for j
    proof -
      have "(2::nat) ^ 8 \<le> 2 ^ j" using that by (rule power_increasing) simp
      then have "n div 2 ^ j = 0" using assms(2) by simp
      then show ?thesis by (simp add: bit_simps) (simp add: bit_iff_odd)
    qed
    ultimately show "bit (drop_bit (32 - 8 * length bs) (((c AND NOT 0xff) OR of_nat n) :: u32)) k =
        bit (drop_bit (32 - 8 * length bs) c) k"
      unfolding m by (auto simp: bit_simps dest: bit_imp_le_length)
  qed
  then show ?thesis using assms(1) by (simp add: holds_def)
qed

lemma represents_process:
  assumes "represents seed bs h c (unat (c AND 3))" "PMurHash32_Process unaligned addr (h, c) key = (h', c')"
  shows "represents seed (bs @ key) h' c' (unat (c' AND 3))"
proof -
  define n where "n = unat (c AND 3)"
  define i where "i = (if unaligned then (4 - n) mod 4 else (4 - addr mod 4) mod 4)"
  obtain h1 c1 n1 ptr where 1: "(if i \<noteq> 0 \<and> i \<le> length key
      then let (h1, c, n) = DOBYTES h c n (take i key) in (h1, c, n, drop i key) else (h, c, n, key)) = (h1, c1, n1, ptr)"
    by (rule prod_cases4)
  define m where "m = length ptr div 4 * 4"
  obtain h2 c2 where 2: "(if unaligned \<or> n1 = 0 then (chunks h1 (take m ptr), c1)
      else carry_chunks n1 h1 c1 (take m ptr)) = (h2, c2)" by (rule prod.exhaust)
  obtain h3 c3 n3 where 3: "DOBYTES h2 c2 n1 (drop m ptr) = (h3, c3, n3)" by (rule prod_cases3)
  have res: "h' = h3" "c' = (c3 AND NOT 0xff) OR of_nat n3"
    using assms(2) 1 2 3
    unfolding PMurHash32_Process_def Let_def prod.case n_def [symmetric] i_def [symmetric] m_def by (simp_all only: prod.case prod.inject)
  define front where "front = (if i \<noteq> 0 \<and> i \<le> length key then take i key else [])"
  have r1: "represents seed (bs @ front) h1 c1 n1" and key: "key = front @ ptr"
    using assms(1) 1 represents_DOBYTES
    by (auto simp: front_def n_def [symmetric] split: if_splits prod.splits)
  have "length (take m ptr) = m" unfolding m_def length_take using div_times_less_eq_dividend [of "length ptr" 4] by simp
  then have m4: "length (take m ptr) mod 4 = 0" by (simp add: m_def)
  have zero: "n1 = 0 \<or> take m ptr = []" if unaligned
  proof (cases "i \<noteq> 0 \<and> i \<le> length key")
    case True
    have "n = length bs mod 4" using represents_count [OF assms(1)] by (simp add: n_def)
    moreover have "n1 = length (bs @ front) mod 4" by (rule represents_count [OF r1])
    moreover have "length front = (4 - n) mod 4" using True that by (simp add: front_def i_def)
    ultimately have "n1 = (n + (4 - n) mod 4) mod 4" by (simp add: mod_add_left_eq)
    moreover have "n < 4" by (simp add: \<open>n = length bs mod 4\<close>)
    ultimately show ?thesis by (auto dest!: count_cases)
  next
    case False
    have "n < 4" using represents_count [OF assms(1)] by (simp add: n_def)
    then show ?thesis using False that 1 by (auto simp: i_def m_def dest!: count_cases split: if_splits)
  qed
  have r2: "represents seed (bs @ front @ take m ptr) h2 c2 n1"
  proof (cases "unaligned \<or> n1 = 0")
    case True
    then show ?thesis using zero 2 r1 represents_chunks [OF _ m4, of seed "bs @ front" h1 c1] by auto
  next
    case False
    then show ?thesis using represents_carry_chunks [OF r1 m4] 2 by simp
  qed
  have r3: "represents seed (bs @ key) h3 c3 n3"
    using represents_DOBYTES [OF r2 3] by (simp add: key)
  then have "n3 < 4" using represents_count by (metis mod_less_divisor zero_less_numeral)
  then show ?thesis using r3 carry_count holds_mask unfolding res by (simp add: represents_def)
qed

lemma represents_result:
  assumes "represents seed bs h c (unat (c AND 3))"
  shows "PMurHash32_Result h c (of_nat (length bs)) = murmur3 seed bs"
proof -
  obtain tl where tl: "body seed bs = (h, tl)" "holds c tl" "unat (c AND 3) = length tl"
    using assms by (cases "body seed bs") (auto simp: represents_def)
  have "(4 - length tl) * 8 = 32 - 8 * length tl" by arith
  then have "drop_bit ((4 - length tl) * 8) c = le_word tl" using tl(2) by (simp only: holds_def)
  then show ?thesis
    unfolding PMurHash32_Result_def murmur3_def tl(1,3) fmix_def scramble_def Let_def by simp
qed

lemma represents_all:
  "represents seed bs h c (unat (c AND 3)) \<Longrightarrow> process_all unaligned (h, c) ks = (h', c') \<Longrightarrow>
     represents seed (bs @ concat (map snd ks)) h' c' (unat (c' AND 3))"
proof (induction ks arbitrary: bs h c)
  case (Cons k ks)
  obtain addr key where k: "k = (addr, key)" by (rule prod.exhaust)
  obtain h1 c1 where 1: "PMurHash32_Process unaligned addr (h, c) key = (h1, c1)" by (rule prod.exhaust)
  show ?case using Cons.IH [OF represents_process [OF Cons.prems(1) 1]] Cons.prems(2) k 1 by simp
qed simp

lemma process_all_murmur:
  "(let (h1, carry) = process_all unaligned (seed, 0) ks in
    PMurHash32_Result h1 carry (of_nat (length (concat (map snd ks))))) = murmur3 seed (concat (map snd ks))"
proof -
  have init: "represents seed [] seed 0 (unat ((0::u32) AND 3))"
    using holds_Nil by (simp add: represents_def)
  obtain h c where "process_all unaligned (seed, 0) ks = (h, c)" by (rule prod.exhaust)
  then show ?thesis using represents_result [OF represents_all [OF init]] by simp
qed

text \<open>
  C40. However data is cut into pieces, wherever the pieces lie, and in both variants of the loop, the
  progressive hash is MurmurHash3 of the whole data; so is the hash in one call.
\<close>

theorem progressive_murmur:
  "(let (h1, carry) = process_all unaligned (seed, 0) ks in
    PMurHash32_Result h1 carry (of_nat (length (concat (map snd ks))))) = murmur3 seed (concat (map snd ks)) \<and>
   PMurHash32 unaligned addr seed bs = murmur3 seed bs"
  using process_all_murmur [of unaligned seed ks] process_all_murmur [of unaligned seed "[(addr, bs)]"]
  by (simp add: PMurHash32_def)

text \<open>The published value for the string \<open>test\<close> and seed 0.\<close>

lemma murmur3_test: "murmur3 0 [0x74, 0x65, 0x73, 0x74] = 0xba6bd213"
  by code_simp

end
