(* ===== verification/Mono_Pointer.thy ===== *)
theory Mono_Pointer
  imports Ogon_Prelude
begin

text \<open>
  The conversion of a pointer shape for clients that only know monochrome pointers, from
  \<open>rdp-server/backend.c\<close>. It works in place: the shape with three bytes a pixel overwrites the one
  with four. Buffers are lists of bytes; an access outside a buffer is None.
\<close>

section \<open>Monochrome pointers\<close>

record pointer_color =
  pc_cacheIndex :: u32
  pc_xPos :: u32
  pc_yPos :: u32
  pc_width :: u32
  pc_height :: u32
  pc_lengthAndMask :: u32
  pc_lengthXorMask :: u32
  pc_xorMaskData :: "u8 list"
  pc_andMaskData :: "u8 list"

definition grey :: "u8 \<Rightarrow> u8 \<Rightarrow> u8 \<Rightarrow> u32" where
  "grey r g b = drop_bit 24 (5016388 * ucast r + 9848226 * ucast g + 1912603 * ucast b)"

text \<open>
  One turn of the inner loop for the pixel in column \<open>x\<close> of row \<open>y\<close>: \<open>xorSrc\<close> and \<open>xorDst\<close> are
  offsets in the same buffer.
\<close>

definition mono_pixel ::
    "u32 \<Rightarrow> nat \<Rightarrow> nat \<Rightarrow> nat \<Rightarrow> nat \<Rightarrow> u8 list \<times> u8 list \<Rightarrow> (u8 list \<times> u8 list) option" where
  "mono_pixel andMskStride y x xorSrc xorDst bufs =
     (let (px, andMsk) = bufs in
      if xorSrc + 3 \<ge> length px then None
      else let (setAndMaskBit, colorValue) =
                 (if px ! (xorSrc + 3) > 127
                  then (False, if drop_bit 7 (grey (px ! (xorSrc + 2)) (px ! (xorSrc + 1)) (px ! xorSrc)) \<noteq> 0
                               then 0xFF else 0)
                  else (True, 0));
               andMskOffset = unat (andMskStride * of_nat y + of_nat (x div 8));
               andMskValue = drop_bit (x mod 8) 0x80
           in if andMskOffset \<ge> length andMsk then None
              else let v = andMsk ! andMskOffset;
                       andMsk = andMsk[andMskOffset := if setAndMaskBit then v OR andMskValue else v AND NOT andMskValue]
                   in map_option (\<lambda>px. (px, andMsk)) (memset px xorDst colorValue 3))"

fun mono_pixels :: "u32 \<Rightarrow> (nat \<times> nat) list \<Rightarrow> nat \<Rightarrow> nat \<Rightarrow> u8 list \<times> u8 list \<Rightarrow> (u8 list \<times> u8 list) option" where
  "mono_pixels stride [] xorSrc xorDst bufs = Some bufs"
| "mono_pixels stride ((y, x) # ps) xorSrc xorDst bufs =
     Option.bind (mono_pixel stride y x xorSrc xorDst bufs) (mono_pixels stride ps (xorSrc + 4) (xorDst + 3))"

definition and_stride :: "bool \<Rightarrow> u32 \<Rightarrow> u32" where
  "and_stride isRdesktop width =
     (if isRdesktop then drop_bit 3 (width + 7) else drop_bit 4 (width + 15) * 2)"

text \<open>The result, the colour depth and the pointer.\<close>

definition ogon_new_pointer_to_mono_color_pointer ::
    "bool \<Rightarrow> u32 \<times> pointer_color \<Rightarrow> (bool \<times> u32 \<times> pointer_color) option" where
  "ogon_new_pointer_to_mono_color_pointer isRdesktop new =
     (let (xorBpp, p) = new in
      if xorBpp \<noteq> 32 then Some (False, xorBpp, p)
      else let stride = and_stride isRdesktop (pc_width p);
               p = p\<lparr>pc_lengthXorMask := pc_width p * pc_height p * 3, pc_lengthAndMask := pc_height p * stride\<rparr>;
               pixels = List.product [0..<unat (pc_height p)] [0..<unat (pc_width p)]
           in case memset (pc_andMaskData p) 0 0 (unat (pc_lengthAndMask p)) of
                None \<Rightarrow> None
              | Some andMsk \<Rightarrow>
                  map_option (\<lambda>(px, andMsk). (True, 24, p\<lparr>pc_xorMaskData := px, pc_andMaskData := andMsk\<rparr>))
                    (mono_pixels stride pixels 0 0 (pc_xorMaskData p, andMsk)))"

section \<open>Reference\<close>

text \<open>Pixel by pixel, from the data as it was.\<close>

definition transparent :: "u8 list \<Rightarrow> nat \<Rightarrow> bool" where
  "transparent px i \<longleftrightarrow> px ! (4 * i + 3) \<le> 127"

definition mono_value :: "u8 list \<Rightarrow> nat \<Rightarrow> u8" where
  "mono_value px i =
     (if transparent px i then 0
      else if grey (px ! (4 * i + 2)) (px ! (4 * i + 1)) (px ! (4 * i)) < 128 then 0 else 0xFF)"

definition mono_xor :: "nat \<Rightarrow> u8 list \<Rightarrow> u8 list" where
  "mono_xor n px = concat (map (\<lambda>i. replicate 3 (mono_value px i)) [0..<n])"

text \<open>Bit \<open>7 - x mod 8\<close> of the byte for column \<open>x\<close> tells whether the pixel is transparent.\<close>

definition mono_and_byte :: "nat \<Rightarrow> nat \<Rightarrow> u8 list \<Rightarrow> nat \<Rightarrow> u8" where
  "mono_and_byte w stride px j =
     horner_sum of_bool 2
       (map (\<lambda>b. let x = 8 * (j mod stride) + (7 - b) in x < w \<and> transparent px (j div stride * w + x)) [0..<8])"

definition mono_and :: "nat \<Rightarrow> nat \<Rightarrow> nat \<Rightarrow> u8 list \<Rightarrow> u8 list" where
  "mono_and w h stride px = map (mono_and_byte w stride px) [0..<h * stride]"

text \<open>The buffer of the colours after \<open>k\<close> pixels.\<close>

definition px_after :: "u8 list \<Rightarrow> nat \<Rightarrow> u8 list" where
  "px_after px k = mono_xor k px @ drop (3 * k) px"

text \<open>The byte and the bit of pixel \<open>i\<close> in the mask.\<close>

definition mask_at :: "nat \<Rightarrow> nat \<Rightarrow> nat \<Rightarrow> nat" where
  "mask_at w stride i = stride * (i div w) + i mod w div 8"

definition mask_step :: "nat \<Rightarrow> nat \<Rightarrow> u8 list \<Rightarrow> u8 list \<Rightarrow> nat \<Rightarrow> u8 list" where
  "mask_step w stride px m i =
     m[mask_at w stride i := if transparent px i then m ! mask_at w stride i OR drop_bit (i mod w mod 8) 0x80
                             else m ! mask_at w stride i AND NOT (drop_bit (i mod w mod 8) 0x80)]"

text \<open>What the mask holds after \<open>k\<close> pixels.\<close>

definition mask_bit :: "nat \<Rightarrow> nat \<Rightarrow> nat" where
  "mask_bit w i = 7 - i mod w mod 8"

definition mono_stride :: "bool \<Rightarrow> nat \<Rightarrow> nat" where
  "mono_stride isRdesktop w = (if isRdesktop then (w + 7) div 8 else (w + 15) div 16 * 2)"

section \<open>Equivalence\<close>

lemma product_pixels:
  "List.product [0..<h] [0..<w] = map (\<lambda>i. (i div w, i mod w)) [0..<h * w]"
proof (induction h)
  case (Suc h)
  have "map (\<lambda>i. (i div w, i mod w)) [h * w..<h * w + w] = map (Pair h) [0..<w]"
    by (rule nth_equalityI) (auto simp: div_mult_self_is_m)
  moreover have "[0..<Suc h * w] = [0..<h * w] @ [h * w..<h * w + w]"
    using upt_add_eq_append [of 0 "h * w" w] by (simp add: add.commute)
  ultimately show ?case using Suc by (simp add: product_concat_map)
qed simp

lemma mono_xor_length [simp]: "length (mono_xor n px) = 3 * n"
  by (induction n) (simp_all add: mono_xor_def)

lemma mono_xor_Suc: "mono_xor (Suc n) px = mono_xor n px @ replicate 3 (mono_value px n)"
  by (simp add: mono_xor_def)

lemma px_after_nth: "3 * k \<le> i \<Longrightarrow> i < length px \<Longrightarrow> px_after px k ! i = px ! i"
  by (simp add: px_after_def nth_append)

lemma px_after_length: "3 * k \<le> length px \<Longrightarrow> length (px_after px k) = length px"
  by (simp add: px_after_def)

lemma px_after_memset:
  "3 * k + 3 \<le> length px \<Longrightarrow> memset (px_after px k) (3 * k) (mono_value px k) 3 = Some (px_after px (Suc k))"
  by (simp add: memset_def px_after_length) (simp add: px_after_def mono_xor_Suc)

lemma drop7_less: "drop_bit 7 (g :: u32) \<noteq> 0 \<longleftrightarrow> \<not> g < 128"
proof -
  have "drop_bit 7 g = 0 \<longleftrightarrow> unat g div 128 = 0"
    by (simp add: word_unat_eq_iff unat_drop_bit_eq drop_bit_eq_div unat_div)
  then show ?thesis by (simp add: word_less_nat_alt div_eq_0_iff)
qed

lemma pixel_colour:
  assumes "4 * k + 3 < length px"
  shows "(if px_after px k ! (4 * k + 3) > 127
      then (False, if drop_bit 7 (grey (px_after px k ! (4 * k + 2)) (px_after px k ! (4 * k + 1)) (px_after px k ! (4 * k))) \<noteq> 0
                   then 0xFF else 0)
      else (True, 0)) = (transparent px k, mono_value px k)"
  using assms unfolding drop7_less
  by (auto simp: px_after_nth transparent_def mono_value_def not_less not_le dest: leD)

lemma mono_pixel_step:
  assumes "4 * k + 3 < length px" "mask_at w (unat stride) k < length m" "mask_at w (unat stride) k < 2 ^ 32"
  shows "mono_pixel stride (k div w) (k mod w) (4 * k) (3 * k) (px_after px k, m) =
    Some (px_after px (Suc k), mask_step w (unat stride) px m k)"
proof -
  have off: "unat (stride * of_nat (k div w) + of_nat (k mod w div 8)) = mask_at w (unat stride) k"
  proof -
    have "stride * of_nat (k div w) + of_nat (k mod w div 8) = (of_nat (mask_at w (unat stride) k) :: u32)"
      by (simp add: mask_at_def)
    then show ?thesis using assms(3) by (simp add: unat_of_nat take_bit_nat_eq_self)
  qed
  have "length (px_after px k) = length px" by (rule px_after_length) (use assms(1) in simp)
  then show ?thesis
    using assms(1,2) px_after_memset [of k px]
    unfolding mono_pixel_def Let_def prod.case off pixel_colour [OF assms(1)]
    by (simp add: mask_step_def)
qed

lemma mono_pixel_short:
  assumes "\<not> 4 * k + 3 < length px" "3 * k \<le> length px"
  shows "mono_pixel stride y x (4 * k) (3 * k) (px_after px k, m) = None"
  using assms by (simp add: mono_pixel_def px_after_length)

lemma mask_step_length [simp]: "length (mask_step w stride px m i) = length m"
  by (simp add: mask_step_def)

lemma mask_fold_length [simp]: "length (foldl (mask_step w stride px) m is) = length m"
  by (induction "is" arbitrary: m) simp_all

lemma mono_pixels_all:
  assumes "\<And>i. i < k + n \<Longrightarrow> mask_at w (unat stride) i < length m"
    "\<And>i. i < k + n \<Longrightarrow> mask_at w (unat stride) i < 2 ^ 32" "3 * k \<le> length px"
  shows "mono_pixels stride (map (\<lambda>i. (i div w, i mod w)) [k..<k + n]) (4 * k) (3 * k) (px_after px k, m) =
    (if n = 0 \<or> 4 * (k + n) \<le> length px
     then Some (px_after px (k + n), foldl (mask_step w (unat stride) px) m [k..<k + n]) else None)"
  using assms
proof (induction n arbitrary: k m)
  case (Suc n)
  have upt: "[k..<k + Suc n] = k # [Suc k..<Suc k + n]" by (simp add: upt_rec)
  show ?case
  proof (cases "4 * k + 3 < length px")
    case True
    have "mono_pixel stride (k div w) (k mod w) (4 * k) (3 * k) (px_after px k, m) =
        Some (px_after px (Suc k), mask_step w (unat stride) px m k)"
      by (rule mono_pixel_step [OF True]) (use Suc.prems(1,2) [of k] in simp_all)
    moreover have "mono_pixels stride (map (\<lambda>i. (i div w, i mod w)) [Suc k..<Suc k + n]) (4 * Suc k) (3 * Suc k)
          (px_after px (Suc k), mask_step w (unat stride) px m k) =
        (if n = 0 \<or> 4 * (Suc k + n) \<le> length px
         then Some (px_after px (Suc k + n), foldl (mask_step w (unat stride) px) (mask_step w (unat stride) px m k)
           [Suc k..<Suc k + n]) else None)"
      by (rule Suc.IH) (use Suc.prems True in simp_all)
    ultimately show ?thesis unfolding upt using True by (auto simp: add.commute [of 4] add.commute [of 3])
  next
    case False
    then show ?thesis unfolding upt using mono_pixel_short [OF False Suc.prems(3)] by simp
  qed
qed simp

lemma byte_80: "bit (drop_bit r 0x80 :: u8) b \<longleftrightarrow> r < 8 \<and> b = 7 - r"
proof -
  have eq: "(0x80 :: u8) = push_bit 7 1" by simp
  have "bit (0x80 :: u8) k \<longleftrightarrow> k = 7" for k
    unfolding eq bit_push_bit_iff bit_1_iff possible_bit_word by auto
  then show ?thesis unfolding bit_drop_bit_eq o_apply by (simp only:) arith
qed

lemma mask_step_bit:
  assumes "mask_at w stride i < length m" "j < length m"
  shows "bit (mask_step w stride px m i ! j) b =
    (if j = mask_at w stride i \<and> b = mask_bit w i then transparent px i else bit (m ! j) b)"
proof -
  have "i mod w mod 8 < 8" by simp
  then have eighty: "bit (drop_bit (i mod w mod 8) 0x80 :: u8) b \<longleftrightarrow> b = mask_bit w i"
    using byte_80 by (simp add: mask_bit_def)
  show ?thesis
  proof (cases "j = mask_at w stride i")
    case True
    have "bit (NOT (drop_bit (i mod w mod 8) 0x80 :: u8)) b \<longleftrightarrow> b < 8 \<and> b \<noteq> mask_bit w i"
      using eighty by (simp only: bit_not_iff possible_bit_word) simp
    moreover have "bit (m ! j) b \<Longrightarrow> b < 8" using bit_imp_le_length by fastforce
    ultimately show ?thesis
      using True assms eighty by (auto simp: mask_step_def bit_or_iff bit_and_iff simp del: drop_bit_numeral_minus_bit1)
  qed (use assms in \<open>simp add: mask_step_def\<close>)
qed

lemma mask_fold_hit:
  assumes "inj_on (\<lambda>i. (mask_at w stride i, mask_bit w i)) {..<n}" "\<And>i. i < n \<Longrightarrow> mask_at w stride i < length m" "i < n"
  shows "bit (foldl (mask_step w stride px) m [0..<n] ! mask_at w stride i) (mask_bit w i) = transparent px i"
  using assms
proof (induction n)
  case (Suc n)
  show ?case
  proof (cases "i = n")
    case False
    then have "(mask_at w stride i, mask_bit w i) \<noteq> (mask_at w stride n, mask_bit w n)"
      using inj_onD [OF Suc.prems(1), of i n] Suc.prems(3) by auto
    moreover have "inj_on (\<lambda>i. (mask_at w stride i, mask_bit w i)) {..<n}"
      using Suc.prems(1) by (rule inj_on_subset) auto
    ultimately show ?thesis using Suc False by (auto simp: mask_step_bit)
  qed (use Suc.prems in \<open>simp add: mask_step_bit\<close>)
qed simp

lemma mask_fold_miss:
  assumes "\<And>i. i < n \<Longrightarrow> mask_at w stride i < length m" "j < length m"
    "\<And>i. i < n \<Longrightarrow> \<not> (mask_at w stride i = j \<and> mask_bit w i = b)"
  shows "bit (foldl (mask_step w stride px) m [0..<n] ! j) b = bit (m ! j) b"
  using assms by (induction n) (auto simp: mask_step_bit)

lemma mask_at_parts:
  assumes "w \<le> 8 * stride" "i < h * w"
  shows "mask_at w stride i < h * stride" "mask_at w stride i div stride = i div w"
    "mask_at w stride i mod stride = i mod w div 8"
proof -
  have w: "0 < w" using assms(2) by (cases w) auto
  have col: "i mod w div 8 < stride" using assms(1) mod_less_divisor [OF w, of i] by linarith
  have row: "i div w < h" using assms(2) by (simp add: less_mult_imp_div_less)
  show "mask_at w stride i div stride = i div w" "mask_at w stride i mod stride = i mod w div 8"
    using col by (simp_all add: mask_at_def)
  have "mask_at w stride i < stride * Suc (i div w)" using col by (simp add: mask_at_def)
  also have "\<dots> \<le> stride * h" using row by (intro mult_le_mono2) simp
  finally show "mask_at w stride i < h * stride" by (simp add: mult.commute)
qed

lemma mask_inj:
  assumes "w \<le> 8 * stride"
  shows "inj_on (\<lambda>i. (mask_at w stride i, mask_bit w i)) {..<h * w}"
proof (rule inj_onI)
  fix i j
  assume ij: "i \<in> {..<h * w}" "j \<in> {..<h * w}" "(mask_at w stride i, mask_bit w i) = (mask_at w stride j, mask_bit w j)"
  then have row: "i div w = j div w" and col: "i mod w div 8 = j mod w div 8" and bit: "mask_bit w i = mask_bit w j"
    using mask_at_parts(2,3) [OF assms, of i h] mask_at_parts(2,3) [OF assms, of j h] by simp_all
  have "i mod w mod 8 = j mod w mod 8"
  proof -
    have "i mod w mod 8 < 8" "j mod w mod 8 < 8" by simp_all
    then show ?thesis using bit unfolding mask_bit_def by linarith
  qed
  then have "i mod w = j mod w" using col by (metis mult_div_mod_eq)
  then show "i = j" using row by (metis mult_div_mod_eq)
qed

lemma mask_of_pixel:
  assumes "w \<le> 8 * stride" "j < h * stride" "b < 8" "x = 8 * (j mod stride) + (7 - b)" "x < w" "i = j div stride * w + x"
  shows "i < h * w" "mask_at w stride i = j" "mask_bit w i = b"
proof -
  have i: "i div w = j div stride" "i mod w = x" using assms(5,6) by simp_all
  have "j div stride < h" using assms(2) by (simp add: less_mult_imp_div_less)
  then have "Suc (j div stride) * w \<le> h * w" by (intro mult_le_mono1) simp
  then show "i < h * w" using assms(5,6) by simp
  define r where "r = 7 - b"
  have "r < 8" "x = 8 * (j mod stride) + r" by (simp_all only: r_def assms(4))
  then have x: "x div 8 = j mod stride" "x mod 8 = 7 - b" by (simp_all add: r_def [symmetric])
  show "mask_at w stride i = j" unfolding mask_at_def i x by simp
  show "mask_bit w i = b" unfolding mask_bit_def i x using assms(3) by simp
qed

lemma mono_and_bit:
  "bit (mono_and_byte w stride px j) b \<longleftrightarrow>
     b < 8 \<and> 8 * (j mod stride) + (7 - b) < w \<and> transparent px (j div stride * w + (8 * (j mod stride) + (7 - b)))"
  by (auto simp: mono_and_byte_def bit_horner_sum_bit_iff possible_bit_word Let_def)

lemma mask_byte:
  assumes "w \<le> 8 * stride" "j < h * stride" "j < length m" "\<And>i. i < h * w \<Longrightarrow> mask_at w stride i < length m" "m ! j = 0"
  shows "foldl (mask_step w stride px) m [0..<h * w] ! j = mono_and_byte w stride px j"
proof (rule bit_eqI)
  fix b
  let ?x = "8 * (j mod stride) + (7 - b)"
  show "bit (foldl (mask_step w stride px) m [0..<h * w] ! j) b = bit (mono_and_byte w stride px j) b"
  proof (cases "b < 8 \<and> ?x < w")
    case True
    note i = mask_of_pixel [OF assms(1,2) conjunct1 [OF True] refl conjunct2 [OF True] refl]
    have "bit (foldl (mask_step w stride px) m [0..<h * w] ! j) b = transparent px (j div stride * w + ?x)"
      using mask_fold_hit [where m = m and px = px, OF mask_inj [OF assms(1)] assms(4) i(1)] by (simp only: i(2,3))
    then show ?thesis using True by (simp only: mono_and_bit) simp
  next
    case False
    have "\<not> (mask_at w stride i = j \<and> mask_bit w i = b)" if i: "i < h * w" for i
    proof
      assume at: "mask_at w stride i = j \<and> mask_bit w i = b"
      have "i mod w mod 8 < 8" by simp
      then have b: "b < 8" "7 - b = i mod w mod 8" using at by (auto simp: mask_bit_def)
      have "j mod stride = i mod w div 8" using mask_at_parts(3) [OF assms(1) i] at by simp
      then have "?x = i mod w" using b(2) by simp
      moreover have "i mod w < w" using i by (cases w) auto
      ultimately show False using False b(1) by simp
    qed
    then have "bit (foldl (mask_step w stride px) m [0..<h * w] ! j) b = bit (m ! j) b"
      using mask_fold_miss assms(3,4) by blast
    moreover have "\<not> bit (mono_and_byte w stride px j) b" using False unfolding mono_and_bit by blast
    ultimately show ?thesis using assms(5) by simp
  qed
qed

lemma mask_fold_all:
  assumes "w \<le> 8 * stride"
  shows "foldl (mask_step w stride px) (replicate (h * stride) 0 @ tail) [0..<h * w] = mono_and w h stride px @ tail"
proof (rule nth_equalityI)
  let ?m = "replicate (h * stride) 0 @ tail"
  show "length (foldl (mask_step w stride px) ?m [0..<h * w]) = length (mono_and w h stride px @ tail)"
    by (simp add: mono_and_def)
  fix j
  assume "j < length (foldl (mask_step w stride px) ?m [0..<h * w])"
  then have j: "j < length ?m" by (simp only: mask_fold_length)
  have range: "mask_at w stride i < length ?m" if "i < h * w" for i
    using mask_at_parts(1) [OF assms that] by simp
  show "foldl (mask_step w stride px) ?m [0..<h * w] ! j = (mono_and w h stride px @ tail) ! j"
  proof (cases "j < h * stride")
    case True
    have "foldl (mask_step w stride px) ?m [0..<h * w] ! j = mono_and_byte w stride px j"
      by (rule mask_byte [OF assms True j range]) (use True in \<open>simp_all add: nth_append\<close>)
    then show ?thesis using True by (simp add: mono_and_def nth_append)
  next
    case False
    have "foldl (mask_step w stride px) ?m [0..<h * w] ! j = ?m ! j"
    proof (rule bit_eqI)
      fix b
      show "bit (foldl (mask_step w stride px) ?m [0..<h * w] ! j) b = bit (?m ! j) b"
        by (rule mask_fold_miss [OF range j]) (use mask_at_parts(1) [OF assms] False in fastforce)+
    qed
    then show ?thesis using False by (simp add: mono_and_def nth_append)
  qed
qed

lemma unat_small_add: "unat (x :: u32) \<le> 1000 \<Longrightarrow> k \<le> 1000 \<Longrightarrow> unat (x + of_nat k) = unat x + k"
  by (subst unat_add_lem [THEN iffD1]) (simp_all add: unat_of_nat_u32)

lemma and_stride_unat:
  assumes "unat w \<le> 96"
  shows "unat (and_stride isRdesktop w) = mono_stride isRdesktop (unat w)" "mono_stride isRdesktop (unat w) \<le> 14"
    "unat w \<le> 8 * mono_stride isRdesktop (unat w)"
proof -
  have add: "unat (w + 7) = unat w + 7" "unat (w + 15) = unat w + 15"
    using unat_small_add [of w 7] unat_small_add [of w 15] assms by simp_all
  have "unat (drop_bit 4 (w + 15) * 2) = unat (drop_bit 4 (w + 15)) * 2"
  proof (subst unat_mult_lem [THEN iffD1])
    show "unat (drop_bit 4 (w + 15)) * unat (2 :: u32) < 2 ^ LENGTH(32)"
      using assms by (simp add: drop_bit_eq_div unat_div add)
  qed simp
  then show "unat (and_stride isRdesktop w) = mono_stride isRdesktop (unat w)"
    by (simp add: and_stride_def mono_stride_def drop_bit_eq_div unat_div add)
  show "mono_stride isRdesktop (unat w) \<le> 14" "unat w \<le> 8 * mono_stride isRdesktop (unat w)"
    using assms by (auto simp: mono_stride_def)
qed

lemma unat_small_mult: "unat (x :: u32) \<le> 1000 \<Longrightarrow> unat y \<le> 1000 \<Longrightarrow> unat (x * y) = unat x * unat y"
proof (subst unat_mult_lem [THEN iffD1])
  assume "unat x \<le> 1000" "unat y \<le> 1000"
  then have "unat x * unat y \<le> 1000 * 1000" by (rule mult_le_mono)
  then show "unat x * unat y < 2 ^ LENGTH(32)" by simp
qed simp

text \<open>The conversion is the reference, or it leaves one of the two buffers.\<close>

lemma mono_conversion:
  assumes "w = unat (pc_width p)" "h = unat (pc_height p)" "w \<le> 96" "h \<le> 96" "stride = mono_stride isRdesktop w"
    "px = pc_xorMaskData p" "am = pc_andMaskData p"
  shows "ogon_new_pointer_to_mono_color_pointer isRdesktop (32, p) =
    (if 4 * (h * w) \<le> length px \<and> h * stride \<le> length am
     then Some (True, 24, p\<lparr>pc_lengthXorMask := of_nat (3 * (h * w)), pc_lengthAndMask := of_nat (h * stride),
       pc_xorMaskData := mono_xor (h * w) px @ drop (3 * (h * w)) px,
       pc_andMaskData := mono_and w h stride px @ drop (h * stride) am\<rparr>)
     else None)"
proof -
  note st = and_stride_unat [of "pc_width p" isRdesktop, folded assms(1), OF assms(3), folded assms(5)]
  have lenA: "unat (pc_height p * and_stride isRdesktop (pc_width p)) = h * stride"
    using unat_small_mult [of "pc_height p" "and_stride isRdesktop (pc_width p)"] st(1,2) assms(2,4) by simp
  then have lenA': "pc_height p * and_stride isRdesktop (pc_width p) = of_nat (h * stride)"
    by (metis of_nat_unat ucast_id)
  have lenX: "pc_width p * pc_height p * 3 = of_nat (3 * (h * w))" using assms(1,2) by (simp add: mult_ac)
  have "h * stride \<le> 96 * 14" using assms(4) st(2) by (rule mult_le_mono)
  then have small: "h * stride < 2 ^ 32" by simp
  show ?thesis
  proof (cases "h * stride \<le> length am")
    case True
    let ?m = "replicate (h * stride) 0 @ drop (h * stride) am"
    have "mono_pixels (and_stride isRdesktop (pc_width p)) (map (\<lambda>i. (i div w, i mod w)) [0..<0 + h * w]) (4 * 0) (3 * 0)
        (px_after px 0, ?m) =
      (if h * w = 0 \<or> 4 * (0 + h * w) \<le> length px
       then Some (px_after px (0 + h * w), foldl (mask_step w (unat (and_stride isRdesktop (pc_width p))) px) ?m [0..<0 + h * w])
       else None)"
      by (rule mono_pixels_all) (use mask_at_parts(1) [OF st(3), of _ h] small in \<open>fastforce simp: st(1)\<close>)+
    then have loop: "mono_pixels (and_stride isRdesktop (pc_width p)) (List.product [0..<h] [0..<w]) 0 0 (px, ?m) =
      (if 4 * (h * w) \<le> length px then Some (mono_xor (h * w) px @ drop (3 * (h * w)) px,
         mono_and w h stride px @ drop (h * stride) am) else None)"
      using mask_fold_all [OF st(3)] by (auto simp: product_pixels px_after_def mono_xor_def st(1))
    have set: "memset am 0 0 (h * stride) = Some ?m" using True by (simp add: memset_def)
    show ?thesis
      using loop set True
      by (simp add: ogon_new_pointer_to_mono_color_pointer_def Let_def lenX lenA' unat_of_nat_u32 [OF small] assms(1,2,6,7) [symmetric]
          del: of_nat_mult)
  next
    case False
    then have "memset am 0 0 (h * stride) = None" by (simp add: memset_def)
    then show ?thesis
      using False by (simp add: ogon_new_pointer_to_mono_color_pointer_def Let_def lenA assms(7) [symmetric])
  qed
qed

end
