(* ===== verification/Pointer.thy ===== *)
theory Pointer
  imports Murmur Mono_Pointer
begin

text \<open>
  The mouse pointer: the part of \<open>rdp-server/backend.c\<close> that takes a pointer shape from the backend,
  remembers it, and sends it to the front connections, converted for clients that only know
  monochrome pointers and as a cache index for clients that have the shape already.
\<close>

section \<open>The code\<close>

record ogon_msg_set_pointer =
  sp_xorBpp :: u32
  sp_xPos :: u32
  sp_yPos :: u32
  sp_width :: u32
  sp_height :: u32
  sp_lengthAndMask :: u32
  sp_lengthXorMask :: u32
  sp_xorMaskData :: "u8 list option"
  sp_andMaskData :: "u8 list option"
  sp_clientId :: u32

record ogon_pointer_cache_entry =
  ce_hash :: u32
  ce_hits :: u32

text \<open>
  What the pointer code uses of a front connection: its number, whether FreeRDP has detected
  rdesktop, the cache size of the settings and the cache (None is the null pointer).
\<close>

record front_pointer =
  fp_id :: u32
  fp_rdesktop :: bool
  fp_PointerCacheSize :: u32
  fp_pointerCache :: "ogon_pointer_cache_entry list option"

datatype pointer_event =
  PointerColor pointer_color | PointerNew u32 pointer_color | PointerCached u32 | PointerSystem u32

text \<open>None is an access outside the cache or of the null pointer.\<close>

definition ogon_connection_clear_pointer_cache :: "front_pointer \<Rightarrow> front_pointer option" where
  "ogon_connection_clear_pointer_cache f =
     (let n = unat (fp_PointerCacheSize f); clear = \<lparr>ce_hash = 0xffffffff, ce_hits = 0\<rparr> in
      if n = 0 then Some f
      else case fp_pointerCache f of
             None \<Rightarrow> None
           | Some cache \<Rightarrow>
               if n \<le> length cache
               then Some (f\<lparr>fp_pointerCache := Some (map (\<lambda>_. clear) (take n cache) @ drop n cache)\<rparr>)
               else None)"

text \<open>The bytes of a \<open>UINT32\<close> in memory, on a little-endian machine.\<close>

definition word_bytes :: "u32 \<Rightarrow> u8 list" where
  "word_bytes x = [ucast x, ucast (drop_bit 8 x), ucast (drop_bit 16 x), ucast (drop_bit 24 x)]"

text \<open>The pieces that are hashed; the addresses matter only for the variant of the hash function.\<close>

definition pointer_pieces :: "(nat \<Rightarrow> nat) \<Rightarrow> pointer_color \<Rightarrow> (nat \<times> u8 list) list" where
  "pointer_pieces addr p =
     [(0, word_bytes (pc_xPos p)), (4, word_bytes (pc_yPos p)), (8, word_bytes (pc_width p)),
      (12, word_bytes (pc_height p)), (16, word_bytes (pc_lengthAndMask p)), (20, word_bytes (pc_lengthXorMask p))] @
     (if pc_lengthAndMask p \<noteq> 0 then [(addr 0, take (unat (pc_lengthAndMask p)) (pc_andMaskData p))] else []) @
     (if pc_lengthXorMask p \<noteq> 0 then [(addr 1, take (unat (pc_lengthXorMask p)) (pc_xorMaskData p))] else [])"

definition pointer_hash :: "bool \<Rightarrow> (nat \<Rightarrow> nat) \<Rightarrow> pointer_color \<Rightarrow> u32" where
  "pointer_hash unaligned addr p =
     (let (h, carry) = process_all unaligned (0, 0) (pointer_pieces addr p) in
      PMurHash32_Result h carry (24 + pc_lengthAndMask p + pc_lengthXorMask p))"

text \<open>The two loops over the cache: the first entry with the hash, and the least used one.\<close>

fun find_hash :: "ogon_pointer_cache_entry list \<Rightarrow> u32 \<Rightarrow> nat \<Rightarrow> nat \<Rightarrow> nat option option" where
  "find_hash cache hash i 0 = Some None"
| "find_hash cache hash i (Suc n) =
     (if i \<ge> length cache then None
      else if ce_hash (cache ! i) = hash then Some (Some i)
      else find_hash cache hash (Suc i) n)"

fun least_used :: "ogon_pointer_cache_entry list \<Rightarrow> nat \<Rightarrow> nat \<Rightarrow> nat \<Rightarrow> nat option" where
  "least_used cache ci i 0 = Some ci"
| "least_used cache ci i (Suc n) =
     (if i \<ge> length cache then None
      else let ci = (if ce_hits (cache ! i) < ce_hits (cache ! ci) then i else ci) in
           if ce_hits (cache ! ci) = 0 then Some ci else least_used cache ci (Suc i) n)"

definition ogon_server_set_pointer_cache_index ::
    "bool \<Rightarrow> (nat \<Rightarrow> nat) \<Rightarrow> front_pointer \<Rightarrow> pointer_color \<Rightarrow> (bool \<times> front_pointer \<times> pointer_color) option" where
  "ogon_server_set_pointer_cache_index unaligned addr f p =
     (let p = p\<lparr>pc_cacheIndex := 0\<rparr>; size = unat (fp_PointerCacheSize f) in
      case fp_pointerCache f of
        None \<Rightarrow> Some (False, f, p)
      | Some cache \<Rightarrow>
          if size = 0 then Some (False, f, p)
          else if length (pc_andMaskData p) < unat (pc_lengthAndMask p) \<or>
                  length (pc_xorMaskData p) < unat (pc_lengthXorMask p) then None
          else let hash = pointer_hash unaligned addr p in
               case find_hash cache hash 0 size of
                 None \<Rightarrow> None
               | Some (Some i) \<Rightarrow>
                   Some (True, f\<lparr>fp_pointerCache := Some (cache[i := (cache ! i)\<lparr>ce_hits := ce_hits (cache ! i) + 1\<rparr>])\<rparr>,
                         p\<lparr>pc_cacheIndex := of_nat i\<rparr>)
               | Some None \<Rightarrow>
                   (case least_used cache 0 0 size of
                      None \<Rightarrow> None
                    | Some i \<Rightarrow>
                        Some (False, f\<lparr>fp_pointerCache := Some (cache[i := \<lparr>ce_hash = hash, ce_hits = 1\<rparr>])\<rparr>,
                              p\<lparr>pc_cacheIndex := of_nat i\<rparr>)))"

text \<open>
  Sending a pointer to a client. The masks are those of the message: a conversion changes the
  message. None is an access outside a buffer.
\<close>

definition ogon_connection_set_pointer ::
    "bool \<Rightarrow> (nat \<Rightarrow> nat) \<Rightarrow> front_pointer \<Rightarrow> ogon_msg_set_pointer \<Rightarrow>
     (front_pointer \<times> ogon_msg_set_pointer \<times> pointer_event list) option" where
  "ogon_connection_set_pointer unaligned addr f msg =
     (case (sp_xorMaskData msg, sp_andMaskData msg) of
        (Some xorMask, Some andMask) \<Rightarrow>
          let p = \<lparr>pc_cacheIndex = 0, pc_xPos = sp_xPos msg, pc_yPos = sp_yPos msg, pc_width = sp_width msg,
                   pc_height = sp_height msg, pc_lengthAndMask = sp_lengthAndMask msg,
                   pc_lengthXorMask = sp_lengthXorMask msg, pc_xorMaskData = xorMask, pc_andMaskData = andMask\<rparr>
          in if fp_rdesktop f \<or> fp_PointerCacheSize f = 0
             then (case ogon_new_pointer_to_mono_color_pointer (fp_rdesktop f) (sp_xorBpp msg, p) of
                     None \<Rightarrow> None
                   | Some (_, xorBpp, p) \<Rightarrow>
                       Some (f, msg\<lparr>sp_xorMaskData := Some (pc_xorMaskData p), sp_andMaskData := Some (pc_andMaskData p)\<rparr>,
                             if xorBpp = 24 then [PointerColor p] else []))
             else (case ogon_server_set_pointer_cache_index unaligned addr f p of
                     None \<Rightarrow> None
                   | Some (found, f, p) \<Rightarrow>
                       Some (f, msg, if found then [PointerCached (pc_cacheIndex p)] else [PointerNew (sp_xorBpp msg) p]))
      | _ \<Rightarrow> None)"

text \<open>What the backend connection remembers.\<close>

record backend_pointer =
  bp_haveBackendPointer :: bool
  bp_lastSetSystemPointer :: u32
  bp_lastSetPointer :: ogon_msg_set_pointer
  bp_active :: bool

text \<open>The types of system pointers of MS-RDPBCGR 2.2.9.1.1.4.3.\<close>

definition SYSPTR_NULL :: u32 where "SYSPTR_NULL = 0"
definition SYSPTR_DEFAULT :: u32 where "SYSPTR_DEFAULT = 0x7F00"

definition pointer_valid :: "ogon_msg_set_pointer \<Rightarrow> bool" where
  "pointer_valid msg \<longleftrightarrow>
     \<not> (sp_width msg = 0 \<or> sp_width msg > 96 \<or> sp_height msg = 0 \<or> sp_height msg > 96) \<and>
     \<not> (sp_xPos msg > sp_width msg \<or> sp_yPos msg > sp_height msg) \<and>
     \<not> (sp_xorBpp msg \<noteq> 24 \<and> sp_xorBpp msg \<noteq> 32) \<and>
     \<not> (sp_lengthXorMask msg = 0 \<or> sp_lengthXorMask msg > 96 * 96 * 4) \<and>
     \<not> (sp_lengthAndMask msg = 0 \<or> sp_lengthAndMask msg > 96 * 96 div 8) \<and>
     \<not> (sp_andMaskData msg = None \<or> sp_xorMaskData msg = None)"

fun broadcast_pointer ::
    "bool \<Rightarrow> (nat \<Rightarrow> nat) \<Rightarrow> front_pointer list \<Rightarrow> ogon_msg_set_pointer \<Rightarrow>
     (front_pointer list \<times> ogon_msg_set_pointer \<times> (u32 \<times> pointer_event) list) option" where
  "broadcast_pointer unaligned addr [] msg = Some ([], msg, [])"
| "broadcast_pointer unaligned addr (f # fs) msg =
     (if sp_clientId msg = 0 \<or> fp_id f = sp_clientId msg
      then (case ogon_connection_set_pointer unaligned addr f msg of
              None \<Rightarrow> None
            | Some (f, msg, evs) \<Rightarrow>
                map_option (\<lambda>(fs, msg, evs'). (f # fs, msg, map (Pair (fp_id f)) evs @ evs'))
                  (broadcast_pointer unaligned addr fs msg))
      else map_option (\<lambda>(fs, msg, evs). (f # fs, msg, evs)) (broadcast_pointer unaligned addr fs msg))"

text \<open>\<open>realloc_xor\<close> and \<open>realloc_and\<close> tell whether the two \<open>realloc\<close> calls succeed.\<close>

definition ogon_server_set_pointer ::
    "bool \<Rightarrow> (nat \<Rightarrow> nat) \<Rightarrow> bool \<Rightarrow> bool \<Rightarrow> front_pointer list \<Rightarrow> backend_pointer \<Rightarrow> ogon_msg_set_pointer \<Rightarrow>
     (int \<times> front_pointer list \<times> backend_pointer \<times> (u32 \<times> pointer_event) list) option" where
  "ogon_server_set_pointer unaligned addr realloc_xor realloc_and fs b msg =
     (if \<not> pointer_valid msg then Some (-1, fs, b, [])
      else let last = (bp_lastSetPointer b)\<lparr>sp_width := sp_width msg, sp_height := sp_height msg, sp_xPos := sp_xPos msg,
                        sp_yPos := sp_yPos msg, sp_xorBpp := sp_xorBpp msg\<rparr>;
               b = b\<lparr>bp_haveBackendPointer := True, bp_lastSetSystemPointer := SYSPTR_DEFAULT, bp_lastSetPointer := last\<rparr>;
               lx = unat (sp_lengthXorMask msg); la = unat (sp_lengthAndMask msg);
               xorMask = the (sp_xorMaskData msg); andMask = the (sp_andMaskData msg)
           in if \<not> realloc_xor then Some (-1, fs, b, [])
              else if length xorMask < lx then None
              else let last = last\<lparr>sp_lengthXorMask := sp_lengthXorMask msg, sp_xorMaskData := Some (take lx xorMask)\<rparr>;
                       b = b\<lparr>bp_lastSetPointer := last\<rparr>
              in if \<not> realloc_and then Some (-1, fs, b, [])
              else if length andMask < la then None
              else let last = last\<lparr>sp_lengthAndMask := sp_lengthAndMask msg, sp_andMaskData := Some (take la andMask)\<rparr>;
                       b = b\<lparr>bp_lastSetPointer := last\<rparr>
              in if \<not> bp_active b then Some (0, fs, b, [])
                 else map_option (\<lambda>(fs, msg, evs). (0, fs, b, evs)) (broadcast_pointer unaligned addr fs msg))"

definition ogon_server_set_system_pointer ::
    "front_pointer list \<Rightarrow> backend_pointer \<Rightarrow> u32 \<Rightarrow> u32 \<Rightarrow> int \<times> backend_pointer \<times> (u32 \<times> pointer_event) list" where
  "ogon_server_set_system_pointer fs b ptrType clientId =
     (let b = b\<lparr>bp_lastSetSystemPointer := ptrType\<rparr>;
          b = (if ptrType = SYSPTR_NULL then b\<lparr>bp_haveBackendPointer := False\<rparr> else b)
      in if \<not> bp_active b then (0, b, [])
         else (0, b, map (\<lambda>f. (fp_id f, PointerSystem ptrType)) (filter (\<lambda>f. clientId = 0 \<or> fp_id f = clientId) fs)))"

text \<open>
  Restoring the pointer of a connection (reactivation in \<open>frontend.c\<close>): the shape that is sent is the
  one the backend connection remembers.
\<close>

definition restore_pointer ::
    "bool \<Rightarrow> (nat \<Rightarrow> nat) \<Rightarrow> front_pointer \<Rightarrow> backend_pointer \<Rightarrow> (front_pointer \<times> backend_pointer \<times> pointer_event list) option" where
  "restore_pointer unaligned addr f b =
     (case ogon_connection_clear_pointer_cache f of
        None \<Rightarrow> None
      | Some f \<Rightarrow>
          if bp_haveBackendPointer b
          then map_option (\<lambda>(f, last, evs). (f, b\<lparr>bp_lastSetPointer := last\<rparr>, PointerSystem (bp_lastSetSystemPointer b) # evs))
                 (ogon_connection_set_pointer unaligned addr f (bp_lastSetPointer b))
          else Some (f, b, [PointerSystem (bp_lastSetSystemPointer b)]))"

end
