(* ===== verification/Pointer_Cache.thy ===== *)
theory Pointer_Cache
  imports Pointer
begin

text \<open>
  The pointer cache against what a client shows, and what the conversion for monochrome clients does
  to the remembered shape.
\<close>

section \<open>The client\<close>

text \<open>A client's view: its cache of shapes, and the shape on the screen.\<close>

type_synonym image = "u32 \<times> pointer_color"

record pointer_client =
  cl_cache :: "nat \<Rightarrow> image option"
  cl_shown :: "image option"

definition image_of :: "u32 \<Rightarrow> pointer_color \<Rightarrow> image" where
  "image_of bpp p = (bpp, p\<lparr>pc_cacheIndex := 0\<rparr>)"

fun show_event :: "pointer_client \<Rightarrow> pointer_event \<Rightarrow> pointer_client" where
  "show_event c (PointerNew bpp p) =
     c\<lparr>cl_cache := (cl_cache c)(unat (pc_cacheIndex p) := Some (image_of bpp p)), cl_shown := Some (image_of bpp p)\<rparr>"
| "show_event c (PointerCached i) = c\<lparr>cl_shown := cl_cache c (unat i)\<rparr>"
| "show_event c (PointerColor p) = c\<lparr>cl_shown := Some (image_of 24 p)\<rparr>"
| "show_event c (PointerSystem t) = c\<lparr>cl_shown := None\<rparr>"

definition message_color :: "ogon_msg_set_pointer \<Rightarrow> pointer_color" where
  "message_color msg =
     \<lparr>pc_cacheIndex = 0, pc_xPos = sp_xPos msg, pc_yPos = sp_yPos msg, pc_width = sp_width msg,
      pc_height = sp_height msg, pc_lengthAndMask = sp_lengthAndMask msg, pc_lengthXorMask = sp_lengthXorMask msg,
      pc_xorMaskData = the (sp_xorMaskData msg), pc_andMaskData = the (sp_andMaskData msg)\<rparr>"

definition message_image :: "ogon_msg_set_pointer \<Rightarrow> image" where
  "message_image msg = (sp_xorBpp msg, message_color msg)"

definition message_hash :: "ogon_msg_set_pointer \<Rightarrow> u32" where
  "message_hash msg = pointer_hash True (\<lambda>_. 0) (message_color msg)"

text \<open>A shape whose masks are as long as it says.\<close>

definition complete :: "ogon_msg_set_pointer \<Rightarrow> bool" where
  "complete msg \<longleftrightarrow> sp_xorMaskData msg \<noteq> None \<and> sp_andMaskData msg \<noteq> None \<and>
     unat (sp_lengthXorMask msg) \<le> length (the (sp_xorMaskData msg)) \<and>
     unat (sp_lengthAndMask msg) \<le> length (the (sp_andMaskData msg))"

fun pointer_run ::
    "bool \<Rightarrow> (nat \<Rightarrow> nat) \<Rightarrow> front_pointer \<Rightarrow> pointer_client \<Rightarrow> ogon_msg_set_pointer list \<Rightarrow>
     (front_pointer \<times> pointer_client) option" where
  "pointer_run unaligned addr f c [] = Some (f, c)"
| "pointer_run unaligned addr f c (msg # msgs) =
     (case ogon_connection_set_pointer unaligned addr f msg of
        None \<Rightarrow> None
      | Some (f, _, evs) \<Rightarrow> pointer_run unaligned addr f (foldl show_event c evs) msgs)"

definition cache_inv :: "ogon_msg_set_pointer set \<Rightarrow> u32 \<Rightarrow> front_pointer \<Rightarrow> pointer_client \<Rightarrow> bool" where
  "cache_inv S e f c \<longleftrightarrow> \<not> fp_rdesktop f \<and> fp_PointerCacheSize f \<noteq> 0 \<and>
     (\<exists>cache. fp_pointerCache f = Some cache \<and> unat (fp_PointerCacheSize f) \<le> length cache \<and>
        (\<forall>i < unat (fp_PointerCacheSize f). ce_hash (cache ! i) = e \<or>
           (\<exists>m\<in>S. ce_hash (cache ! i) = message_hash m \<and> cl_cache c i = Some (message_image m))))"

definition demo_shape :: "u8 list \<Rightarrow> u8 list \<Rightarrow> ogon_msg_set_pointer" where
  "demo_shape px am =
     \<lparr>sp_xorBpp = 32, sp_xPos = 0, sp_yPos = 0, sp_width = 2, sp_height = 1, sp_lengthAndMask = of_nat (length am),
      sp_lengthXorMask = of_nat (length px), sp_xorMaskData = Some px, sp_andMaskData = Some am, sp_clientId = 0\<rparr>"

definition demo_front :: front_pointer where
  "demo_front = \<lparr>fp_id = 1, fp_rdesktop = False, fp_PointerCacheSize = 1, fp_pointerCache = Some [\<lparr>ce_hash = 0, ce_hits = 0\<rparr>]\<rparr>"

section \<open>The cache\<close>

lemma pieces_bytes:
  "concat (map snd (pointer_pieces addr p)) = concat (map snd (pointer_pieces (\<lambda>_. 0) p))"
  by (simp add: pointer_pieces_def)

lemma pieces_length:
  assumes "unat (pc_lengthAndMask p) \<le> length (pc_andMaskData p)" "unat (pc_lengthXorMask p) \<le> length (pc_xorMaskData p)"
  shows "of_nat (length (concat (map snd (pointer_pieces addr p)))) = 24 + pc_lengthAndMask p + pc_lengthXorMask p"
  using assms by (simp add: pointer_pieces_def word_bytes_def min_absorb2 algebra_simps)

text \<open>The hash does not depend on the variant or on where the masks lie.\<close>

lemma pointer_hash_murmur:
  assumes "unat (pc_lengthAndMask p) \<le> length (pc_andMaskData p)" "unat (pc_lengthXorMask p) \<le> length (pc_xorMaskData p)"
  shows "pointer_hash unaligned addr p = murmur3 0 (concat (map snd (pointer_pieces (\<lambda>_. 0) p)))"
  using process_all_murmur [of unaligned 0 "pointer_pieces addr p"] pieces_length [OF assms, of addr]
    pieces_bytes [of addr p]
  by (simp add: pointer_hash_def)

lemma pointer_hash_index: "pointer_hash unaligned addr (p\<lparr>pc_cacheIndex := i\<rparr>) = pointer_hash unaligned addr p"
  by (simp add: pointer_hash_def pointer_pieces_def)

lemma find_hash_result:
  assumes "i + n \<le> length cache"
  shows "\<exists>r. find_hash cache hash i n = Some r \<and>
    (case r of None \<Rightarrow> \<forall>k. i \<le> k \<and> k < i + n \<longrightarrow> ce_hash (cache ! k) \<noteq> hash
             | Some k \<Rightarrow> i \<le> k \<and> k < i + n \<and> ce_hash (cache ! k) = hash)"
  using assms
proof (induction n arbitrary: i)
  case (Suc n)
  show ?case
  proof (cases "ce_hash (cache ! i) = hash")
    case False
    obtain r where r: "find_hash cache hash (Suc i) n = Some r"
      "case r of None \<Rightarrow> \<forall>k. Suc i \<le> k \<and> k < Suc i + n \<longrightarrow> ce_hash (cache ! k) \<noteq> hash
             | Some k \<Rightarrow> Suc i \<le> k \<and> k < Suc i + n \<and> ce_hash (cache ! k) = hash"
      using Suc.IH [of "Suc i"] Suc.prems by auto
    have "k = i \<or> Suc i \<le> k" if "i \<le> k" for k using that by auto
    then show ?thesis using r False Suc.prems by (cases r) auto
  qed (use Suc.prems in auto)
qed auto

lemma least_used_result:
  "i + n \<le> length cache \<Longrightarrow> ci < length cache \<Longrightarrow> \<exists>k. least_used cache ci i n = Some k \<and> k < max (Suc ci) (i + n)"
proof (induction n arbitrary: ci i)
  case (Suc n)
  define cj where "cj = (if ce_hits (cache ! i) < ce_hits (cache ! ci) then i else ci)"
  have "cj < length cache" "cj < max (Suc ci) (i + Suc n)" using Suc.prems by (auto simp: cj_def)
  moreover obtain k where "least_used cache cj (Suc i) n = Some k" "k < max (Suc cj) (Suc i + n)"
    using Suc.IH [of "Suc i" cj] Suc.prems calculation(1) by auto
  ultimately show ?case using Suc.prems by (auto simp: cj_def [symmetric] Let_def)
qed simp

lemma message_hash_any:
  assumes "complete m"
  shows "pointer_hash unaligned addr ((message_color m)\<lparr>pc_cacheIndex := i\<rparr>) = message_hash m"
  using assms unfolding pointer_hash_index message_hash_def
  by (subst (1 2) pointer_hash_murmur) (simp_all add: complete_def message_color_def)

lemma message_color_index [simp]: "(message_color m)\<lparr>pc_cacheIndex := 0\<rparr> = message_color m"
  by (simp add: message_color_def)

lemma cache_index_result:
  assumes "complete m" "fp_pointerCache f = Some cache" "fp_PointerCacheSize f \<noteq> 0" "unat (fp_PointerCacheSize f) \<le> length cache"
  shows "\<exists>i < unat (fp_PointerCacheSize f). \<exists>h.
    (ogon_server_set_pointer_cache_index unaligned addr f (message_color m) =
       Some (True, f\<lparr>fp_pointerCache := Some (cache[i := (cache ! i)\<lparr>ce_hits := h\<rparr>])\<rparr>, (message_color m)\<lparr>pc_cacheIndex := of_nat i\<rparr>) \<and>
     ce_hash (cache ! i) = message_hash m) \<or>
    ogon_server_set_pointer_cache_index unaligned addr f (message_color m) =
       Some (False, f\<lparr>fp_pointerCache := Some (cache[i := \<lparr>ce_hash = message_hash m, ce_hits = 1\<rparr>])\<rparr>,
         (message_color m)\<lparr>pc_cacheIndex := of_nat i\<rparr>)"
proof -
  let ?n = "unat (fp_PointerCacheSize f)"
  have n: "0 < ?n" using assms(3) by (simp add: unat_gt_0)
  have len: "\<not> (length (pc_andMaskData (message_color m)) < unat (pc_lengthAndMask (message_color m)) \<or>
      length (pc_xorMaskData (message_color m)) < unat (pc_lengthXorMask (message_color m)))"
    using assms(1) by (simp add: complete_def message_color_def)
  have hash: "pointer_hash unaligned addr (message_color m) = message_hash m"
    using message_hash_any [OF assms(1), of unaligned addr 0] by simp
  obtain r where r: "find_hash cache (message_hash m) 0 ?n = Some r"
    "case r of None \<Rightarrow> True | Some k \<Rightarrow> k < ?n \<and> ce_hash (cache ! k) = message_hash m"
    using find_hash_result [of 0 ?n cache "message_hash m"] assms(4) by (auto split: option.splits)
  obtain k where k: "least_used cache 0 0 ?n = Some k" "k < ?n"
    using least_used_result [of 0 ?n cache 0] assms(4) n by (cases cache) auto
  have eq: "ogon_server_set_pointer_cache_index unaligned addr f (message_color m) =
      (case r of
         Some i \<Rightarrow> Some (True, f\<lparr>fp_pointerCache := Some (cache[i := (cache ! i)\<lparr>ce_hits := ce_hits (cache ! i) + 1\<rparr>])\<rparr>,
             (message_color m)\<lparr>pc_cacheIndex := of_nat i\<rparr>)
       | None \<Rightarrow> Some (False, f\<lparr>fp_pointerCache := Some (cache[k := \<lparr>ce_hash = message_hash m, ce_hits = 1\<rparr>])\<rparr>,
             (message_color m)\<lparr>pc_cacheIndex := of_nat k\<rparr>))"
    using n len r(1) k(1)
    unfolding ogon_server_set_pointer_cache_index_def Let_def message_color_index assms(2) hash
    by (simp split: option.split)
  show ?thesis
  proof (cases r)
    case None
    then show ?thesis using eq k(2) by auto
  next
    case (Some i)
    then show ?thesis using eq r(2) by (intro exI [of _ i]) auto
  qed
qed

lemma unat_index: "i < unat (x :: u32) \<Longrightarrow> unat (of_nat i :: u32) = i"
  using unsigned_less [of x, where 'a = nat] by (intro unat_of_nat_u32) simp

lemma set_pointer_cached:
  assumes inv: "cache_inv S e f c" and m: "m \<in> S" "complete m" "message_hash m \<noteq> e"
    and inj: "\<And>m'. m' \<in> S \<Longrightarrow> message_hash m' = message_hash m \<Longrightarrow> message_image m' = message_image m"
  shows "\<exists>f' evs. ogon_connection_set_pointer unaligned addr f m = Some (f', m, evs) \<and>
    cache_inv S e f' (foldl show_event c evs) \<and> cl_shown (foldl show_event c evs) = Some (message_image m)"
proof -
  obtain cache where f: "\<not> fp_rdesktop f" "fp_PointerCacheSize f \<noteq> 0" "fp_pointerCache f = Some cache"
    "unat (fp_PointerCacheSize f) \<le> length cache"
    and slots: "\<And>i. i < unat (fp_PointerCacheSize f) \<Longrightarrow> ce_hash (cache ! i) = e \<or>
           (\<exists>m\<in>S. ce_hash (cache ! i) = message_hash m \<and> cl_cache c i = Some (message_image m))"
    using inv unfolding cache_inv_def by blast
  obtain xm am where data: "sp_xorMaskData m = Some xm" "sp_andMaskData m = Some am"
    using m(2) by (auto simp: complete_def)
  have eq: "ogon_connection_set_pointer unaligned addr f m =
      (case ogon_server_set_pointer_cache_index unaligned addr f (message_color m) of
         None \<Rightarrow> None
       | Some (found, f, p) \<Rightarrow>
           Some (f, m, if found then [PointerCached (pc_cacheIndex p)] else [PointerNew (sp_xorBpp m) p]))"
    using f(1,2) by (simp add: ogon_connection_set_pointer_def data message_color_def Let_def)
  obtain i h where i: "i < unat (fp_PointerCacheSize f)" and r:
    "(ogon_server_set_pointer_cache_index unaligned addr f (message_color m) =
       Some (True, f\<lparr>fp_pointerCache := Some (cache[i := (cache ! i)\<lparr>ce_hits := h\<rparr>])\<rparr>, (message_color m)\<lparr>pc_cacheIndex := of_nat i\<rparr>) \<and>
     ce_hash (cache ! i) = message_hash m) \<or>
    ogon_server_set_pointer_cache_index unaligned addr f (message_color m) =
       Some (False, f\<lparr>fp_pointerCache := Some (cache[i := \<lparr>ce_hash = message_hash m, ce_hits = 1\<rparr>])\<rparr>,
         (message_color m)\<lparr>pc_cacheIndex := of_nat i\<rparr>)"
    using cache_index_result [OF m(2) f(3,2,4), of unaligned addr] by blast
  note idx = unat_index [OF i]
  from r show ?thesis
  proof
    assume hit: "ogon_server_set_pointer_cache_index unaligned addr f (message_color m) =
       Some (True, f\<lparr>fp_pointerCache := Some (cache[i := (cache ! i)\<lparr>ce_hits := h\<rparr>])\<rparr>, (message_color m)\<lparr>pc_cacheIndex := of_nat i\<rparr>) \<and>
     ce_hash (cache ! i) = message_hash m"
    then obtain m' where "m' \<in> S" "ce_hash (cache ! i) = message_hash m'" "cl_cache c i = Some (message_image m')"
      using slots [OF i] m(3) by auto
    then have "cl_cache c i = Some (message_image m)" using hit inj by simp
    moreover have "cache_inv S e (f\<lparr>fp_pointerCache := Some (cache[i := (cache ! i)\<lparr>ce_hits := h\<rparr>])\<rparr>)
        (c\<lparr>cl_shown := cl_cache c i\<rparr>)"
      using f slots i by (auto simp: cache_inv_def nth_list_update)
    ultimately show ?thesis using hit idx by (simp add: eq)
  next
    assume miss: "ogon_server_set_pointer_cache_index unaligned addr f (message_color m) =
       Some (False, f\<lparr>fp_pointerCache := Some (cache[i := \<lparr>ce_hash = message_hash m, ce_hits = 1\<rparr>])\<rparr>,
         (message_color m)\<lparr>pc_cacheIndex := of_nat i\<rparr>)"
    have img: "image_of (sp_xorBpp m) ((message_color m)\<lparr>pc_cacheIndex := of_nat i\<rparr>) = message_image m"
      by (simp add: image_of_def message_image_def)
    have "cache_inv S e (f\<lparr>fp_pointerCache := Some (cache[i := \<lparr>ce_hash = message_hash m, ce_hits = 1\<rparr>])\<rparr>)
        (c\<lparr>cl_cache := (cl_cache c)(i := Some (message_image m)), cl_shown := Some (message_image m)\<rparr>)"
      using f slots i m(1) by (auto simp: cache_inv_def nth_list_update)
    then show ?thesis using miss idx img by (simp add: eq)
  qed
qed

lemma pointer_run_cached:
  assumes "\<And>m. m \<in> S \<Longrightarrow> complete m \<and> message_hash m \<noteq> e"
    and "\<And>m m'. m \<in> S \<Longrightarrow> m' \<in> S \<Longrightarrow> message_hash m' = message_hash m \<Longrightarrow> message_image m' = message_image m"
  shows "cache_inv S e f c \<Longrightarrow> set ms \<subseteq> S \<Longrightarrow>
    \<exists>f' c'. pointer_run unaligned addr f c ms = Some (f', c') \<and> cache_inv S e f' c' \<and>
      cl_shown c' = (if ms = [] then cl_shown c else Some (message_image (last ms)))"
proof (induction ms arbitrary: f c)
  case (Cons m ms)
  have m: "m \<in> S" "complete m" "message_hash m \<noteq> e" using Cons.prems(2) assms(1) by auto
  obtain f1 evs where 1: "ogon_connection_set_pointer unaligned addr f m = Some (f1, m, evs)"
    "cache_inv S e f1 (foldl show_event c evs)" "cl_shown (foldl show_event c evs) = Some (message_image m)"
    using set_pointer_cached [OF Cons.prems(1) m, of unaligned addr] assms(2) [OF m(1)] by blast
  show ?case using Cons.IH [OF 1(2)] Cons.prems(2) 1(1,3) by auto
qed simp

text \<open>
  C38. A client that knows the new pointer update, with a pointer cache of any size that starts empty,
  shows the shape that was set last after any sequence of shapes, whether it was sent or only named by
  its cache index. The shapes must have masks as long as they say, different shapes different hashes,
  and none the hash that marks an empty slot.
\<close>

theorem pointer_cache_faithful:
  assumes "\<not> fp_rdesktop f" "fp_PointerCacheSize f \<noteq> 0"
    "fp_pointerCache f = Some (replicate (unat (fp_PointerCacheSize f)) \<lparr>ce_hash = e, ce_hits = 0\<rparr>)"
    and "\<And>m. m \<in> set ms \<Longrightarrow> complete m \<and> message_hash m \<noteq> e"
    and "\<And>m m'. m \<in> set ms \<Longrightarrow> m' \<in> set ms \<Longrightarrow> message_hash m' = message_hash m \<Longrightarrow> message_image m' = message_image m"
  shows "\<exists>f' c'. pointer_run unaligned addr f c ms = Some (f', c') \<and>
    cl_shown c' = (if ms = [] then cl_shown c else Some (message_image (last ms)))"
proof -
  have "cache_inv (set ms) e f c" using assms(1-3) by (auto simp: cache_inv_def)
  then show ?thesis using pointer_run_cached [where S = "set ms" and e = e and ms = ms and f = f and c = c] assms(4,5) by blast
qed

theorem pointer_cache_faithful_witness:
  "\<exists>f' c'. pointer_run True (\<lambda>_. 0) demo_front \<lparr>cl_cache = (\<lambda>_. None), cl_shown = None\<rparr>
      [demo_shape [1] [2], demo_shape [1] [2], demo_shape [3] [2], demo_shape [1] [2]] = Some (f', c') \<and>
    cl_shown c' = Some (message_image (demo_shape [1] [2]))"
proof -
  have h: "message_hash (demo_shape [1] [2]) \<noteq> 0" "message_hash (demo_shape [3] [2]) \<noteq> 0"
    "message_hash (demo_shape [1] [2]) \<noteq> message_hash (demo_shape [3] [2])"
    "complete (demo_shape [1] [2])" "complete (demo_shape [3] [2])"
    by code_simp+
  let ?ms = "[demo_shape [1] [2], demo_shape [1] [2], demo_shape [3] [2], demo_shape [1] [2]]"
  have "\<exists>f' c'. pointer_run True (\<lambda>_. 0) demo_front \<lparr>cl_cache = (\<lambda>_. None), cl_shown = None\<rparr> ?ms = Some (f', c') \<and>
    cl_shown c' = (if ?ms = [] then cl_shown \<lparr>cl_cache = (\<lambda>_. None), cl_shown = None\<rparr> else Some (message_image (last ?ms)))"
  proof (rule pointer_cache_faithful [where e = 0])
    fix m m'
    assume "m \<in> set ?ms"
    then have m: "m = demo_shape [1] [2] \<or> m = demo_shape [3] [2]" by auto
    then show "complete m \<and> message_hash m \<noteq> 0" using h by blast
    assume "m' \<in> set ?ms" "message_hash m' = message_hash m"
    moreover from this have "m' = demo_shape [1] [2] \<or> m' = demo_shape [3] [2]" by auto
    ultimately have "m' = m" using m h(3) by fastforce
    then show "message_image m' = message_image m" by simp
  qed (simp_all add: demo_front_def)
  moreover have "?ms \<noteq> []" "last ?ms = demo_shape [1] [2]" by simp_all
  ultimately show ?thesis by (simp only: if_False)
qed

text \<open>
  C39. The conversion to a monochrome pointer, which overwrites the shape while it reads it, is the
  pixel-wise reference on the shape as it was, for both strides of the mask. It stays inside the two
  buffers exactly if they have four bytes for every pixel and the mask the stride asks for, which the
  checks of \<open>ogon_server_set_pointer\<close> do not ensure.
\<close>

theorem mono_pointer_equivalence:
  assumes "w = unat (pc_width p)" "h = unat (pc_height p)" "w \<le> 96" "h \<le> 96" "stride = mono_stride isRdesktop w"
    "px = pc_xorMaskData p" "am = pc_andMaskData p"
  shows "ogon_new_pointer_to_mono_color_pointer isRdesktop (32, p) =
    (if 4 * (h * w) \<le> length px \<and> h * stride \<le> length am
     then Some (True, 24, p\<lparr>pc_lengthXorMask := of_nat (3 * (h * w)), pc_lengthAndMask := of_nat (h * stride),
       pc_xorMaskData := mono_xor (h * w) px @ drop (3 * (h * w)) px,
       pc_andMaskData := mono_and w h stride px @ drop (h * stride) am\<rparr>)
     else None)"
  by (rule mono_conversion [OF assms])

theorem mono_pointer_equivalence_witness:
  "ogon_new_pointer_to_mono_color_pointer False (32, message_color (demo_shape [255, 255, 255, 255, 9, 9, 9, 0] [1, 2])) =
     Some (True, 24, (message_color (demo_shape [255, 255, 255, 255, 9, 9, 9, 0] [1, 2]))
       \<lparr>pc_lengthXorMask := 6, pc_lengthAndMask := 2, pc_xorMaskData := [255, 255, 255, 0, 0, 0, 9, 0], pc_andMaskData := [64, 0]\<rparr>) \<and>
   pointer_valid (demo_shape [255, 255, 255, 255, 9, 9, 9, 0] [1]) \<and>
   ogon_new_pointer_to_mono_color_pointer False (32, message_color (demo_shape [255, 255, 255, 255, 9, 9, 9, 0] [1])) = None"
proof -
  let ?p = "\<lambda>am. message_color (demo_shape [255, 255, 255, 255, 9, 9, 9, 0] am)"
  have "ogon_new_pointer_to_mono_color_pointer False (32, ?p [1, 2]) =
     Some (True, 24, (?p [1, 2])\<lparr>pc_lengthXorMask := of_nat (3 * (1 * 2)), pc_lengthAndMask := of_nat (1 * 2),
       pc_xorMaskData := mono_xor (1 * 2) [255, 255, 255, 255, 9, 9, 9, 0] @ drop (3 * (1 * 2)) [255, 255, 255, 255, 9, 9, 9, 0],
       pc_andMaskData := mono_and 2 1 2 [255, 255, 255, 255, 9, 9, 9, 0] @ drop (1 * 2) [1, 2]\<rparr>)"
    by (subst mono_pointer_equivalence [where w = 2 and h = 1 and stride = 2 and p = "?p [1, 2]", OF _ _ _ _ _ refl refl])
      (simp_all add: message_color_def demo_shape_def mono_stride_def)
  moreover have "mono_xor (1 * 2) [255, 255, 255, 255, 9, 9, 9, 0] = [255, 255, 255, 0, 0, 0]"
    "mono_and 2 1 2 [255, 255, 255, 255, 9, 9, 9, 0] = [64, 0]" by code_simp+
  moreover have "ogon_new_pointer_to_mono_color_pointer False (32, ?p [1]) = None"
    by (subst mono_pointer_equivalence [where w = 2 and h = 1 and stride = 2 and p = "?p [1]", OF _ _ _ _ _ refl refl])
      (simp_all add: message_color_def demo_shape_def mono_stride_def)
  moreover have "pointer_valid (demo_shape [255, 255, 255, 255, 9, 9, 9, 0] [1])" by code_simp
  ultimately show ?thesis by simp
qed

text \<open>
  The conversion changes the remembered shape, which keeps its depth of 32 bits: the next time it is
  restored, data with three bytes a pixel is read as four bytes a pixel.
\<close>

lemma remembered_shape_converted:
  assumes "restore_pointer unaligned addr f b = Some (f', b', evs)" "bp_haveBackendPointer b"
    "fp_rdesktop f \<or> fp_PointerCacheSize f = 0" "m = bp_lastSetPointer b" "sp_xorBpp m = 32" "sp_xorMaskData m = Some px"
    "w = unat (sp_width m)" "h = unat (sp_height m)" "w \<le> 96" "h \<le> 96"
  shows "sp_xorBpp (bp_lastSetPointer b') = 32"
    "sp_xorMaskData (bp_lastSetPointer b') = Some (mono_xor (h * w) px @ drop (3 * (h * w)) px)"
proof -
  obtain f1 where f1: "ogon_connection_clear_pointer_cache f = Some f1" "fp_rdesktop f1 = fp_rdesktop f"
    "fp_PointerCacheSize f1 = fp_PointerCacheSize f"
    using assms(1) by (cases "ogon_connection_clear_pointer_cache f")
      (auto simp: restore_pointer_def ogon_connection_clear_pointer_cache_def Let_def split: if_splits option.splits)
  obtain am where am: "sp_andMaskData m = Some am"
    using assms(1,2,4,6) f1(1) by (cases "sp_andMaskData m") (simp_all add: restore_pointer_def ogon_connection_set_pointer_def)
  have color: "pc_width (message_color m) = sp_width m" "pc_height (message_color m) = sp_height m"
    "pc_xorMaskData (message_color m) = px" "pc_andMaskData (message_color m) = am"
    using am assms(6) by (simp_all add: message_color_def)
  note eq = mono_conversion [of w "message_color m" h "mono_stride (fp_rdesktop f) w" "fp_rdesktop f" px am,
      unfolded color, OF assms(7-10) refl refl refl]
  have "(case ogon_new_pointer_to_mono_color_pointer (fp_rdesktop f) (32, message_color m) of
          None \<Rightarrow> None
        | Some (_, xorBpp, p) \<Rightarrow>
            Some (f1, b\<lparr>bp_lastSetPointer := m\<lparr>sp_xorMaskData := Some (pc_xorMaskData p), sp_andMaskData := Some (pc_andMaskData p)\<rparr>\<rparr>,
                  PointerSystem (bp_lastSetSystemPointer b) # (if xorBpp = 24 then [PointerColor p] else []))) = Some (f', b', evs)"
    using assms(1-6) f1 am
    by (simp add: restore_pointer_def ogon_connection_set_pointer_def message_color_def split: option.splits) (auto split: prod.splits)
  then show "sp_xorBpp (bp_lastSetPointer b') = 32"
    "sp_xorMaskData (bp_lastSetPointer b') = Some (mono_xor (h * w) px @ drop (3 * (h * w)) px)"
    using assms(5) unfolding eq by (auto split: if_splits)
qed

end
