(* ===== verification/Dmgbuf.thy ===== *)
theory Dmgbuf
  imports Wire_Stream
begin

text \<open>
  The damage buffer (\<open>backend/dmgbuf.c\<close>): a shared memory segment with a header, a list of damaged
  rectangles and the frame buffer, which a backend fills and the server reads. A segment is the list
  of its bytes, in the byte order of a little-endian machine; None is an access outside of it. The
  results of the shared memory calls are arguments.
\<close>

section \<open>The code\<close>

definition OGON_DMGBUF_ALIGN :: "nat \<Rightarrow> nat \<Rightarrow> nat" where
  "OGON_DMGBUF_ALIGN n m = n + m - n mod m"

definition OGON_DMGBUF_DATA_ALIGNMENT :: nat where "OGON_DMGBUF_DATA_ALIGNMENT = 256"
definition OGON_DMGBUF_MAGIC :: u32 where "OGON_DMGBUF_MAGIC = 0xCACAB0B2"
definition OGON_DMGBUF_MAX_RECTS :: nat where "OGON_DMGBUF_MAX_RECTS = 100"

definition OGON_DMGBUF_POS_MAGIC :: nat where "OGON_DMGBUF_POS_MAGIC = 0"
definition OGON_DMGBUF_POS_SHMID :: nat where "OGON_DMGBUF_POS_SHMID = 4 + OGON_DMGBUF_POS_MAGIC"
definition OGON_DMGBUF_POS_WIDTH :: nat where "OGON_DMGBUF_POS_WIDTH = 4 + OGON_DMGBUF_POS_SHMID"
definition OGON_DMGBUF_POS_HEIGHT :: nat where "OGON_DMGBUF_POS_HEIGHT = 4 + OGON_DMGBUF_POS_WIDTH"
definition OGON_DMGBUF_POS_SCANLINE :: nat where "OGON_DMGBUF_POS_SCANLINE = 4 + OGON_DMGBUF_POS_HEIGHT"
definition OGON_DMGBUF_POS_MAX_RECTS :: nat where "OGON_DMGBUF_POS_MAX_RECTS = 4 + OGON_DMGBUF_POS_SCANLINE"
definition OGON_DMGBUF_POS_NUM_RECTS :: nat where "OGON_DMGBUF_POS_NUM_RECTS = 4 + OGON_DMGBUF_POS_MAX_RECTS"
definition OGON_DMGBUF_POS_RECTS :: nat where "OGON_DMGBUF_POS_RECTS = 4 + OGON_DMGBUF_POS_NUM_RECTS"

text \<open>An \<open>RDP_RECT\<close> is four 16 bit integers.\<close>

definition OGON_DMGBUF_POS_PADDING :: nat where
  "OGON_DMGBUF_POS_PADDING = OGON_DMGBUF_POS_RECTS + OGON_DMGBUF_MAX_RECTS * 8"

definition OGON_DMGBUF_POS_DATA :: nat where
  "OGON_DMGBUF_POS_DATA = OGON_DMGBUF_ALIGN OGON_DMGBUF_POS_PADDING OGON_DMGBUF_DATA_ALIGNMENT"

definition OGON_DMGBUF_MEM_SIZE :: "int \<Rightarrow> int \<Rightarrow> int" where
  "OGON_DMGBUF_MEM_SIZE h s = int OGON_DMGBUF_POS_DATA + h * s"

text \<open>Reading and writing a 32 bit word of a segment.\<close>

definition peek :: "u8 list \<Rightarrow> nat \<Rightarrow> u32 option" where
  "peek m pos = (if pos + 4 \<le> length m then Some (le_read 4 (drop pos m)) else None)"

definition poke :: "nat \<Rightarrow> u32 \<Rightarrow> u8 list \<Rightarrow> u8 list option" where
  "poke pos v m =
     (if pos + 4 \<le> length m then Some (take pos m @ le_write 4 v @ drop (pos + 4) m) else None)"

text \<open>A handle is the null pointer or an attached segment.\<close>

type_synonym dmgbuf = "u8 list option"

definition OGON_DMGBUF_GOOD :: "dmgbuf \<Rightarrow> bool option" where
  "OGON_DMGBUF_GOOD handle =
     (case handle of
        None \<Rightarrow> Some False
      | Some m \<Rightarrow> map_option (\<lambda>magic. magic = OGON_DMGBUF_MAGIC) (peek m OGON_DMGBUF_POS_MAGIC))"

definition if_good :: "dmgbuf \<Rightarrow> 'a \<Rightarrow> (u8 list \<Rightarrow> 'a option) \<Rightarrow> 'a option" where
  "if_good handle bad f =
     Option.bind (OGON_DMGBUF_GOOD handle) (\<lambda>good. if good then f (the handle) else Some bad)"

text \<open>
  \<open>stat\<close> is the owner that \<open>IPC_STAT\<close> reports for a segment, None if it fails; \<open>set_ok\<close> is whether
  \<open>IPC_SET\<close> succeeds. The second result is the owner that is set.
\<close>

definition ogon_dmgbuf_set_user :: "(u32 \<Rightarrow> u32 option) \<Rightarrow> bool \<Rightarrow> dmgbuf \<Rightarrow> u32 \<Rightarrow> (int \<times> u32 option) option" where
  "ogon_dmgbuf_set_user stat set_ok handle user_id =
     if_good handle (-1, None)
       (\<lambda>m. Option.bind (peek m OGON_DMGBUF_POS_SHMID)
          (\<lambda>id. Some (case stat id of
                   None \<Rightarrow> (-1, None)
                 | Some uid \<Rightarrow>
                     if uid \<noteq> user_id then (if set_ok then (0, Some user_id) else (-1, None)) else (0, None))))"

text \<open>The frame buffer is what follows the header.\<close>

definition ogon_dmgbuf_get_data :: "dmgbuf \<Rightarrow> u8 list option option" where
  "ogon_dmgbuf_get_data handle = if_good handle None (\<lambda>m. Some (Some (drop OGON_DMGBUF_POS_DATA m)))"

definition ogon_dmgbuf_get_id :: "dmgbuf \<Rightarrow> u32 option" where
  "ogon_dmgbuf_get_id handle = if_good handle (-1) (\<lambda>m. peek m OGON_DMGBUF_POS_SHMID)"

text \<open>The product of two \<open>int\<close>s is None if it overflows.\<close>

definition int_ok :: "int \<Rightarrow> bool" where
  "int_ok v \<longleftrightarrow> - (2 ^ 31) \<le> v \<and> v < 2 ^ 31"

definition ogon_dmgbuf_get_fbsize :: "dmgbuf \<Rightarrow> u32 option" where
  "ogon_dmgbuf_get_fbsize handle =
     if_good handle 0
       (\<lambda>m. Option.bind (peek m OGON_DMGBUF_POS_SCANLINE)
          (\<lambda>scanline. Option.bind (peek m OGON_DMGBUF_POS_HEIGHT)
             (\<lambda>height. let n = sint scanline * sint height in
                if int_ok n then Some (word_of_int n) else None)))"

text \<open>The number of rectangles, and the segment from the first one on.\<close>

definition ogon_dmgbuf_get_rects :: "dmgbuf \<Rightarrow> (u32 \<times> u8 list) option option" where
  "ogon_dmgbuf_get_rects handle =
     if_good handle None
       (\<lambda>m. map_option (\<lambda>n. Some (n, drop OGON_DMGBUF_POS_RECTS m)) (peek m OGON_DMGBUF_POS_NUM_RECTS))"

definition ogon_dmgbuf_get_max_rects :: "dmgbuf \<Rightarrow> u32 option" where
  "ogon_dmgbuf_get_max_rects handle = if_good handle (-1) (\<lambda>m. peek m OGON_DMGBUF_POS_MAX_RECTS)"

definition ogon_dmgbuf_set_num_rects :: "dmgbuf \<Rightarrow> u32 \<Rightarrow> (int \<times> dmgbuf) option" where
  "ogon_dmgbuf_set_num_rects handle num_rects =
     if_good handle (-1, handle)
       (\<lambda>m. Option.bind (peek m OGON_DMGBUF_POS_MAX_RECTS)
          (\<lambda>max_rects. if num_rects > max_rects then Some (-1, handle)
             else map_option (\<lambda>m. (0, Some m)) (poke OGON_DMGBUF_POS_NUM_RECTS num_rects m)))"

text \<open>
  \<open>segment_id\<close> is what \<open>shmget\<close> returns, \<open>at\<close> the address \<open>shmat\<close> maps the segment to, \<open>rmid\<close> whether
  it could be marked for deletion. The result is the handle and whether the process stays attached to
  the segment. None is an overflow of an \<open>int\<close>.
\<close>

fun poke_all :: "(nat \<times> u32) list \<Rightarrow> u8 list \<Rightarrow> u8 list option" where
  "poke_all [] m = Some m"
| "poke_all ((pos, v) # ps) m = Option.bind (poke pos v m) (poke_all ps)"

definition ogon_dmgbuf_new ::
    "int \<Rightarrow> nat option \<Rightarrow> bool \<Rightarrow> int \<Rightarrow> int \<Rightarrow> int \<Rightarrow> (dmgbuf \<times> bool) option" where
  "ogon_dmgbuf_new segment_id at rmid width height scanline =
     (if \<not> int_ok (height * scanline) then None
      else let shm_size = sint (word_of_int (OGON_DMGBUF_MEM_SIZE height scanline) :: u32) in
      if width < 1 \<or> height < 1 then Some (None, False)
      else if \<not> int_ok (width * 4) then None
      else if scanline < width * 4 then Some (None, False)
      else if segment_id = -1 then Some (None, False)
      else case at of
        None \<Rightarrow> Some (None, False)
      | Some addr \<Rightarrow>
          if \<not> rmid then Some (None, True)
          else case poke_all
              [(OGON_DMGBUF_POS_MAGIC, OGON_DMGBUF_MAGIC), (OGON_DMGBUF_POS_SHMID, word_of_int segment_id),
               (OGON_DMGBUF_POS_WIDTH, word_of_int width), (OGON_DMGBUF_POS_HEIGHT, word_of_int height),
               (OGON_DMGBUF_POS_SCANLINE, word_of_int scanline),
               (OGON_DMGBUF_POS_MAX_RECTS, of_nat OGON_DMGBUF_MAX_RECTS)]
              (replicate (nat shm_size) 0) of
            None \<Rightarrow> None
          | Some m \<Rightarrow>
              if (addr + OGON_DMGBUF_POS_DATA) mod OGON_DMGBUF_DATA_ALIGNMENT \<noteq> 0 then Some (None, True)
              else Some (Some m, True))"

text \<open>Whether the segment is detached.\<close>

definition ogon_dmgbuf_free :: "dmgbuf \<Rightarrow> bool option" where
  "ogon_dmgbuf_free handle = OGON_DMGBUF_GOOD handle"

text \<open>\<open>at\<close> is the segment that \<open>shmat\<close> maps. The result is the handle and whether the process stays attached.\<close>

definition ogon_dmgbuf_connect :: "u8 list option \<Rightarrow> (dmgbuf \<times> bool) option" where
  "ogon_dmgbuf_connect at =
     (case at of
        None \<Rightarrow> Some (None, False)
      | Some m \<Rightarrow> map_option (\<lambda>good. if good then (Some m, True) else (None, False)) (OGON_DMGBUF_GOOD (Some m)))"

section \<open>Well-formed buffers\<close>

text \<open>A buffer for a screen: its header describes it, and it is as long as the header says.\<close>

definition dmgbuf_ok :: "u8 list \<Rightarrow> u32 \<Rightarrow> nat \<Rightarrow> nat \<Rightarrow> nat \<Rightarrow> bool" where
  "dmgbuf_ok m shmid w h s \<longleftrightarrow>
     peek m OGON_DMGBUF_POS_MAGIC = Some OGON_DMGBUF_MAGIC \<and> peek m OGON_DMGBUF_POS_SHMID = Some shmid \<and>
     peek m OGON_DMGBUF_POS_WIDTH = Some (of_nat w) \<and> peek m OGON_DMGBUF_POS_HEIGHT = Some (of_nat h) \<and>
     peek m OGON_DMGBUF_POS_SCANLINE = Some (of_nat s) \<and> peek m OGON_DMGBUF_POS_MAX_RECTS = Some 100 \<and>
     length m = 1024 + h * s"

lemmas dmgbuf_layout =
  OGON_DMGBUF_POS_MAGIC_def OGON_DMGBUF_POS_SHMID_def OGON_DMGBUF_POS_WIDTH_def OGON_DMGBUF_POS_HEIGHT_def
  OGON_DMGBUF_POS_SCANLINE_def OGON_DMGBUF_POS_MAX_RECTS_def OGON_DMGBUF_POS_NUM_RECTS_def OGON_DMGBUF_POS_RECTS_def

lemma POS_DATA: "OGON_DMGBUF_POS_DATA = 1024"
  by (simp add: OGON_DMGBUF_POS_DATA_def OGON_DMGBUF_POS_PADDING_def OGON_DMGBUF_ALIGN_def OGON_DMGBUF_DATA_ALIGNMENT_def
      OGON_DMGBUF_MAX_RECTS_def dmgbuf_layout)

lemma le_read_take: "n \<le> k \<Longrightarrow> le_read n (take k bs @ cs) = le_read n bs" if "k \<le> length bs" for cs
  using that by (induction n bs arbitrary: k rule: le_read.induct) (auto simp: take_Cons split: nat.splits)

lemma poke_length: "poke pos v m = Some m' \<Longrightarrow> length m' = length m"
  by (auto simp: poke_def split: if_splits)

lemma peek_poke: "poke pos v m = Some m' \<Longrightarrow> peek m' pos = Some v"
  using take_bit_word_full [of 32 v]
  by (auto simp: poke_def peek_def le_read_write split: if_splits)

lemma drop_take_append:
  assumes "i + k \<le> j" "j \<le> length xs"
  shows "drop i (take j xs @ ys) = take k (drop i xs) @ drop (i + k) (take j xs) @ ys"
proof -
  have "drop i (take j xs) = take k (drop i (take j xs)) @ drop k (drop i (take j xs))"
    by (simp only: append_take_drop_id)
  moreover have "take k (drop i (take j xs)) = take k (drop i xs)" using assms(1) by (simp add: drop_take min_def)
  ultimately show ?thesis using assms by (simp add: add.commute)
qed

lemma peek_poke_other:
  assumes "poke pos v m = Some m'" "pos' + 4 \<le> pos \<or> pos + 4 \<le> pos'"
  shows "peek m' pos' = peek m pos'"
proof (cases "pos' + 4 \<le> length m")
  case True
  have m': "m' = take pos m @ le_write 4 v @ drop (pos + 4) m" and len: "pos + 4 \<le> length m"
    using assms(1) by (auto simp: poke_def split: if_splits)
  have "(le_read 4 (drop pos' m') :: u32) = le_read 4 (drop pos' m)"
  proof (cases "pos + 4 \<le> pos'")
    case True
    then have "drop pos' m' = drop pos' m" using len by (simp add: m')
    then show ?thesis by simp
  next
    case False
    then have le: "pos' + 4 \<le> pos" using assms(2) by simp
    then have "drop pos' m' = take 4 (drop pos' m) @ drop (pos' + 4) (take pos m) @ le_write 4 v @ drop (pos + 4) m"
      unfolding m' by (rule drop_take_append) (use len in simp)
    then show ?thesis using le_read_take [of 4 "drop pos' m" 4, where 'a = 32] True by simp
  qed
  then show ?thesis using True poke_length [OF assms(1)] by (simp add: peek_def)
qed (use poke_length [OF assms(1)] in \<open>simp add: peek_def\<close>)

text \<open>Writing words at increasing positions.\<close>

lemma poke_all_length:
  "poke_all ps m = Some m' \<Longrightarrow> length m' = length m \<and> (\<forall>p \<in> set ps. fst p + 4 \<le> length m)"
proof (induction ps m rule: poke_all.induct)
  case (2 pos v ps m)
  then obtain m1 where "poke pos v m = Some m1" "poke_all ps m1 = Some m'" by (auto simp: bind_eq_Some_conv)
  then show ?case using 2(1) poke_length [of pos v m m1] by (auto simp: poke_def split: if_splits)
qed simp

lemma poke_all_other:
  "poke_all ps m = Some m' \<Longrightarrow> \<forall>p \<in> set ps. pos + 4 \<le> fst p \<or> fst p + 4 \<le> pos \<Longrightarrow> peek m' pos = peek m pos"
proof (induction ps m rule: poke_all.induct)
  case (2 p v ps m)
  then obtain m1 where "poke p v m = Some m1" "poke_all ps m1 = Some m'" by (auto simp: bind_eq_Some_conv)
  then show ?case using 2 peek_poke_other [of p v m m1 pos] by auto
qed simp

lemma poke_all_peek:
  "poke_all ps m = Some m' \<Longrightarrow> sorted_wrt (\<lambda>p q. fst p + 4 \<le> fst q) ps \<Longrightarrow> (pos, v) \<in> set ps \<Longrightarrow> peek m' pos = Some v"
proof (induction ps m rule: poke_all.induct)
  case (2 p w ps m)
  then obtain m1 where m1: "poke p w m = Some m1" "poke_all ps m1 = Some m'" by (auto simp: bind_eq_Some_conv)
  show ?case
  proof (cases "(pos, v) = (p, w)")
    case True
    then show ?thesis using poke_all_other [OF m1(2), of p] peek_poke [OF m1(1)] 2(3) by auto
  next
    case False
    then show ?thesis using 2(1) [OF m1] 2(3,4) by auto
  qed
qed simp

lemma peek_zero: "pos + 4 \<le> n \<Longrightarrow> peek (replicate n 0) pos = Some 0"
proof -
  assume "pos + 4 \<le> n"
  then have "drop pos (replicate n (0 :: u8)) = [0, 0, 0, 0] @ replicate (n - pos - 4) 0"
    by (simp add: numeral_eq_Suc flip: replicate_Suc)
  then show ?thesis using \<open>pos + 4 \<le> n\<close> by (simp add: peek_def numeral_eq_Suc)
qed

lemma dmgbuf_size:
  assumes "int_ok k" "0 \<le> k" "0 \<le> sint (word_of_int (int OGON_DMGBUF_POS_DATA + k) :: u32)"
  shows "nat (sint (word_of_int (int OGON_DMGBUF_POS_DATA + k) :: u32)) = 1024 + nat k"
proof -
  have sint: "sint (word_of_int j :: u32) = (j + 2 ^ 31) mod 2 ^ 32 - 2 ^ 31" for j
    by (simp only: signed_of_int signed_take_bit_eq_take_bit_shift take_bit_eq_mod) simp
  have "(1024 + k + 2 ^ 31) mod 2 ^ 32 = (if 1024 + k < 2 ^ 31 then 1024 + k + 2 ^ 31 else 1024 + k - 2 ^ 31)"
  proof (cases "1024 + k < 2 ^ 31")
    case False
    have "(1024 + k + 2 ^ 31) mod 2 ^ 32 = (1024 + k - 2 ^ 31 + 2 ^ 32) mod 2 ^ 32" by simp
    also have "\<dots> = 1024 + k - 2 ^ 31"
      unfolding mod_add_self2 using assms(1) False by (intro mod_pos_pos_trivial) (simp_all add: int_ok_def)
    finally show ?thesis using False by simp
  qed (use assms(2) in \<open>simp add: mod_pos_pos_trivial\<close>)
  then show ?thesis using assms unfolding sint POS_DATA by (simp add: int_ok_def split: if_splits)
qed

text \<open>A new buffer is well-formed and empty; it is made unless a call fails or the sizes make no sense.\<close>

lemma dmgbuf_new_ok:
  assumes "ogon_dmgbuf_new segment_id at rmid width height scanline = Some (Some m, attached)"
  shows "dmgbuf_ok m (word_of_int segment_id) (nat width) (nat height) (nat scanline)"
    "peek m OGON_DMGBUF_POS_NUM_RECTS = Some 0"
proof -
  let ?n = "nat (sint (word_of_int (OGON_DMGBUF_MEM_SIZE height scanline) :: u32))"
  let ?ps = "[(OGON_DMGBUF_POS_MAGIC, OGON_DMGBUF_MAGIC), (OGON_DMGBUF_POS_SHMID, word_of_int segment_id),
     (OGON_DMGBUF_POS_WIDTH, word_of_int width), (OGON_DMGBUF_POS_HEIGHT, word_of_int height),
     (OGON_DMGBUF_POS_SCANLINE, word_of_int scanline), (OGON_DMGBUF_POS_MAX_RECTS, of_nat OGON_DMGBUF_MAX_RECTS)] :: (nat \<times> u32) list"
  have pos: "int_ok (height * scanline)" "1 \<le> width" "1 \<le> height" "width * 4 \<le> scanline"
    and m: "poke_all ?ps (replicate ?n 0) = Some m"
    using assms by (auto simp: ogon_dmgbuf_new_def Let_def split: if_splits option.splits)
  have len: "length m = ?n" "24 \<le> ?n" using poke_all_length [OF m] by (simp_all add: dmgbuf_layout)
  have n: "?n = 1024 + nat height * nat scanline"
    using dmgbuf_size [OF pos(1)] pos len(2) by (simp add: OGON_DMGBUF_MEM_SIZE_def nat_mult_distrib)
  have sorted: "sorted_wrt (\<lambda>p q. fst p + 4 \<le> fst q) ?ps" by (simp add: dmgbuf_layout)
  show "dmgbuf_ok m (word_of_int segment_id) (nat width) (nat height) (nat scanline)"
    using poke_all_peek [OF m sorted] pos n len(1) by (simp add: dmgbuf_ok_def OGON_DMGBUF_MAX_RECTS_def)
  show "peek m OGON_DMGBUF_POS_NUM_RECTS = Some 0"
    using poke_all_other [OF m, of OGON_DMGBUF_POS_NUM_RECTS] peek_zero [of OGON_DMGBUF_POS_NUM_RECTS ?n] n
    by (simp add: dmgbuf_layout)
qed

lemma set_num_rects_ok:
  assumes "dmgbuf_ok m shmid w h s"
  shows "\<exists>m'. ogon_dmgbuf_set_num_rects (Some m) n = Some (if n \<le> 100 then 0 else -1, Some m') \<and> dmgbuf_ok m' shmid w h s \<and>
    peek m' OGON_DMGBUF_POS_NUM_RECTS = (if n \<le> 100 then Some n else peek m OGON_DMGBUF_POS_NUM_RECTS) \<and>
    drop OGON_DMGBUF_POS_RECTS m' = drop OGON_DMGBUF_POS_RECTS m"
proof -
  have long: "OGON_DMGBUF_POS_NUM_RECTS + 4 \<le> length m" using assms by (simp add: dmgbuf_ok_def dmgbuf_layout)
  then obtain m' where m': "poke OGON_DMGBUF_POS_NUM_RECTS n m = Some m'" by (auto simp: poke_def)
  have eq: "ogon_dmgbuf_set_num_rects (Some m) n = (if n \<le> 100 then Some (0, Some m') else Some (-1, Some m))"
    using assms m'
    by (simp add: dmgbuf_ok_def ogon_dmgbuf_set_num_rects_def if_good_def OGON_DMGBUF_GOOD_def not_less [symmetric])
  have "drop OGON_DMGBUF_POS_RECTS m' = drop OGON_DMGBUF_POS_RECTS m"
    using m' long by (auto simp: poke_def dmgbuf_layout split: if_splits)
  moreover have "dmgbuf_ok m' shmid w h s"
    using assms peek_poke_other [OF m'] poke_length [OF m'] by (simp add: dmgbuf_ok_def dmgbuf_layout)
  ultimately show ?thesis using eq peek_poke [OF m'] assms by (intro exI [of _ "if n \<le> 100 then m' else m"]) auto
qed

lemma dmgbuf_getters:
  assumes "dmgbuf_ok m shmid w h s"
  shows "ogon_dmgbuf_get_id (Some m) = Some shmid" "ogon_dmgbuf_get_data (Some m) = Some (Some (drop 1024 m))"
    "ogon_dmgbuf_get_max_rects (Some m) = Some 100" "ogon_dmgbuf_connect (Some m) = Some (Some m, True)"
    "ogon_dmgbuf_free (Some m) = Some True"
    "ogon_dmgbuf_get_rects (Some m) = Some (Some (the (peek m OGON_DMGBUF_POS_NUM_RECTS), drop OGON_DMGBUF_POS_RECTS m))"
  using assms
  by (simp_all add: dmgbuf_ok_def ogon_dmgbuf_get_id_def ogon_dmgbuf_get_data_def ogon_dmgbuf_get_max_rects_def
      ogon_dmgbuf_connect_def ogon_dmgbuf_free_def ogon_dmgbuf_get_rects_def if_good_def OGON_DMGBUF_GOOD_def POS_DATA)
   (simp add: peek_def dmgbuf_layout)

end
