(* ===== verification/Encoder.thy ===== *)
theory Encoder
  imports Region16 Dmgbuf
begin

text \<open>
  The bitmap encoder of a front connection (\<open>rdp-server/encoder.c\<close>): its creation and release, and the
  client view, the server's copy of what the client shows. The allocations are arguments; what an
  encoder holds is a list of resources.
\<close>

section \<open>The code\<close>

record 'r ogon_bitmap_encoder =
  desktopWidth :: u32
  desktopHeight :: u32
  bitsPerPixel :: u32
  bytesPerPixel :: u32
  scanLine :: u32
  dstBitsPerPixel :: u32
  dstBytesPerPixel :: u32
  multifragMaxRequestSize :: u32
  clientView :: "u8 list"
  accumulatedDamage :: 'r
  rdpRects :: "RDP_RECT list"
  rdpRectsAllocated :: u32
  bmpStreamSize :: u32
  h264_context :: bool

datatype encoder_resource =
    EncoderStruct | ClientView | EncoderStream | BmpContext | BmpPlanar | BmpImageCopyBuffer | BmpStream | BmpTempStream
  | RfxContext | DebugContext | DebugBuffer | H264Context

definition OGON_ENCODER_MIN_MULTIFRAG_REQUEST_SIZE :: u32 where
  "OGON_ENCODER_MIN_MULTIFRAG_REQUEST_SIZE = 1024"

text \<open>What is released is what was allocated; releasing a null pointer does nothing.\<close>

definition ogon_delete_encoder_bmp_context :: "encoder_resource list \<Rightarrow> encoder_resource list" where
  "ogon_delete_encoder_bmp_context res =
     filter (\<lambda>r. r \<notin> {BmpPlanar, BmpStream, BmpTempStream, BmpImageCopyBuffer, BmpContext}) res"

text \<open>The size of the stream for the bitmaps; \<open>alloc\<close> tells which allocations succeed.\<close>

definition ogon_create_encoder_bmp_context ::
    "(encoder_resource \<Rightarrow> bool) \<Rightarrow> u32 \<Rightarrow> u32 \<Rightarrow> u32 \<Rightarrow> encoder_resource list \<Rightarrow> u32 option \<times> encoder_resource list" where
  "ogon_create_encoder_bmp_context alloc width height bpp res =
     (if \<not> alloc BmpContext then (None, res)
      else let res = BmpContext # res in
      if \<not> alloc BmpPlanar then (None, ogon_delete_encoder_bmp_context res)
      else let res = BmpPlanar # res in
      if \<not> alloc BmpImageCopyBuffer then (None, ogon_delete_encoder_bmp_context res)
      else let res = BmpImageCopyBuffer # res;
               bufferSize = width * height * bpp;
               bufferSize = bufferSize + bufferSize div 10 in
      if \<not> alloc BmpStream then (None, ogon_delete_encoder_bmp_context res)
      else let res = BmpStream # res in
      if \<not> alloc BmpTempStream then (None, ogon_delete_encoder_bmp_context res)
      else (Some bufferSize, BmpTempStream # res))"

text \<open>
  Blanking sets a rectangle of the client view, or all of it, to ones. The rectangle is clipped in
  place, so it is a result too. None is an access outside the view.
\<close>

fun blank_rows :: "nat \<Rightarrow> nat \<Rightarrow> nat \<Rightarrow> nat \<Rightarrow> u8 list \<Rightarrow> u8 list option" where
  "blank_rows 0 dst n line view = Some view"
| "blank_rows (Suc k) dst n line view = Option.bind (memset view dst 1 n) (blank_rows k (dst + line) n line)"

definition ogon_encoder_blank_client_view_area ::
    "'r ogon_bitmap_encoder \<Rightarrow> RECTANGLE_16 option \<Rightarrow> ('r ogon_bitmap_encoder \<times> RECTANGLE_16 option) option" where
  "ogon_encoder_blank_client_view_area encoder r =
     (case r of
        None \<Rightarrow>
          map_option (\<lambda>view. (encoder\<lparr>clientView := view\<rparr>, None))
            (memset (clientView encoder) 0 1 (unat (desktopHeight encoder * scanLine encoder)))
      | Some r \<Rightarrow>
          if ucast (rect_top r) \<ge> desktopHeight encoder then Some (encoder, Some r)
          else if ucast (rect_left r) \<ge> desktopWidth encoder then Some (encoder, Some r)
          else let r = (if ucast (rect_bottom r) \<ge> desktopHeight encoder then r\<lparr>rect_bottom := ucast (desktopHeight encoder)\<rparr> else r);
                   r = (if ucast (rect_right r) \<ge> desktopWidth encoder then r\<lparr>rect_right := ucast (desktopWidth encoder)\<rparr> else r)
               in if rect_top r \<ge> rect_bottom r then Some (encoder, Some r)
                  else if rect_left r \<ge> rect_right r then Some (encoder, Some r)
                  else map_option (\<lambda>view. (encoder\<lparr>clientView := view\<rparr>, Some r))
                    (blank_rows (unat (rect_bottom r) - unat (rect_top r))
                      (unat (ucast (rect_top r) * scanLine encoder + ucast (rect_left r) * bytesPerPixel encoder))
                      (unat ((ucast (rect_right r) - ucast (rect_left r)) * bytesPerPixel encoder)) (unat (scanLine encoder))
                      (clientView encoder)))"

text \<open>The streams and contexts of an encoder, and the labels that release them again.\<close>

definition encoder_contexts ::
    "(encoder_resource \<Rightarrow> bool) \<Rightarrow> 'r ogon_bitmap_encoder \<Rightarrow> 'r ogon_bitmap_encoder option \<times> encoder_resource list" where
  "encoder_contexts alloc encoder =
     (let base = [ClientView, EncoderStruct]; stream_fail = filter (\<lambda>r. r \<notin> {ClientView, EncoderStruct});
          bmp_context_fail = (\<lambda>res. stream_fail (removeAll EncoderStream res));
          rfx_context_fail = (\<lambda>res. bmp_context_fail (ogon_delete_encoder_bmp_context res));
          debug_context_fail = (\<lambda>res. rfx_context_fail (removeAll RfxContext res));
          debug_buffer_fail = (\<lambda>res. debug_context_fail (removeAll DebugContext res))
      in if \<not> alloc EncoderStream then (None, stream_fail base)
         else case ogon_create_encoder_bmp_context alloc (desktopWidth encoder) (desktopHeight encoder)
                     (dstBytesPerPixel encoder) (EncoderStream # base) of
           (None, res) \<Rightarrow> (None, bmp_context_fail res)
         | (Some bs, res) \<Rightarrow>
             if \<not> alloc RfxContext then (None, rfx_context_fail res)
             else if \<not> alloc DebugContext then (None, debug_context_fail (RfxContext # res))
             else if \<not> alloc DebugBuffer then (None, debug_buffer_fail (DebugContext # RfxContext # res))
             else let encoder = encoder\<lparr>bmpStreamSize := bs, h264_context := alloc H264Context\<rparr>;
                      res = DebugBuffer # DebugContext # RfxContext # res
                  in (Some encoder, if alloc H264Context then H264Context # res else res))"

text \<open>The colour depths of a client for which there is a pixel format.\<close>

definition dst_format_known :: "int \<Rightarrow> bool" where
  "dst_format_known dstBpp \<longleftrightarrow> dstBpp \<in> {32, 24, 16, 15}"

text \<open>
  The result is the encoder and the resources that stay allocated; the outer None is an overflow of an
  \<open>int\<close>. \<open>R\<close> are the region operations. Memory that is not set yet is zero here.
\<close>

definition ogon_bitmap_encoder_new ::
    "(encoder_resource \<Rightarrow> bool) \<Rightarrow> 'r region16 \<Rightarrow> int \<Rightarrow> int \<Rightarrow> int \<Rightarrow> int \<Rightarrow> int \<Rightarrow> int \<Rightarrow> u32 \<Rightarrow>
     ('r ogon_bitmap_encoder option \<times> encoder_resource list) option" where
  "ogon_bitmap_encoder_new alloc R width height bpp bytes scan dstBpp maxRequestSize =
     (if width < 1 \<or> height < 1 then Some (None, [])
      else if \<not> int_ok (width * bytes) then None
      else if scan < width * bytes then Some (None, [])
      else if scan mod 16 \<noteq> 0 then Some (None, [])
      else if maxRequestSize < OGON_ENCODER_MIN_MULTIFRAG_REQUEST_SIZE then Some (None, [])
      else if \<not> alloc EncoderStruct then Some (None, [])
      else if \<not> dst_format_known dstBpp then Some (None, [])
      else if \<not> int_ok (height * scan) then None
      else if \<not> alloc ClientView then Some (None, [])
      else let encoder = \<lparr>desktopWidth = word_of_int width, desktopHeight = word_of_int height,
                 bitsPerPixel = word_of_int bpp, bytesPerPixel = word_of_int bytes, scanLine = word_of_int scan,
                 dstBitsPerPixel = word_of_int dstBpp, dstBytesPerPixel = word_of_int ((dstBpp + 7) div 8),
                 multifragMaxRequestSize = maxRequestSize, clientView = replicate (nat (height * scan)) 0,
                 accumulatedDamage = reg_clear R, rdpRects = [], rdpRectsAllocated = 0, bmpStreamSize = 0,
                 h264_context = False\<rparr>
      in case ogon_encoder_blank_client_view_area encoder None of
           None \<Rightarrow> None
         | Some (encoder, _) \<Rightarrow> Some (encoder_contexts alloc encoder))"

definition ogon_bitmap_encoder_free :: "encoder_resource list \<Rightarrow> encoder_resource list" where
  "ogon_bitmap_encoder_free res =
     (let res = removeAll ClientView res;
          res = removeAll EncoderStream res;
          res = ogon_delete_encoder_bmp_context res;
          res = removeAll RfxContext res;
          res = removeAll DebugBuffer res;
          res = removeAll DebugContext res;
          res = removeAll H264Context res
      in removeAll EncoderStruct res)"

definition ogon_bitmap_encoder_update_maxrequest_size ::
    "'r ogon_bitmap_encoder option \<Rightarrow> u32 \<Rightarrow> bool \<times> 'r ogon_bitmap_encoder option" where
  "ogon_bitmap_encoder_update_maxrequest_size encoder maxRequestSize =
     (case encoder of
        None \<Rightarrow> (False, None)
      | Some e \<Rightarrow> if maxRequestSize < OGON_ENCODER_MIN_MULTIFRAG_REQUEST_SIZE then (False, encoder)
                 else (True, Some (e\<lparr>multifragMaxRequestSize := maxRequestSize\<rparr>)))"

section \<open>The client view\<close>

text \<open>The pixel a byte of a frame buffer belongs to, with four bytes a pixel; the bytes of some rows.\<close>

definition pixel_of :: "nat \<Rightarrow> nat \<Rightarrow> nat \<times> nat" where
  "pixel_of line k = (k mod line div 4, k div line)"

definition in_rows :: "nat \<Rightarrow> nat \<Rightarrow> nat \<Rightarrow> nat \<Rightarrow> nat \<Rightarrow> bool" where
  "in_rows n start m line k \<longleftrightarrow> (\<exists>i < n. start + i * line \<le> k \<and> k < start + i * line + m)"

definition encoder_ok :: "'r ogon_bitmap_encoder \<Rightarrow> bool" where
  "encoder_ok e \<longleftrightarrow> 1 \<le> unat (desktopWidth e) \<and> 1 \<le> unat (desktopHeight e) \<and> bytesPerPixel e = 4 \<and>
     unat (desktopWidth e) * 4 \<le> unat (scanLine e) \<and> unat (desktopHeight e) * unat (scanLine e) < 2 ^ 31 \<and>
     length (clientView e) = unat (desktopHeight e) * unat (scanLine e)"

definition desktop :: "'r ogon_bitmap_encoder \<Rightarrow> (nat \<times> nat) set" where
  "desktop e = {(x, y). x < unat (desktopWidth e) \<and> y < unat (desktopHeight e)}"

lemma in_rows_points:
  assumes "r * 4 \<le> line" "l \<le> r"
  shows "in_rows (b - t) (t * line + l * 4) ((r - l) * 4) line k \<longleftrightarrow>
    pixel_of line k \<in> {(x, y). l \<le> x \<and> x < r \<and> t \<le> y \<and> y < b}"
proof
  assume "in_rows (b - t) (t * line + l * 4) ((r - l) * 4) line k"
  then obtain i where i: "i < b - t" "t * line + l * 4 + i * line \<le> k" "k < t * line + l * 4 + i * line + (r - l) * 4"
    by (auto simp: in_rows_def)
  define c where "c = k - (t + i) * line"
  have c: "k = (t + i) * line + c" "l * 4 \<le> c" "c < r * 4" using i assms(2) by (auto simp: c_def algebra_simps)
  then have "k div line = t + i" "k mod line = c" using assms(1) by auto
  then show "pixel_of line k \<in> {(x, y). l \<le> x \<and> x < r \<and> t \<le> y \<and> y < b}"
    using c i(1) by (auto simp: pixel_of_def)
next
  assume "pixel_of line k \<in> {(x, y). l \<le> x \<and> x < r \<and> t \<le> y \<and> y < b}"
  then have p: "l \<le> k mod line div 4" "k mod line div 4 < r" "t \<le> k div line" "k div line < b" by (auto simp: pixel_of_def)
  have k: "k = t * line + (k div line - t) * line + k mod line"
    using p(3) by (simp add: add_mult_distrib [symmetric])
  have "l * 4 \<le> k mod line" "k mod line < r * 4" using p(1,2) by auto
  then have "t * line + l * 4 + (k div line - t) * line \<le> k" "k < t * line + l * 4 + (k div line - t) * line + (r - l) * 4"
    using k assms(2) by (simp_all add: diff_mult_distrib)
  then show "in_rows (b - t) (t * line + l * 4) ((r - l) * 4) line k"
    using p(3,4) unfolding in_rows_def by (intro exI [of _ "k div line - t"]) auto
qed

lemma memset_result:
  assumes "at + n \<le> length buf"
  shows "\<exists>buf'. memset buf at v n = Some buf' \<and> length buf' = length buf \<and>
    (\<forall>k < length buf. buf' ! k = (if at \<le> k \<and> k < at + n then v else buf ! k))"
  using assms by (auto simp: memset_def nth_append min_absorb2)

lemma in_rows_Suc: "in_rows (Suc n) start m line k \<longleftrightarrow> start \<le> k \<and> k < start + m \<or> in_rows n (start + line) m line k"
  unfolding in_rows_def
proof safe
  fix i
  assume i: "i < Suc n" "start + i * line \<le> k" "k < start + i * line + m"
    and no: "\<not> (\<exists>j < n. start + line + j * line \<le> k \<and> k < start + line + j * line + m)"
  show "start \<le> k" using i by simp
  show "k < start + m" using i no by (cases i) (auto simp: algebra_simps)
next
  assume "start \<le> k" "k < start + m"
  then show "\<exists>i < Suc n. start + i * line \<le> k \<and> k < start + i * line + m" by (intro exI [of _ 0]) simp
next
  fix i
  assume "i < n" "start + line + i * line \<le> k" "k < start + line + i * line + m"
  then show "\<exists>i < Suc n. start + i * line \<le> k \<and> k < start + i * line + m" by (intro exI [of _ "Suc i"]) (simp add: algebra_simps)
qed

lemma blank_rows_result:
  "(\<And>i. i < n \<Longrightarrow> start + i * line + m \<le> length view) \<Longrightarrow> \<exists>view'. blank_rows n start m line view = Some view' \<and>
     length view' = length view \<and> (\<forall>k < length view. view' ! k = (if in_rows n start m line k then 1 else view ! k))"
proof (induction n arbitrary: start view)
  case (Suc n)
  obtain v1 where v1: "memset view start 1 m = Some v1" "length v1 = length view"
    "\<forall>k < length view. v1 ! k = (if start \<le> k \<and> k < start + m then 1 else view ! k)"
    using memset_result [of start m view 1] Suc.prems [of 0] by auto
  have "start + line + i * line + m \<le> length v1" if "i < n" for i using Suc.prems [of "Suc i"] that v1(2) by (simp add: algebra_simps)
  from Suc.IH [OF this] show ?case using v1 by (auto simp: in_rows_Suc)
qed (simp add: in_rows_def)

text \<open>Offsets in the frame buffer do not wrap.\<close>

lemma offset_u32:
  fixes x y :: u16
  assumes "unat y * unat line + unat x * 4 < 2 ^ 32"
  shows "unat (ucast y * line + ucast x * 4 :: u32) = unat y * unat line + unat x * 4"
proof -
  have "(ucast y * line + ucast x * 4 :: u32) = of_nat (unat y * unat line + unat x * 4)"
    by (simp add: of_nat_unat)
  then show ?thesis using unat_of_nat_u32 [OF assms] by simp
qed

lemma width_u32:
  fixes l r :: u16
  assumes "l \<le> r" "unat r * 4 < 2 ^ 32"
  shows "unat ((ucast r - ucast l) * 4 :: u32) = (unat r - unat l) * 4"
proof -
  have "(ucast r - ucast l) * 4 = (of_nat ((unat r - unat l) * 4) :: u32)"
    using assms(1) by (simp add: of_nat_unat of_nat_diff word_le_nat_alt)
  then show ?thesis using unat_of_nat_u32 [of "(unat r - unat l) * 4"] assms(2) by simp
qed

text \<open>A rectangle inside the desktop lies inside the buffer.\<close>

lemma encoder_row_end:
  assumes "encoder_ok e" "r \<le> unat (desktopWidth e)" "l \<le> r" "t + i < b" "b \<le> unat (desktopHeight e)"
  shows "t * unat (scanLine e) + l * 4 + i * unat (scanLine e) + (r - l) * 4 \<le> length (clientView e)"
proof -
  let ?line = "unat (scanLine e)"
  have "t * ?line + l * 4 + i * ?line + (r - l) * 4 = (t + i) * ?line + r * 4" using assms(3) by (simp add: algebra_simps)
  also have "\<dots> \<le> (t + i) * ?line + ?line" using assms(1,2) by (auto simp: encoder_ok_def)
  also have "\<dots> = Suc (t + i) * ?line" by simp
  also have "\<dots> \<le> unat (desktopHeight e) * ?line" using assms(4,5) by (intro mult_le_mono1) simp
  finally show ?thesis using assms(1) by (simp add: encoder_ok_def)
qed

lemma clip_u16:
  fixes a :: u16 and b :: u32
  shows "unat (if ucast a \<ge> b then ucast b else a) = min (unat a) (unat b)"
proof (cases "ucast a \<ge> b")
  case True
  then have "unat b \<le> unat a" by (simp add: word_le_nat_alt)
  moreover have "unat a < 2 ^ 16" using unsigned_less [of a, where 'a = nat] by simp
  ultimately have "unat (ucast b :: u16) = unat b" by (simp add: unsigned_ucast_eq take_bit_nat_eq_self)
  then show ?thesis using True \<open>unat b \<le> unat a\<close> by simp
qed (simp add: word_le_nat_alt)

lemma blank_area_result:
  assumes "encoder_ok e"
  shows "\<exists>view r'. ogon_encoder_blank_client_view_area e (Some r) = Some (e\<lparr>clientView := view\<rparr>, Some r') \<and>
    length view = length (clientView e) \<and>
    (\<forall>k < length view. view ! k =
       (if pixel_of (unat (scanLine e)) k \<in> rect_points r \<inter> desktop e then 1 else clientView e ! k))"
proof (cases "ucast (rect_top r) \<ge> desktopHeight e \<or> ucast (rect_left r) \<ge> desktopWidth e")
  case True
  then have "rect_points r \<inter> desktop e = {}" by (auto simp: rect_points_def desktop_def word_le_nat_alt)
  moreover have "ogon_encoder_blank_client_view_area e (Some r) = Some (e\<lparr>clientView := clientView e\<rparr>, Some r)"
    using True by (auto simp: ogon_encoder_blank_client_view_area_def)
  ultimately show ?thesis by (intro exI [of _ "clientView e"] exI [of _ r]) auto
next
  case False
  define r1 where "r1 = (if ucast (rect_bottom r) \<ge> desktopHeight e then r\<lparr>rect_bottom := ucast (desktopHeight e)\<rparr> else r)"
  define r2 where "r2 = (if ucast (rect_right r1) \<ge> desktopWidth e then r1\<lparr>rect_right := ucast (desktopWidth e)\<rparr> else r1)"
  have r2: "rect_left r2 = rect_left r" "rect_top r2 = rect_top r" "unat (rect_right r2) = min (unat (rect_right r)) (unat (desktopWidth e))"
    "unat (rect_bottom r2) = min (unat (rect_bottom r)) (unat (desktopHeight e))"
    using clip_u16 [of "desktopWidth e" "rect_right r"] clip_u16 [of "desktopHeight e" "rect_bottom r"]
    by (auto simp: r1_def r2_def split: if_splits)
  then have points: "rect_points r2 = rect_points r \<inter> desktop e" by (auto simp: rect_points_def desktop_def)
  have eq: "ogon_encoder_blank_client_view_area e (Some r) =
      (if rect_top r2 \<ge> rect_bottom r2 \<or> rect_left r2 \<ge> rect_right r2 then Some (e, Some r2)
       else map_option (\<lambda>view. (e\<lparr>clientView := view\<rparr>, Some r2))
         (blank_rows (unat (rect_bottom r2) - unat (rect_top r2)) (unat (ucast (rect_top r2) * scanLine e + ucast (rect_left r2) * 4))
           (unat ((ucast (rect_right r2) - ucast (rect_left r2)) * 4 :: u32)) (unat (scanLine e)) (clientView e)))"
    using False assms
    unfolding ogon_encoder_blank_client_view_area_def Let_def option.case r1_def [symmetric] r2_def [symmetric]
    by (simp add: encoder_ok_def)
  show ?thesis
  proof (cases "rect_top r2 \<ge> rect_bottom r2 \<or> rect_left r2 \<ge> rect_right r2")
    case True
    then have "rect_points r2 = {}" by (intro rect_empty) (auto simp: rect_ok_def)
    moreover have "ogon_encoder_blank_client_view_area e (Some r) = Some (e\<lparr>clientView := clientView e\<rparr>, Some r2)"
      using eq True by auto
    ultimately show ?thesis using points by (intro exI [of _ "clientView e"] exI [of _ r2]) auto
  next
    case nonempty: False
    note dims = assms [unfolded encoder_ok_def]
    have le: "unat (rect_right r2) \<le> unat (desktopWidth e)" "unat (rect_bottom r2) \<le> unat (desktopHeight e)"
      "unat (rect_left r2) \<le> unat (rect_right r2)" "unat (rect_top r2) < unat (rect_bottom r2)"
      using r2 nonempty by (auto simp: word_le_nat_alt)
    have small: "unat (rect_top r2) * unat (scanLine e) + unat (rect_left r2) * 4 < 2 ^ 32"
      using encoder_row_end [OF assms le(1,3) _ le(2), of "unat (rect_top r2)" 0] le(4) dims by simp
    have wide: "unat (rect_right r2) * 4 < 2 ^ 32" using le(1) unsigned_less [of "rect_right r2", where 'a = nat] by simp
    have line: "unat (rect_right r2) * 4 \<le> unat (scanLine e)" using le(1) dims by linarith
    let ?n = "unat (rect_bottom r2) - unat (rect_top r2)" and ?start = "unat (rect_top r2) * unat (scanLine e) + unat (rect_left r2) * 4"
      and ?m = "(unat (rect_right r2) - unat (rect_left r2)) * 4" and ?line = "unat (scanLine e)"
    have "?start + i * ?line + ?m \<le> length (clientView e)" if "i < ?n" for i
      by (rule encoder_row_end [OF assms le(1,3) _ le(2)]) (use that in simp)
    from blank_rows_result [OF this] obtain view where view: "blank_rows ?n ?start ?m ?line (clientView e) = Some view"
      "length view = length (clientView e)"
      "\<forall>k < length (clientView e). view ! k = (if in_rows ?n ?start ?m ?line k then 1 else clientView e ! k)"
      by blast
    have "ogon_encoder_blank_client_view_area e (Some r) = Some (e\<lparr>clientView := view\<rparr>, Some r2)"
      using eq nonempty view(1) offset_u32 [OF small] width_u32 [OF le(3) [folded word_le_nat_alt] wide] by simp
    moreover have "in_rows ?n ?start ?m ?line k \<longleftrightarrow> pixel_of ?line k \<in> rect_points r \<inter> desktop e" for k
      unfolding points [symmetric] unfolding rect_points_def by (rule in_rows_points [OF line le(3)])
    ultimately show ?thesis using view(2,3) by (intro exI [of _ view] exI [of _ r2]) simp
  qed
qed

section \<open>Creation\<close>

lemma unat_word_of_int: "0 \<le> k \<Longrightarrow> k < 2 ^ 32 \<Longrightarrow> unat (word_of_int k :: u32) = nat k"
  by (simp add: unsigned_of_int take_bit_int_eq_self)

text \<open>The view of a new encoder is blank, so that everything the client should show is sent.\<close>

lemma encoder_contexts_fields:
  "encoder_contexts alloc e = (Some e', res) \<Longrightarrow> \<exists>bs h. e' = e\<lparr>bmpStreamSize := bs, h264_context := h\<rparr>"
  by (auto simp: encoder_contexts_def Let_def split: if_splits option.splits prod.splits)

lemma encoder_new_ok:
  assumes "ogon_bitmap_encoder_new alloc R width height bpp 4 scan dstBpp maxRequestSize = Some (Some e, res)"
  shows "encoder_ok e" "clientView e = replicate (length (clientView e)) 1" "accumulatedDamage e = reg_clear R"
    "unat (desktopWidth e) = nat width" "unat (desktopHeight e) = nat height" "unat (scanLine e) = nat scan"
    "multifragMaxRequestSize e \<ge> OGON_ENCODER_MIN_MULTIFRAG_REQUEST_SIZE" "scan mod 16 = 0"
proof -
  have c: "1 \<le> width" "1 \<le> height" "int_ok (width * 4)" "width * 4 \<le> scan" "scan mod 16 = 0" "int_ok (height * scan)"
    "OGON_ENCODER_MIN_MULTIFRAG_REQUEST_SIZE \<le> maxRequestSize"
    using assms by (auto simp: ogon_bitmap_encoder_new_def split: if_splits)
  have "1 * scan \<le> height * scan" "height * 1 \<le> height * scan" using c by (intro mult_mono; simp)+
  then have "scan < 2 ^ 31" "height < 2 ^ 31" using c(6) unfolding int_ok_def by linarith+
  then have u: "unat (word_of_int width :: u32) = nat width" "unat (word_of_int height :: u32) = nat height"
    "unat (word_of_int scan :: u32) = nat scan"
    using c by (simp_all add: unat_word_of_int int_ok_def)
  have hs: "unat (word_of_int height * word_of_int scan :: u32) = nat (height * scan)"
    using c by (simp add: unat_word_of_int int_ok_def flip: of_int_mult)
  have e: "clientView e = replicate (nat (height * scan)) 1" "accumulatedDamage e = reg_clear R" "desktopWidth e = word_of_int width"
    "desktopHeight e = word_of_int height" "scanLine e = word_of_int scan" "bytesPerPixel e = 4" "multifragMaxRequestSize e = maxRequestSize"
    using assms hs
    by (auto simp: ogon_bitmap_encoder_new_def Let_def ogon_encoder_blank_client_view_area_def memset_def
        dest!: encoder_contexts_fields split: if_splits)
  have "nat (height * scan) = nat height * nat scan" using c by (simp add: nat_mult_distrib)
  then show "encoder_ok e" using c u unfolding encoder_ok_def e by (simp add: int_ok_def) linarith
  show "clientView e = replicate (length (clientView e)) 1" "accumulatedDamage e = reg_clear R"
    "unat (desktopWidth e) = nat width" "unat (desktopHeight e) = nat height" "unat (scanLine e) = nat scan"
    "multifragMaxRequestSize e \<ge> OGON_ENCODER_MIN_MULTIFRAG_REQUEST_SIZE" "scan mod 16 = 0"
    using c u unfolding e by simp_all
qed

text \<open>Creation leaves nothing allocated when it fails, and what it leaves is what is released later.\<close>

lemma bmp_context_resources:
  assumes "ogon_create_encoder_bmp_context alloc w h b [EncoderStream, ClientView, EncoderStruct] = (r, res)"
  shows "res = (if r = None then [] else [BmpTempStream, BmpStream, BmpImageCopyBuffer, BmpPlanar, BmpContext]) @
    [EncoderStream, ClientView, EncoderStruct]"
  using assms
  by (auto simp: ogon_create_encoder_bmp_context_def ogon_delete_encoder_bmp_context_def Let_def split: if_splits)

lemma encoder_contexts_all_or_nothing:
  "encoder_contexts alloc e = (r, res) \<Longrightarrow> (if r = None then res else ogon_bitmap_encoder_free res) = []"
  by (auto simp: encoder_contexts_def ogon_bitmap_encoder_free_def ogon_delete_encoder_bmp_context_def Let_def
      dest!: bmp_context_resources split: if_splits option.splits prod.splits)

lemma encoder_new_all_or_nothing:
  assumes "ogon_bitmap_encoder_new alloc R width height bpp bytes scan dstBpp maxRequestSize = Some (e, res)"
  shows "(if e = None then res else ogon_bitmap_encoder_free res) = []"
  using assms
  by (auto simp: ogon_bitmap_encoder_new_def Let_def dest!: encoder_contexts_all_or_nothing split: if_splits option.splits)

end
