(* ===== verification/Front_Connection.thy ===== *)
theory Front_Connection
  imports Encoder Frame_State Bandwidth Rdpgfx
begin

text \<open>
  The state of a front connection and what every part of the server does with it: requests to the
  backend (\<open>initiate_immediate_request\<close> in \<open>rdp-server/peer.c\<close>, \<open>handle_wait_timer_state\<close> in
  \<open>frontend.c\<close>) and the life of the graphics pipeline channel (\<open>frontend.c\<close>). What a function sends is
  appended to a log.
\<close>

section \<open>State\<close>

datatype ogon_codec_mode = CODEC_MODE_BMP | CODEC_MODE_NSC | CODEC_MODE_RFX1 | CODEC_MODE_RFX2 | CODEC_MODE_RFX3 | CODEC_MODE_H264

text \<open>The entropy coder that FreeRDP's RemoteFX context is set to.\<close>

datatype rlgr_mode = RLGR1 | RLGR3

text \<open>The settings of FreeRDP that the server reads and writes.\<close>

record front_settings =
  DesktopWidth :: u32
  DesktopHeight :: u32
  ColorDepth :: u32
  MultifragMaxRequestSize :: u32
  SurfaceFrameMarkerEnabled :: bool
  SurfaceCommandsEnabled :: bool
  RemoteFxCodec :: bool
  RemoteFxCodecId :: u32
  SupportGraphicsPipeline :: bool
  ConnectionType :: u32
  FrameAcknowledgeSetting :: u32
  receivedFrameAckCaps :: bool

text \<open>\<open>bwState\<close> holds the fields of \<open>ogon_front_connection\<close> that the bandwidth management shares, \<open>rfxMode\<close> the mode of the encoder's RemoteFX context.\<close>

record 'r ogon_front_connection =
  front_state :: ogon_state_machine
  bwState :: bw_connection
  encoder :: "'r ogon_bitmap_encoder option"
  codecMode :: ogon_codec_mode
  rdpgfx :: rdpgfx_server_context
  rdpgfxOutputSurface :: u32
  rdpgfxRequired :: bool
  rdpgfxConnected :: bool
  rdpgfxForbidden :: bool
  rdpgfxH264Forbidden :: bool
  rdpgfxH264Supported :: bool
  rdpgfxH264EnableFullAVC444 :: bool
  rdpgfxProgressiveTicks :: u32
  showDebugInfo :: bool
  fps_measure_timestamp :: u32
  fps_measured :: u16
  fps_measure_currentfps :: u16
  bytes_sent_timestamp :: u32
  bytes_sent :: u32
  rfxMode :: rlgr_mode
  pendingResizeWidth :: u32
  pendingResizeHeight :: u32
  activationCount :: u32
  maxWidth :: u32
  maxHeight :: u32
  initialDesktopWidth :: u32
  initialDesktopHeight :: u32
  settings :: front_settings

record ogon_backend_screen =
  screen_width :: u32
  screen_height :: u32
  screen_bpp :: u32
  screen_bytesPerPixel :: u32
  screen_scanline :: u32
  damage :: dmgbuf
  waitingSyncReply :: bool

text \<open>
  What is sent to the backend and to the client, and the connection being closed. An identifier that is
  None was read outside the damage buffer.
\<close>

datatype front_out =
    FramebufferSyncRequest "u32 option"
  | ImmediateSyncRequest "u32 option"
  | CloseConnection
  | WatchWrite
  | DesktopResize u32 u32
  | GfxOpen
  | GfxClose
  | GfxResetGraphics u32 u32
  | GfxCreateSurface u32 u32 u32
  | GfxMapSurfaceToOutput u32
  | GfxDeleteSurface u32
  | GfxCacheImportReply

record 'r front_link =
  front :: "'r ogon_front_connection"
  backend :: "ogon_backend_screen option"
  sent :: "front_out list"

section \<open>The code\<close>

definition emit :: "front_out \<Rightarrow> 'r front_link \<Rightarrow> 'r front_link" where
  "emit x s = s\<lparr>sent := sent s @ [x]\<rparr>"

definition upd_front :: "('r ogon_front_connection \<Rightarrow> 'r ogon_front_connection) \<Rightarrow> 'r front_link \<Rightarrow> 'r front_link" where
  "upd_front f s = s\<lparr>front := f (front s)\<rparr>"

definition set_event :: "ogon_event \<Rightarrow> 'r front_link \<Rightarrow> 'r front_link" where
  "set_event ev = upd_front (\<lambda>f. f\<lparr>front_state := ogon_state_set_event (front_state f) ev\<rparr>)"

abbreviation state_of :: "'r front_link \<Rightarrow> ogon_state" where
  "state_of s \<equiv> ogon_state_get (front_state (front s))"

text \<open>
  The damage that is set is the whole screen of the backend. The request is only logged when it cannot
  be sent.
\<close>

definition whole_screen :: "ogon_backend_screen \<Rightarrow> RECTANGLE_16" where
  "whole_screen b = \<lparr>rect_left = 0, rect_top = 0, rect_right = ucast (screen_width b), rect_bottom = ucast (screen_height b)\<rparr>"

definition set_full_damage :: "'r region16 \<Rightarrow> ogon_backend_screen \<Rightarrow> 'r ogon_bitmap_encoder \<Rightarrow> bool \<times> 'r ogon_bitmap_encoder" where
  "set_full_damage R b e =
     (let (ok, dmg) = reg_union R (reg_clear R) (whole_screen b) in (ok, e\<lparr>accumulatedDamage := dmg\<rparr>))"

definition force_sync :: "'r front_link \<Rightarrow> 'r front_link" where
  "force_sync s =
     (case backend s of
        None \<Rightarrow> s
      | Some b \<Rightarrow>
          if state_of s \<in> {OGON_STATE_WAITING_ACTIVE_OUTPUT, OGON_STATE_WAITING_ACK, OGON_STATE_WAITING_FRAME_SENT,
                OGON_STATE_WAITING_TIMER, OGON_STATE_WAITING_SYNC_REPLY}
          then (emit (ImmediateSyncRequest (ogon_dmgbuf_get_id (damage b))) (set_event OGON_EVENT_FRONTEND_IMMEDIATE_REQUEST s))
                 \<lparr>backend := Some (b\<lparr>waitingSyncReply := True\<rparr>)\<rparr>
          else s)"

definition initiate_immediate_request :: "'r region16 \<Rightarrow> bool \<Rightarrow> 'r front_link \<Rightarrow> bool \<times> 'r front_link" where
  "initiate_immediate_request R setDamage s =
     (case backend s of
        None \<Rightarrow> (True, s)
      | Some b \<Rightarrow>
          (case encoder (front s) of
             Some e \<Rightarrow>
               if setDamage
               then let (ok, e) = set_full_damage R b e; s = upd_front (\<lambda>f. f\<lparr>encoder := Some e\<rparr>) s
                    in if ok then (True, force_sync s) else (False, s)
               else (True, force_sync s)
           | None \<Rightarrow> (True, force_sync s)))"

text \<open>
  The frame timer's question whether a frame is due. \<open>send_ok\<close> is whether the request reaches the
  backend. The encoder is dereferenced without a check: None is a null pointer.
\<close>

definition handle_wait_timer_state :: "'r region16 \<Rightarrow> bool \<Rightarrow> 'r front_link \<Rightarrow> 'r front_link option" where
  "handle_wait_timer_state R send_ok s =
     (if \<not> ogon_state_should_create_frame (front_state (front s)) then Some s
      else case backend s of
        None \<Rightarrow> Some s
      | Some b \<Rightarrow>
          let s = set_event OGON_EVENT_BACKEND_SYNC_REQUESTED s in
          if state_of s \<noteq> OGON_STATE_WAITING_SYNC_REPLY then Some s
          else case encoder (front s) of
            None \<Rightarrow> None
          | Some e \<Rightarrow>
              if \<not> reg_is_empty R (accumulatedDamage e) then Some (snd (initiate_immediate_request R False s))
              else if waitingSyncReply b then Some s
              else let s = emit (FramebufferSyncRequest (ogon_dmgbuf_get_id (damage b))) s;
                       s = (if send_ok then s else emit CloseConnection s)
                   in Some (s\<lparr>backend := Some (b\<lparr>waitingSyncReply := True\<rparr>)\<rparr>))"

section \<open>The graphics pipeline channel\<close>

definition GFX_PIXEL_FORMAT_ARGB_8888 :: u8 where "GFX_PIXEL_FORMAT_ARGB_8888 = 0x21"

text \<open>The result of opening the channel, also called when it is closed.\<close>

definition ogon_rdpgfx_open_result :: "'r region16 \<Rightarrow> open_result \<Rightarrow> 'r front_link \<Rightarrow> 'r front_link" where
  "ogon_rdpgfx_open_result R result s =
     (let s = (case result of
            OPEN_RESULT_OK \<Rightarrow>
              upd_front (\<lambda>f. (if h264Supported (rdpgfx f) then f\<lparr>rdpgfxH264Supported := \<not> rdpgfxH264Forbidden f\<rparr> else f)
                 \<lparr>rdpgfxConnected := True\<rparr>) s
          | _ \<Rightarrow>
              upd_front (\<lambda>f. f\<lparr>rdpgfxH264Supported := False, rdpgfxConnected := False, rdpgfxRequired := False,
                 bwState := (bwState f)\<lparr>frameAcknowledge := 0\<rparr>, codecMode := CODEC_MODE_BMP\<rparr>) s)
      in snd (initiate_immediate_request R True (set_event OGON_EVENT_FRONTEND_STOP_WAITING_GFX s)))"

definition gfx_close :: "'r region16 \<Rightarrow> 'r front_link \<Rightarrow> 'r front_link" where
  "gfx_close R s =
     (let (c, evs) = rdpgfx_server_close (rdpgfx (front s)); s = emit GfxClose (upd_front (\<lambda>f. f\<lparr>rdpgfx := c\<rparr>) s)
      in foldl (\<lambda>s ev. case ev of OpenResult r \<Rightarrow> ogon_rdpgfx_open_result R r s | _ \<Rightarrow> s) s evs)"

definition ogon_rdpgfx_shutdown :: "'r region16 \<Rightarrow> 'r front_link \<Rightarrow> 'r front_link" where
  "ogon_rdpgfx_shutdown R s =
     (if \<not> rdpgfxConnected (front s) then s
      else let surface = rdpgfxOutputSurface (front s);
               s = (if surface = 0 then s
                    else upd_front (\<lambda>f. f\<lparr>rdpgfxOutputSurface := 0\<rparr>) (emit (GfxDeleteSurface surface) s))
           in gfx_close R s)"

text \<open>\<open>ok\<close> is whether a message could be sent.\<close>

definition ogon_rdpgfx_init_output :: "'r region16 \<Rightarrow> (front_out \<Rightarrow> bool) \<Rightarrow> 'r front_link \<Rightarrow> bool \<times> 'r front_link" where
  "ogon_rdpgfx_init_output R ok s =
     (case encoder (front s) of
        None \<Rightarrow> (True, s)
      | Some e \<Rightarrow>
          if \<not> rdpgfxConnected (front s) then (True, s)
          else let reset = GfxResetGraphics (desktopWidth e) (desktopHeight e);
                   create = GfxCreateSurface 1 (desktopWidth e) (desktopHeight e);
                   map_out = GfxMapSurfaceToOutput 1;
                   s = emit reset s
               in if \<not> ok reset then (False, gfx_close R s)
                  else let s = emit create (upd_front (\<lambda>f. f\<lparr>rdpgfxOutputSurface := 1\<rparr>) s) in
                       if \<not> ok create then (False, gfx_close R s)
                       else let s = emit map_out s in
                            if \<not> ok map_out then (False, gfx_close R s) else (True, s))"

text \<open>
  The acknowledgement of a frame; the window is measured in frame identifiers.
\<close>

definition ack_missing :: "bw_connection \<Rightarrow> bool" where
  "ack_missing b \<longleftrightarrow> frameAcknowledge b \<noteq> 0 \<and> Bandwidth.lastAckFrame b + frameAcknowledge b + 1 < Bandwidth.nextFrameId b"

definition ogon_update_frame_acknowledge :: "'r region16 \<Rightarrow> bool \<Rightarrow> u32 \<Rightarrow> 'r front_link \<Rightarrow> 'r front_link option" where
  "ogon_update_frame_acknowledge R send_ok frameId s =
     (let s = upd_front (\<lambda>f. f\<lparr>bwState := (bwState f)\<lparr>lastAckFrame := frameId\<rparr>\<rparr>) s in
      if state_of s \<noteq> OGON_STATE_WAITING_ACK then Some s
      else if ack_missing (bwState (front s)) then Some s
      else handle_wait_timer_state R send_ok (set_event OGON_EVENT_FRONTEND_FRAME_ACK_RECEIVED s))"

definition SUSPEND_FRAME_ACKNOWLEDGEMENT :: u32 where "SUSPEND_FRAME_ACKNOWLEDGEMENT = 0xFFFFFFFF"

definition default_frame_ack :: "front_settings \<Rightarrow> u32" where
  "default_frame_ack st = (if FrameAcknowledgeSetting st = 0 then 5 else FrameAcknowledgeSetting st)"

definition ogon_rdpgfx_frame_acknowledge :: "'r region16 \<Rightarrow> bool \<Rightarrow> u32 \<Rightarrow> u32 \<Rightarrow> 'r front_link \<Rightarrow> 'r front_link option" where
  "ogon_rdpgfx_frame_acknowledge R send_ok queueDepth frameId s =
     (let s = (if queueDepth = SUSPEND_FRAME_ACKNOWLEDGEMENT
               then upd_front (\<lambda>f. f\<lparr>bwState := (bwState f)\<lparr>frameAcknowledge := 0\<rparr>\<rparr>) s
               else if frameAcknowledge (bwState (front s)) = 0
               then upd_front (\<lambda>f. f\<lparr>bwState := (bwState f)\<lparr>frameAcknowledge := default_frame_ack (settings f)\<rparr>\<rparr>) s
               else s)
      in if lastAckFrame (bwState (front s)) < frameId then ogon_update_frame_acknowledge R send_ok frameId s else Some s)"

text \<open>Whatever the client offers to import into its cache, nothing is imported.\<close>

definition ogon_rdpgfx_cache_import_offer :: "(u64 \<times> u32) list \<Rightarrow> 'r front_link \<Rightarrow> 'r front_link" where
  "ogon_rdpgfx_cache_import_offer entries s = emit GfxCacheImportReply s"

text \<open>The client switches its output on and off; \<open>area\<close> is whether it gave one.\<close>

definition ogon_suppress_output :: "'r region16 \<Rightarrow> bool \<Rightarrow> u8 \<Rightarrow> bool \<Rightarrow> 'r front_link \<Rightarrow> 'r front_link option" where
  "ogon_suppress_output R send_ok allow area s =
     (if allow \<noteq> 0
      then if \<not> area then Some s
           else handle_wait_timer_state R send_ok (set_event OGON_EVENT_FRONTEND_ENABLE_OUTPUT s)
      else if area then Some s
      else Some (set_event OGON_EVENT_FRONTEND_DISABLE_OUTPUT s))"

end
