(* ===== verification/Damage.thy ===== *)
theory Damage
  imports Encoder
begin

text \<open>
  Damage tracking (\<open>rdp-server/graphics.c\<close>, and the parts of \<open>frontend.c\<close> and \<open>peer.c\<close> that add
  damage): the damage a backend reports is accumulated in the encoder, compared with the client view
  in tiles, and what really differs is handed to the codecs. None and \<open>Fault\<close> are accesses outside a
  buffer and overflows of an \<open>int\<close>.
\<close>

section \<open>The code\<close>

text \<open>The bytes of a row of a frame buffer.\<close>

definition row :: "u8 list \<Rightarrow> int \<Rightarrow> int \<Rightarrow> u8 list option" where
  "row buf off n =
     (if 0 \<le> off \<and> 0 \<le> n \<and> off + n \<le> int (length buf) then Some (take (nat n) (drop (nat off) buf)) else None)"

definition put_row :: "u8 list \<Rightarrow> int \<Rightarrow> u8 list \<Rightarrow> u8 list" where
  "put_row buf off bs = take (nat off) buf @ bs @ drop (nat off + length bs) buf"

text \<open>The second loop copies rows, the first one skips rows that are the same.\<close>

fun copy_rows :: "nat \<Rightarrow> int \<Rightarrow> int \<Rightarrow> int \<Rightarrow> u8 list \<Rightarrow> u8 list \<Rightarrow> u8 list option" where
  "copy_rows 0 off n lineSize src dst = Some dst"
| "copy_rows (Suc h) off n lineSize src dst =
     (case (row dst off n, row src off n) of
        (Some _, Some bs) \<Rightarrow> copy_rows h (off + lineSize) n lineSize src (put_row dst off bs)
      | _ \<Rightarrow> None)"

fun compare_rows :: "nat \<Rightarrow> int \<Rightarrow> int \<Rightarrow> int \<Rightarrow> u8 list \<Rightarrow> u8 list \<Rightarrow> (bool \<times> u8 list) option" where
  "compare_rows 0 off n lineSize src dst = Some (True, dst)"
| "compare_rows (Suc h) off n lineSize src dst =
     (case (row dst off n, row src off n) of
        (Some a, Some b) \<Rightarrow>
          if a \<noteq> b then map_option (Pair False) (copy_rows (Suc h) off n lineSize src dst)
          else compare_rows h (off + lineSize) n lineSize src dst
      | _ \<Rightarrow> None)"

text \<open>Whether the rectangle is the same in both buffers, and the copy brought up to date.\<close>

definition ogon_compare_and_update_framebuffer_copy ::
    "u8 list \<Rightarrow> u8 list \<Rightarrow> int \<Rightarrow> int \<Rightarrow> int \<Rightarrow> int \<Rightarrow> int \<Rightarrow> int \<Rightarrow> (bool \<times> u8 list) option" where
  "ogon_compare_and_update_framebuffer_copy dst src x y w h pixelSize lineSize =
     (let widthBytes = w * pixelSize; offset = y * lineSize + x * pixelSize in
      if int_ok (w * pixelSize) \<and> int_ok (y * lineSize) \<and> int_ok (x * pixelSize) \<and> int_ok offset
      then compare_rows (nat h) offset widthBytes lineSize src dst else None)"

text \<open>
  Leaving the loops of \<open>simplify_damagedRegion\<close> before their end: with a result and what was computed
  until then, or because of a fault. The state is the damage, the client view and the damaged size.
\<close>

datatype 's leave = Fault | Leave bool 's

type_synonym 'r simplify = "'r \<times> u8 list \<times> int"

text \<open>A rectangle of the intersection of a tile with the input; the count is \<open>dmgcount\<close>.\<close>

definition damage_rect ::
    "'r region16 \<Rightarrow> u8 list \<Rightarrow> int \<Rightarrow> bool \<Rightarrow> RECTANGLE_16 \<Rightarrow> nat \<times> 'r simplify \<Rightarrow> 'r simplify leave + nat \<times> 'r simplify" where
  "damage_rect R fbData lineSize damageFullTiles rect st =
     (let (dmgcount, damage, fbCopy, damageSize) = st;
          w = int (unat (rect_right rect)) - int (unat (rect_left rect));
          h = int (unat (rect_bottom rect)) - int (unat (rect_top rect))
      in case ogon_compare_and_update_framebuffer_copy fbCopy fbData (int (unat (rect_left rect))) (int (unat (rect_top rect)))
                w h 4 lineSize of
           None \<Rightarrow> Inl Fault
         | Some (True, fbCopy) \<Rightarrow> Inr (dmgcount, damage, fbCopy, damageSize)
         | Some (False, fbCopy) \<Rightarrow>
             if damageFullTiles then Inr (dmgcount + 1, damage, fbCopy, damageSize + w * h)
             else let (ok, damage) = reg_union R damage rect in
                  if ok then Inr (dmgcount + 1, damage, fbCopy, damageSize + w * h)
                  else Inl (Leave True (damage, fbCopy, damageSize)))"

definition damage_tile ::
    "'r region16 \<Rightarrow> u8 list \<Rightarrow> int \<Rightarrow> bool \<Rightarrow> 'r \<Rightarrow> RECTANGLE_16 \<Rightarrow> 'r simplify \<Rightarrow> 'r simplify leave + 'r simplify" where
  "damage_tile R fbData lineSize damageFullTiles input tile st =
     (let (ok, tileIntersection) = reg_intersect R input tile in
      if \<not> ok then Inl (Leave False st)
      else res_bind (res_fold (damage_rect R fbData lineSize damageFullTiles) (reg_rects R tileIntersection) (0, st))
        (\<lambda>(dmgcount, damage, fbCopy, damageSize).
           if damageFullTiles \<and> dmgcount \<noteq> 0
           then let (ok, damage) = reg_union R damage tile in
                if ok then Inr (damage, fbCopy, damageSize) else Inl (Leave True (damage, fbCopy, damageSize))
           else Inr (damage, fbCopy, damageSize)))"

text \<open>
  The tiles that the extents touch, row by row; the last ones end with the extents. The division of
  the edge minus one truncates towards zero.
\<close>

definition last_tile :: "u16 \<Rightarrow> nat \<Rightarrow> nat" where
  "last_tile edge tileSize = (unat edge - 1) div tileSize"

definition tile_at :: "RECTANGLE_16 \<Rightarrow> nat \<Rightarrow> nat \<Rightarrow> nat \<times> nat \<Rightarrow> RECTANGLE_16" where
  "tile_at extents tileWidth tileHeight yx =
     (let (y, x) = yx;
          h = (if y = last_tile (rect_bottom extents) tileHeight then unat (rect_bottom extents) - y * tileHeight else tileHeight);
          w = (if x = last_tile (rect_right extents) tileWidth then unat (rect_right extents) - x * tileWidth else tileWidth);
          top = of_nat (y * tileHeight); left = of_nat (x * tileWidth)
      in \<lparr>rect_left = left, rect_top = top, rect_right = left + of_nat w, rect_bottom = top + of_nat h\<rparr>)"

definition tiles :: "RECTANGLE_16 \<Rightarrow> nat \<Rightarrow> nat \<Rightarrow> RECTANGLE_16 list" where
  "tiles extents tileWidth tileHeight =
     map (tile_at extents tileWidth tileHeight)
       (List.product [unat (rect_top extents) div tileHeight ..< Suc (last_tile (rect_bottom extents) tileHeight)]
          [unat (rect_left extents) div tileWidth ..< Suc (last_tile (rect_right extents) tileWidth)])"

text \<open>The result, the damage, the client view and the damaged size; None is a fault.\<close>

definition simplify_damagedRegion ::
    "'r region16 \<Rightarrow> 'r \<Rightarrow> u8 list \<Rightarrow> 'r ogon_bitmap_encoder \<Rightarrow> 'r \<Rightarrow> nat \<Rightarrow> nat \<Rightarrow> bool \<Rightarrow> (bool \<times> 'r simplify) option" where
  "simplify_damagedRegion R damage fbData dstEncoder input tileWidth tileHeight damageFullTiles =
     (case res_fold (damage_tile R fbData (sint (scanLine dstEncoder)) damageFullTiles input)
             (tiles (reg_extents R input) tileWidth tileHeight) (damage, clientView dstEncoder, 0) of
        Inl Fault \<Rightarrow> None
      | Inl (Leave ret st) \<Rightarrow> Some (ret, st)
      | Inr st \<Rightarrow> Some (True, st))"

text \<open>The rectangles as the codecs take them; \<open>mem\<close> is whether \<open>realloc\<close> succeeds.\<close>

definition rdp_rect :: "RECTANGLE_16 \<Rightarrow> RDP_RECT" where
  "rdp_rect r = \<lparr>rr_x = rect_left r, rr_y = rect_top r, rr_width = rect_right r - rect_left r, rr_height = rect_bottom r - rect_top r\<rparr>"

definition ogon_update_encoder_rects ::
    "'r region16 \<Rightarrow> bool \<Rightarrow> 'r ogon_bitmap_encoder \<Rightarrow> 'r \<Rightarrow> nat \<times> 'r ogon_bitmap_encoder" where
  "ogon_update_encoder_rects R mem encoder region =
     (let rs = reg_rects R region; nrects = length rs in
      if unat (rdpRectsAllocated encoder) < nrects
      then if \<not> mem then (0, encoder)
           else (nrects, encoder\<lparr>rdpRects := map rdp_rect rs, rdpRectsAllocated := of_nat nrects\<rparr>)
      else (nrects, encoder\<lparr>rdpRects := map rdp_rect rs @ drop nrects (rdpRects encoder)\<rparr>))"

text \<open>An \<open>RDP_RECT\<close> of the damage buffer.\<close>

definition rect_at :: "u8 list \<Rightarrow> nat \<Rightarrow> RDP_RECT option" where
  "rect_at m i =
     (if 8 * i + 8 \<le> length m
      then Some \<lparr>rr_x = le_read 2 (drop (8 * i) m), rr_y = le_read 2 (drop (8 * i + 2) m),
                 rr_width = le_read 2 (drop (8 * i + 4) m), rr_height = le_read 2 (drop (8 * i + 6) m)\<rparr>
      else None)"

definition damage_valid :: "'r ogon_bitmap_encoder \<Rightarrow> RDP_RECT \<Rightarrow> bool" where
  "damage_valid e r \<longleftrightarrow>
     \<not> (sint (rr_x r) < 0 \<or> sint (rr_y r) < 0 \<or> sint (rr_width r) < 1 \<or> sint (rr_height r) < 1 \<or>
        word_of_int (sint (rr_x r) + sint (rr_width r)) > desktopWidth e \<or>
        word_of_int (sint (rr_y r) + sint (rr_height r)) > desktopHeight e)"

definition rect16_of :: "RDP_RECT \<Rightarrow> RECTANGLE_16" where
  "rect16_of r = \<lparr>rect_left = rr_x r, rect_top = rr_y r, rect_right = rr_x r + rr_width r, rect_bottom = rr_y r + rr_height r\<rparr>"

text \<open>The loop over the rectangles of the buffer; it stops with \<open>-1\<close> when a region operation fails.\<close>

fun consume_rects ::
    "'r region16 \<Rightarrow> u8 list \<Rightarrow> nat \<Rightarrow> nat \<Rightarrow> 'r ogon_bitmap_encoder \<Rightarrow> (int \<times> 'r ogon_bitmap_encoder) option" where
  "consume_rects R m i 0 e = Some (0, e)"
| "consume_rects R m i (Suc n) e =
     (case rect_at m i of
        None \<Rightarrow> None
      | Some r \<Rightarrow>
          if \<not> damage_valid e r then consume_rects R m (Suc i) n e
          else let (ok, damage) = reg_union R (accumulatedDamage e) (rect16_of r); e = e\<lparr>accumulatedDamage := damage\<rparr> in
               if ok then consume_rects R m (Suc i) n e else Some (-1, e))"

definition ogon_backend_consume_damage ::
    "'r region16 \<Rightarrow> dmgbuf \<Rightarrow> 'r ogon_bitmap_encoder \<Rightarrow> (int \<times> 'r ogon_bitmap_encoder) option" where
  "ogon_backend_consume_damage R damage e =
     (case (ogon_dmgbuf_get_rects damage, ogon_dmgbuf_get_data damage) of
        (Some (Some (numRects, rects)), Some (Some _)) \<Rightarrow>
          if numRects = 0 then Some (0, e) else consume_rects R rects 0 (unat numRects) e
      | (Some _, Some _) \<Rightarrow> Some (0, e)
      | _ \<Rightarrow> None)"

text \<open>
  A client asks for rectangles again. Their edges are inclusive. The result is whether the request for
  a frame is reached.
\<close>

fun refresh_rects ::
    "'r region16 \<Rightarrow> RECTANGLE_16 list \<Rightarrow> 'r ogon_bitmap_encoder \<Rightarrow> (bool \<times> 'r ogon_bitmap_encoder) option" where
  "refresh_rects R [] e = Some (True, e)"
| "refresh_rects R (r # rs) e =
     (if rect_right r < rect_left r then refresh_rects R rs e
      else if rect_bottom r < rect_top r then refresh_rects R rs e
      else let r = r\<lparr>rect_right := rect_right r + 1, rect_bottom := rect_bottom r + 1\<rparr>;
               r = (if ucast (rect_right r) \<ge> desktopWidth e then r\<lparr>rect_right := ucast (desktopWidth e)\<rparr> else r);
               r = (if ucast (rect_bottom r) \<ge> desktopHeight e then r\<lparr>rect_bottom := ucast (desktopHeight e)\<rparr> else r);
               (ok, damage) = reg_union R (accumulatedDamage e) r;
               e = e\<lparr>accumulatedDamage := damage\<rparr>
           in if \<not> ok then Some (False, e)
              else case ogon_encoder_blank_client_view_area e (Some r) of
                     None \<Rightarrow> None
                   | Some (e, _) \<Rightarrow> refresh_rects R rs e)"

end
