(* ===== verification/Bitmap_Update.thy ===== *)
theory Bitmap_Update
  imports Encoder
begin

text \<open>
  Bitmap updates (\<open>ogon_send_bitmap_bits\<close> in \<open>rdp-server/graphics.c\<close>): the damaged rectangles are
  aligned, cut into fragments of at most 64x64 pixels, compressed into one stream, and sent in as few
  update PDUs as the client's request size allows. The compressors of FreeRDP are an argument.
\<close>

section \<open>The code\<close>

text \<open>The fields of a \<open>BITMAP_DATA\<close> that describe the bitmap; the edges are inclusive.\<close>

record BITMAP_DATA =
  bd_destLeft :: u32
  bd_destTop :: u32
  bd_destRight :: u32
  bd_destBottom :: u32
  bd_width :: u32
  bd_height :: u32
  bd_bitsPerPixel :: u32
  bd_cbScanWidth :: u32
  bd_cbUncompressedSize :: u32
  bd_bitmapLength :: u32
  bd_data :: "u8 list"

text \<open>The horizontal alignment: the left edge and the width of a rectangle.\<close>

definition align_rect :: "nat \<Rightarrow> nat \<Rightarrow> nat \<times> nat" where
  "align_rect x width =
     (let m = x mod 4; x = x - m; width = width + m;
          m = width mod 4; width = (if m \<noteq> 0 then width + (4 - m) else width)
      in (x, width))"

text \<open>The loops that make a fragment small enough.\<close>

function shrink_width :: "nat \<Rightarrow> nat \<Rightarrow> nat \<Rightarrow> nat" where
  "shrink_width w bpp maxRectSize = (if w * bpp > maxRectSize then shrink_width (w div 2) bpp maxRectSize else w)"
  by pat_completeness auto
termination
proof (relation "measure (\<lambda>(w, _). w)")
  fix w bpp m :: nat
  assume "w * bpp > m"
  then have "0 < w" by (cases w) auto
  then show "((w div 2, bpp, m), (w, bpp, m)) \<in> measure (\<lambda>(w, _). w)" by simp
qed simp

function shrink_height :: "nat \<Rightarrow> nat \<Rightarrow> nat \<Rightarrow> nat \<Rightarrow> nat" where
  "shrink_height h w bpp maxRectSize =
     (if w * h * bpp > maxRectSize then shrink_height (if h = 3 then 2 else h div 2) w bpp maxRectSize else h)"
  by pat_completeness auto
termination
proof (relation "measure (\<lambda>(h, _). h)")
  fix h w bpp m :: nat
  assume "w * h * bpp > m"
  then have "0 < h" by (cases h) auto
  then show "((if h = 3 then 2 else h div 2, w, bpp, m), (h, w, bpp, m)) \<in> measure (\<lambda>(h, _). h)" by simp
qed simp

declare shrink_width.simps [simp del] shrink_height.simps [simp del]

text \<open>The fragments of a rectangle, row by row: left, top, width and height.\<close>

type_synonym fragment = "nat \<times> nat \<times> nat \<times> nat"

definition fragment_at :: "nat \<Rightarrow> nat \<Rightarrow> nat \<Rightarrow> nat \<Rightarrow> nat \<Rightarrow> nat \<Rightarrow> nat \<times> nat \<Rightarrow> fragment" where
  "fragment_at px py pwidth pheight w h yx =
     (let (y, x) = yx; rx = px + x * w; ry = py + y * h;
          rheight = (if ry + h > py + pheight then py + pheight - ry else h);
          rwidth = (if rx + w > px + pwidth then px + pwidth - rx else w)
      in (rx, ry, rwidth, rheight))"

definition fragments :: "nat \<Rightarrow> nat \<Rightarrow> nat \<Rightarrow> nat \<Rightarrow> nat \<Rightarrow> nat \<Rightarrow> fragment list" where
  "fragments px py pwidth pheight w h =
     (let nx = (pwidth + w - 1) div w; ny = (pheight + h - 1) div h in
      map (fragment_at px py pwidth pheight w h) (List.product [0..<ny] [0..<nx]))"

text \<open>
  The fragments of an input rectangle. None: the rectangle does not fit an \<open>INT16\<close>, or the assertion
  that a fragment is at least four pixels wide fails.
\<close>

definition rect_fragments :: "nat \<Rightarrow> nat \<Rightarrow> RDP_RECT \<Rightarrow> fragment list option" where
  "rect_fragments bpp maxRectSize pr =
     (if sint (rr_x pr) < 0 \<or> sint (rr_y pr) < 0 \<or> sint (rr_width pr) < 1 \<or> sint (rr_height pr) < 1 then None
      else let (px, pwidth) = align_rect (unat (rr_x pr)) (unat (rr_width pr)); py = unat (rr_y pr); pheight = unat (rr_height pr);
               w = shrink_width (if pwidth > 64 then 64 else pwidth) bpp maxRectSize;
               h = shrink_height (if pheight > 64 then 64 else pheight) w bpp maxRectSize
           in if pwidth \<ge> 2 ^ 15 \<or> h = 0 \<or> w < 4 then None
              else Some (fragments px py pwidth pheight w h))"

text \<open>
  Compressing a fragment into the stream, of which \<open>remaining\<close> bytes are left. \<open>compress\<close> gets the
  frame buffer from the first pixel on. The inner None is the label \<open>fail\<close>, the outer one a read
  outside the frame buffer. \<open>mem\<close> is whether an array of that many \<open>BITMAP_DATA\<close> can be had.
\<close>

definition compress_fragment ::
    "(u8 list \<Rightarrow> nat \<Rightarrow> nat \<Rightarrow> u8 list option) \<Rightarrow> (nat \<Rightarrow> bool) \<Rightarrow> 'r ogon_bitmap_encoder \<Rightarrow> u8 list \<Rightarrow> fragment \<Rightarrow>
     nat \<times> BITMAP_DATA list \<Rightarrow> (nat \<times> BITMAP_DATA list) option option" where
  "compress_fragment compress mem e data fr st =
     (let (x, y, w, h) = fr; (remaining, bitmaps) = st;
          bpp = unat (dstBytesPerPixel e);
          newMaxSize = h * w * bpp + 3;
          off = y * unat (scanLine e) + x * unat (bytesPerPixel e)
      in if \<not> mem (length bitmaps + 1) then Some None
         else if remaining < newMaxSize then Some None
         else if off + (h - 1) * unat (scanLine e) + w * unat (bytesPerPixel e) > length data then None
         else case compress (drop off data) w h of
                None \<Rightarrow> Some None
              | Some bs \<Rightarrow>
                  if dstBitsPerPixel e \<le> 24 \<and> length bs > newMaxSize then Some None
                  else Some (Some (remaining - length bs, bitmaps @
                         [\<lparr>bd_destLeft = of_nat x, bd_destTop = of_nat y, bd_destRight = of_nat (x + w - 1),
                           bd_destBottom = of_nat (y + h - 1), bd_width = of_nat w, bd_height = of_nat h,
                           bd_bitsPerPixel = dstBitsPerPixel e, bd_cbScanWidth = of_nat (w * bpp),
                           bd_cbUncompressedSize = of_nat (w * h * bpp), bd_bitmapLength = of_nat (length bs),
                           bd_data = bs\<rparr>])))"

fun compress_fragments ::
    "(u8 list \<Rightarrow> nat \<Rightarrow> nat \<Rightarrow> u8 list option) \<Rightarrow> (nat \<Rightarrow> bool) \<Rightarrow> 'r ogon_bitmap_encoder \<Rightarrow> u8 list \<Rightarrow> fragment list \<Rightarrow>
     nat \<times> BITMAP_DATA list \<Rightarrow> (nat \<times> BITMAP_DATA list) option option" where
  "compress_fragments compress mem e data [] st = Some (Some st)"
| "compress_fragments compress mem e data (fr # frs) st =
     (case compress_fragment compress mem e data fr st of
        Some (Some st) \<Rightarrow> compress_fragments compress mem e data frs st
      | r \<Rightarrow> r)"

fun compress_rects ::
    "(u8 list \<Rightarrow> nat \<Rightarrow> nat \<Rightarrow> u8 list option) \<Rightarrow> (nat \<Rightarrow> bool) \<Rightarrow> 'r ogon_bitmap_encoder \<Rightarrow> u8 list \<Rightarrow> nat \<Rightarrow> RDP_RECT list \<Rightarrow>
     nat \<times> BITMAP_DATA list \<Rightarrow> (nat \<times> BITMAP_DATA list) option option" where
  "compress_rects compress mem e data maxRectSize [] st = Some (Some st)"
| "compress_rects compress mem e data maxRectSize (r # rs) st =
     (case rect_fragments (unat (dstBytesPerPixel e)) maxRectSize r of
        None \<Rightarrow> None
      | Some frs \<Rightarrow>
          (case compress_fragments compress mem e data frs st of
             Some (Some st) \<Rightarrow> compress_rects compress mem e data maxRectSize rs st
           | r \<Rightarrow> r))"

definition bitmapUpdateHeaderSize :: u32 where "bitmapUpdateHeaderSize = 2"
definition bitmapUpdateDataHeaderSize :: u32 where "bitmapUpdateDataHeaderSize = 26"

text \<open>
  The bitmaps of a frame grouped into PDUs: the size of the current one and its bitmaps so far. The
  second result is whether all of them were sent; \<open>send\<close> is FreeRDP's \<open>BitmapUpdate\<close>.
\<close>

fun pack_bitmaps :: "(BITMAP_DATA list \<Rightarrow> bool) \<Rightarrow> u32 \<Rightarrow> u32 \<Rightarrow> BITMAP_DATA list \<Rightarrow> BITMAP_DATA list \<Rightarrow> BITMAP_DATA list list \<times> bool" where
  "pack_bitmaps send maxDataSize updatePduSize cur [] = ([], True)"
| "pack_bitmaps send maxDataSize updatePduSize cur (b # bs) =
     (let updatePduSize = updatePduSize + (bd_bitmapLength b + bitmapUpdateDataHeaderSize) in
      if updatePduSize > maxDataSize then ([], False)
      else let cur = cur @ [b];
               nextSize = (case bs of [] \<Rightarrow> 0 | b' # _ \<Rightarrow> bd_bitmapLength b' + bitmapUpdateDataHeaderSize)
           in if nextSize = 0 \<or> updatePduSize + nextSize > maxDataSize
              then if send cur then let (pdus, ok) = pack_bitmaps send maxDataSize 0 [] bs in (cur # pdus, ok)
                   else ([cur], False)
              else pack_bitmaps send maxDataSize updatePduSize cur bs)"

text \<open>The result and the updates that are sent.\<close>

definition ogon_send_bitmap_bits ::
    "(u8 list \<Rightarrow> nat \<Rightarrow> nat \<Rightarrow> u8 list option) \<Rightarrow> (nat \<Rightarrow> bool) \<Rightarrow> (BITMAP_DATA list \<Rightarrow> bool) \<Rightarrow> 'r ogon_bitmap_encoder \<Rightarrow>
     u8 list option \<Rightarrow> RDP_RECT list \<Rightarrow> (int \<times> BITMAP_DATA list list) option" where
  "ogon_send_bitmap_bits compress mem send e data rects =
     (case data of
        None \<Rightarrow> Some (-1, [])
      | Some data \<Rightarrow>
          if rects = [] then Some (-1, [])
          else let maxPduSize = multifragMaxRequestSize e;
                   maxRectSize = maxPduSize - bitmapUpdateHeaderSize - bitmapUpdateDataHeaderSize - 3
               in case compress_rects compress mem e data (unat maxRectSize) rects (unat (bmpStreamSize e), []) of
                    None \<Rightarrow> None
                  | Some None \<Rightarrow> Some (-1, [])
                  | Some (Some (_, bitmaps)) \<Rightarrow>
                      let (pdus, ok) = pack_bitmaps send (maxPduSize - bitmapUpdateHeaderSize) 0 [] bitmaps
                      in Some (if ok then 0 else -1, pdus))"

end
