(* ===== verification/Surface.thy ===== *)
theory Surface
  imports Front_Connection Damage Bitmap_Update
begin

text \<open>
  Sending a frame (\<open>rdp-server/graphics.c\<close>): the writers of the codec streams, the senders of the
  codecs, and \<open>ogon_send_surface_bits\<close>, which chooses one, simplifies the damage and hands the
  rectangles to it. The encoders of FreeRDP and \<open>ogon_openh264_compress\<close> are arguments.
\<close>

section \<open>The progressive RemoteFX stream\<close>

text \<open>The fields of FreeRDP's messages that are written; the lengths are those of the data.\<close>

record RFX_TILE =
  quantIdxY :: u8
  quantIdxCb :: u8
  quantIdxCr :: u8
  xIdx :: u16
  yIdx :: u16
  YLen :: u16
  CbLen :: u16
  CrLen :: u16
  YData :: "u8 list"
  CbData :: "u8 list"
  CrData :: "u8 list"

record RFX_MESSAGE =
  frameIdx :: u32
  rfx_rects :: "RDP_RECT list"
  numQuant :: u8
  quantVals :: "u32 list"
  rfx_tiles :: "RFX_TILE list"

definition tile_data_size :: "RFX_TILE \<Rightarrow> u32" where
  "tile_data_size t = ucast (YLen t) + ucast (CbLen t) + ucast (CrLen t)"

definition tile_items :: "RFX_TILE \<Rightarrow> wire_item list" where
  "tile_items t =
     [W16 0xCCC5, W32 (22 + tile_data_size t), W8 (quantIdxY t), W8 (quantIdxCb t), W8 (quantIdxCr t), W16 (xIdx t), W16 (yIdx t),
      W8 0, W16 (YLen t), W16 (CbLen t), W16 (CrLen t), W16 0,
      WBytes (take (unat (YLen t)) (YData t)), WBytes (take (unat (CbLen t)) (CbData t)), WBytes (take (unat (CrLen t)) (CrData t))]"

text \<open>The ten quantisation values of a component, two to a byte, in the order of the graphics pipeline.\<close>

definition quant_items :: "u32 list \<Rightarrow> wire_item list" where
  "quant_items qv =
     [W8 (ucast (qv ! 0 + push_bit 4 (qv ! 2))), W8 (ucast (qv ! 1 + push_bit 4 (qv ! 3))), W8 (ucast (qv ! 5 + push_bit 4 (qv ! 4))),
      W8 (ucast (qv ! 6 + push_bit 4 (qv ! 8))), W8 (ucast (qv ! 7 + push_bit 4 (qv ! 9)))]"

definition rect16_items :: "RDP_RECT \<Rightarrow> wire_item list" where
  "rect16_items r = [W16 (rr_x r), W16 (rr_y r), W16 (rr_width r), W16 (rr_height r)]"

definition tiles_data_size :: "RFX_MESSAGE \<Rightarrow> u32" where
  "tiles_data_size msg = of_nat (length (rfx_tiles msg)) * 22 + sum_list (map tile_data_size (rfx_tiles msg))"

definition region_len :: "RFX_MESSAGE \<Rightarrow> u32" where
  "region_len msg = 18 + of_nat (length (rfx_rects msg)) * 8 + ucast (numQuant msg) * 5 + tiles_data_size msg"

definition region_items :: "RFX_MESSAGE \<Rightarrow> wire_item list" where
  "region_items msg =
     [W16 0xCCC4, W32 (region_len msg), W8 64, W16 (of_nat (length (rfx_rects msg))), W8 (numQuant msg), W8 0, W8 0,
      W16 (of_nat (length (rfx_tiles msg))), W32 (tiles_data_size msg)] @
     concat (map rect16_items (rfx_rects msg)) @
     concat (map (\<lambda>i. quant_items (drop (10 * i) (quantVals msg))) [0..<unat (numQuant msg)]) @
     concat (map tile_items (rfx_tiles msg))"

text \<open>
  The blocks with the capacity that is ensured before each of them. The result is whether all were
  written and what was; a block that does not fit the ensured capacity is a write outside the stream,
  None.
\<close>

definition progressive_blocks :: "RFX_MESSAGE \<Rightarrow> (u32 \<times> wire_item list) list" where
  "progressive_blocks msg =
     [(12, [W16 0xCCC0, W32 12, W32 0xCACCACCA, W16 0x0100]),
      (10, [W16 0xCCC3, W32 10, W8 0, W16 64, W8 0]),
      (12, [W16 0xCCC1, W32 12, W32 (frameIdx msg), W16 1]),
      (region_len msg, region_items msg),
      (6, [W16 0xCCC2, W32 6])]"

fun write_blocks :: "(u32 \<Rightarrow> bool) \<Rightarrow> (u32 \<times> wire_item list) list \<Rightarrow> (bool \<times> wire_item list) option" where
  "write_blocks grow [] = Some (True, [])"
| "write_blocks grow ((blockLen, items) # bs) =
     (if \<not> grow blockLen then Some (False, [])
      else if wire_size items > unat blockLen then None
      else map_option (\<lambda>(ok, rest). (ok, items @ rest)) (write_blocks grow bs))"

definition ogon_rfx_write_message_progressive_simple ::
    "rlgr_mode \<Rightarrow> (u32 \<Rightarrow> bool) \<Rightarrow> RFX_MESSAGE \<Rightarrow> (bool \<times> wire_item list) option" where
  "ogon_rfx_write_message_progressive_simple mode grow msg =
     (if mode \<noteq> RLGR1 then Some (False, []) else write_blocks grow (progressive_blocks msg))"

section \<open>Senders\<close>

text \<open>The functions that FreeRDP and the codecs provide, and what sending reports.\<close>

datatype h264_mode = COMPRESS_MODE_AVC420 | COMPRESS_MODE_AVC444V1_A | COMPRESS_MODE_AVC444V2_A | COMPRESS_MODE_AVC444VX_B

record SURFACE_BITS_COMMAND =
  sb_codecID :: u32
  sb_width :: u32
  sb_height :: u32
  sb_data :: "u8 list"

record codecs =
  rfx_encode_message :: "rlgr_mode \<Rightarrow> RDP_RECT list \<Rightarrow> u8 list \<Rightarrow> u32 \<Rightarrow> u32 \<Rightarrow> u32 \<Rightarrow> RFX_MESSAGE option"
  rfx_write_message :: "RFX_MESSAGE \<Rightarrow> u8 list option"
  bitmap_compress :: "u8 list \<Rightarrow> nat \<Rightarrow> nat \<Rightarrow> u8 list option"
  bitmap_mem :: "nat \<Rightarrow> bool"
  planar_compress :: "u8 list \<Rightarrow> u32 \<Rightarrow> u32 \<Rightarrow> u32 \<Rightarrow> u8 list option"
  ogon_openh264_compress :: "u32 \<Rightarrow> u32 \<Rightarrow> u8 list \<Rightarrow> h264_mode \<Rightarrow> bool \<times> u8 list \<times> bool"
  stream_capacity :: "u32 \<Rightarrow> bool"
  wire_fmt :: wire
  surface_bits_set :: bool
  bandwidth_start :: "u16 \<Rightarrow> bool"
  bandwidth_stop :: "u16 \<Rightarrow> bool"
  bitmap_update :: "BITMAP_DATA list \<Rightarrow> bool"

datatype frame_out =
    GfxStartFrame u32
  | GfxEndFrame u32
  | SurfaceFrameMarker bool u32
  | WireToSurface1 RDPGFX_WIRE_TO_SURFACE_PDU_1
  | WireToSurface2 RDPGFX_WIRE_TO_SURFACE_PDU_2
  | SurfaceBits SURFACE_BITS_COMMAND
  | BitmapUpdate "BITMAP_DATA list"

text \<open>The result of a sender: its return value and what it sent. None is an access outside the frame buffer.\<close>

type_synonym sender_result = "(int \<times> frame_out list) option"

definition RDPGFX_CODECID_CAPROGRESSIVE :: u16 where "RDPGFX_CODECID_CAPROGRESSIVE = 0x9"
definition RDPGFX_CODECID_CAVIDEO :: u16 where "RDPGFX_CODECID_CAVIDEO = 0x3"
definition RDPGFX_CODECID_PLANAR :: u16 where "RDPGFX_CODECID_PLANAR = 0xA"
definition RDPGFX_CODECID_AVC420 :: u16 where "RDPGFX_CODECID_AVC420 = 0xB"
definition RDPGFX_CODECID_AVC444 :: u16 where "RDPGFX_CODECID_AVC444 = 0xE"
definition RDPGFX_CODECID_AVC444v2 :: u16 where "RDPGFX_CODECID_AVC444v2 = 0xF"

definition misaligned :: "RDP_RECT \<Rightarrow> bool" where
  "misaligned r \<longleftrightarrow> unat (rr_x r) mod 64 \<noteq> 0 \<or> unat (rr_y r) mod 64 \<noteq> 0"

text \<open>
  A message between the measurement of the bandwidth; the result is the value to return with, if the
  sender has to stop.
\<close>

definition measured :: "codecs \<Rightarrow> 'r ogon_front_connection \<Rightarrow> frame_out \<Rightarrow> int option \<times> frame_out list" where
  "measured C f out =
     (if \<not> ogon_bwmgmt_detect_bandwidth_start (bwState f) (bandwidth_start C) then (Some (-1), [])
      else if \<not> ogon_bwmgmt_detect_bandwidth_stop (bwState f) (bandwidth_stop C) then (Some (-1), [out])
      else (None, [out]))"

fun progressive_rects ::
    "codecs \<Rightarrow> 'r ogon_front_connection \<Rightarrow> 'r ogon_bitmap_encoder \<Rightarrow> u8 list \<Rightarrow> int \<Rightarrow> RDP_RECT list \<Rightarrow> sender_result" where
  "progressive_rects C f e data ret [] = Some (ret, [])"
| "progressive_rects C f e data ret (r # rs) =
     (if misaligned r then Some (0, [])
      else case rfx_encode_message C RLGR1 [r] data (desktopWidth e) (desktopHeight e) (scanLine e) of
        None \<Rightarrow> Some (0, [])
      | Some msg \<Rightarrow>
          (case ogon_rfx_write_message_progressive_simple RLGR1 (stream_capacity C) msg of
             None \<Rightarrow> None
           | Some (ok, items) \<Rightarrow>
               let bytes = wire_bytes (wire_fmt C) items;
                   pdu = \<lparr>w2_surfaceId = ucast (rdpgfxOutputSurface f), w2_codecId = RDPGFX_CODECID_CAPROGRESSIVE, w2_codecContextId = 0,
                          w2_pixelFormat = GFX_PIXEL_FORMAT_ARGB_8888, w2_bitmapDataLength = of_nat (length bytes), w2_bitmapData = bytes\<rparr>
               in case measured C f (WireToSurface2 pdu) of
                    (Some v, outs) \<Rightarrow> Some (v, outs)
                  | (None, outs) \<Rightarrow>
                      map_option (\<lambda>(v, rest). (v, outs @ rest)) (progressive_rects C f e data (if ok then 0 else -1) rs)))"

text \<open>\<open>backend\<close> is whether the connection has a backend of its own.\<close>

definition ogon_send_gfx_rfx_progressive_bits ::
    "codecs \<Rightarrow> bool \<Rightarrow> 'r ogon_front_connection \<Rightarrow> 'r ogon_bitmap_encoder \<Rightarrow> u8 list option \<Rightarrow> RDP_RECT list \<Rightarrow> sender_result" where
  "ogon_send_gfx_rfx_progressive_bits C have_backend f e data rects =
     (case data of
        None \<Rightarrow> Some (0, [])
      | Some data \<Rightarrow> if \<not> have_backend then Some (0, []) else progressive_rects C f e data 0 rects)"

text \<open>The rectangle is encoded as a picture of its own, from its first pixel on.\<close>

definition pixel_offset :: "'r ogon_bitmap_encoder \<Rightarrow> RDP_RECT \<Rightarrow> nat" where
  "pixel_offset e r = unat (rr_y r) * unat (scanLine e) + unat (rr_x r) * unat (bytesPerPixel e)"

fun rfx_gfx_rects ::
    "codecs \<Rightarrow> 'r ogon_front_connection \<Rightarrow> 'r ogon_bitmap_encoder \<Rightarrow> u8 list \<Rightarrow> RDP_RECT list \<Rightarrow> sender_result" where
  "rfx_gfx_rects C f e data [] = Some (0, [])"
| "rfx_gfx_rects C f e data (r # rs) =
     (if misaligned r then Some (0, [])
      else if pixel_offset e r > length data then None
      else case rfx_encode_message C RLGR3 [r\<lparr>rr_x := 0, rr_y := 0\<rparr>] (drop (pixel_offset e r) data)
                  (ucast (rr_width r)) (ucast (rr_height r)) (scanLine e) of
        None \<Rightarrow> Some (0, [])
      | Some msg \<Rightarrow>
          (case rfx_write_message C msg of
             None \<Rightarrow> Some (0, [])
           | Some bytes \<Rightarrow>
               let pdu = \<lparr>w1_surfaceId = ucast (rdpgfxOutputSurface f), w1_codecId = RDPGFX_CODECID_CAVIDEO,
                          w1_pixelFormat = GFX_PIXEL_FORMAT_ARGB_8888, w1_destRect = rect16_of r,
                          w1_bitmapDataLength = of_nat (length bytes), w1_bitmapData = bytes\<rparr>
               in case measured C f (WireToSurface1 pdu) of
                    (Some v, outs) \<Rightarrow> Some (v, outs)
                  | (None, outs) \<Rightarrow> map_option (\<lambda>(v, rest). (v, outs @ rest)) (rfx_gfx_rects C f e data rs)))"

definition ogon_send_gfx_rfx_bits ::
    "codecs \<Rightarrow> bool \<Rightarrow> 'r ogon_front_connection \<Rightarrow> 'r ogon_bitmap_encoder \<Rightarrow> u8 list option \<Rightarrow> RDP_RECT list \<Rightarrow> sender_result" where
  "ogon_send_gfx_rfx_bits C have_backend f e data rects =
     (case data of
        None \<Rightarrow> Some (0, [])
      | Some data \<Rightarrow> if \<not> have_backend then Some (0, []) else rfx_gfx_rects C f e data rects)"

definition ogon_send_gfx_debug_bitmap ::
    "codecs \<Rightarrow> 'r ogon_front_connection \<Rightarrow> 'r ogon_bitmap_encoder \<Rightarrow> u8 list \<Rightarrow> frame_out list" where
  "ogon_send_gfx_debug_bitmap C f e debug_buffer =
     (case planar_compress C debug_buffer (desktopWidth e) 8 (desktopWidth e * 4) of
        None \<Rightarrow> []
      | Some bytes \<Rightarrow>
          [WireToSurface1 \<lparr>w1_surfaceId = ucast (rdpgfxOutputSurface f), w1_codecId = RDPGFX_CODECID_PLANAR,
             w1_pixelFormat = GFX_PIXEL_FORMAT_ARGB_8888,
             w1_destRect = \<lparr>rect_left = 0, rect_top = 0, rect_right = ucast (desktopWidth e), rect_bottom = 8\<rparr>,
             w1_bitmapDataLength = of_nat (length bytes), w1_bitmapData = bytes\<rparr>])"

text \<open>The H.264 stream: a list of regions with their quality in front of the encoded picture.\<close>

definition ogon_write_avc420_bitmap_stream :: "codecs \<Rightarrow> RDP_RECT list \<Rightarrow> u8 list \<Rightarrow> wire_item list option" where
  "ogon_write_avc420_bitmap_stream C rects encodedData =
     (let metablock = 4 + of_nat (length rects) * 10 in
      if \<not> stream_capacity C (metablock + of_nat (length encodedData)) then None
      else Some ([W32 (of_nat (length rects))] @
        concat (map (\<lambda>r. [W16 (rr_x r), W16 (rr_y r), W16 (rr_x r + rr_width r), W16 (rr_y r + rr_height r)]) rects) @
        concat (map (\<lambda>_. [W8 18, W8 100]) rects) @ [WBytes encodedData]))"

text \<open>
  The two pictures of the full AVC444 mode, or the single one of AVC420, and whether the quality can be
  improved later.
\<close>

definition h264_picture ::
    "codecs \<Rightarrow> u32 \<Rightarrow> u32 \<Rightarrow> u8 list \<Rightarrow> RDP_RECT list \<Rightarrow> h264_mode \<Rightarrow> (wire_item list \<times> nat) option \<times> bool" where
  "h264_picture C maxFrameRate target data rects mode =
     (let (rv, encoded, optimizable) = ogon_openh264_compress C maxFrameRate target data mode in
      if \<not> rv \<or> length encoded < 1 then (None, optimizable)
      else (map_option (\<lambda>items. (items, length encoded)) (ogon_write_avc420_bitmap_stream C rects encoded), optimizable))"

definition h264_stream ::
    "codecs \<Rightarrow> 'r ogon_front_connection \<Rightarrow> u32 \<Rightarrow> u8 list \<Rightarrow> RDP_RECT list \<Rightarrow> wire_item list option \<times> bool" where
  "h264_stream C f target data rects =
     (let useAVC444 = avc444Supported (rdpgfx f);
          full = useAVC444 \<and> rdpgfxH264EnableFullAVC444 f;
          mode = (if \<not> full then COMPRESS_MODE_AVC420
                  else if avc444v2Supported (rdpgfx f) then COMPRESS_MODE_AVC444V2_A else COMPRESS_MODE_AVC444V1_A);
          maxFrameRate = (if full then word_of_int (fps (bwState f)) * 2 else word_of_int (fps (bwState f)));
          target = (if full then target div 2 else target)
      in case h264_picture C maxFrameRate target data rects mode of
           (None, optimizable) \<Rightarrow> (None, optimizable)
         | (Some (items, len), optimizable) \<Rightarrow>
             let info = of_nat len + 4 + of_nat (length rects) * 10;
                 info = (if full then info else info OR push_bit 30 1)
             in if useAVC444 \<and> \<not> stream_capacity C 4 then (None, optimizable)
                else let items = (if useAVC444 then W32 info # items else items) in
                     if \<not> full then (Some items, optimizable)
                     else case h264_picture C maxFrameRate target data rects COMPRESS_MODE_AVC444VX_B of
                            (None, optimizable) \<Rightarrow> (None, optimizable)
                          | (Some (items2, _), _) \<Rightarrow> (Some (items @ items2), False))"

text \<open>The whole desktop is always sent. None is a fault of the bandwidth management.\<close>

definition ogon_send_gfx_h264_bits ::
    "codecs \<Rightarrow> 'r ogon_front_connection \<Rightarrow> 'r ogon_bitmap_encoder \<Rightarrow> u8 list \<Rightarrow> (int \<times> frame_out list \<times> 'r ogon_front_connection) option" where
  "ogon_send_gfx_h264_bits C f e data =
     (case ogon_bwmgtm_calc_max_target_frame_size (bwState f) of
        None \<Rightarrow> None
      | Some target \<Rightarrow>
          let desktopRect = \<lparr>rr_x = 0, rr_y = 0, rr_width = ucast (desktopWidth e), rr_height = ucast (desktopHeight e)\<rparr>;
              (stream, optimizable) = h264_stream C f target data [desktopRect];
              f' = (if optimizable then (if rdpgfxProgressiveTicks f = 0 then f\<lparr>rdpgfxProgressiveTicks := 1\<rparr> else f)
                    else f\<lparr>rdpgfxProgressiveTicks := 0\<rparr>)
          in case stream of
               None \<Rightarrow> Some (0, [], f')
             | Some items \<Rightarrow>
                 let bytes = wire_bytes (wire_fmt C) items;
                     codec = (if avc444Supported (rdpgfx f)
                              then (if avc444v2Supported (rdpgfx f) then RDPGFX_CODECID_AVC444v2 else RDPGFX_CODECID_AVC444)
                              else RDPGFX_CODECID_AVC420);
                     pdu = \<lparr>w1_surfaceId = ucast (rdpgfxOutputSurface f), w1_codecId = codec, w1_pixelFormat = GFX_PIXEL_FORMAT_ARGB_8888,
                            w1_destRect = rect16_of desktopRect, w1_bitmapDataLength = of_nat (length bytes), w1_bitmapData = bytes\<rparr>
                 in case measured C f (WireToSurface1 pdu) of
                      (Some v, outs) \<Rightarrow> Some (v, outs, f)
                    | (None, outs) \<Rightarrow> Some (0, outs, f'))"

definition ogon_send_rdp_rfx_bits ::
    "codecs \<Rightarrow> bool \<Rightarrow> 'r ogon_front_connection \<Rightarrow> 'r ogon_bitmap_encoder \<Rightarrow> u8 list \<Rightarrow> RDP_RECT list \<Rightarrow> sender_result" where
  "ogon_send_rdp_rfx_bits C have_backend f e data rects =
     (if \<not> have_backend then Some (0, [])
      else if \<not> surface_bits_set C then Some (-1, [])
      else case rfx_encode_message C (rfxMode f) rects data (DesktopWidth (settings f)) (DesktopHeight (settings f)) (scanLine e) of
        None \<Rightarrow> Some (0, [])
      | Some msg \<Rightarrow>
          (case rfx_write_message C msg of
             None \<Rightarrow> Some (0, [])
           | Some bytes \<Rightarrow>
               if of_nat (length bytes) + 22 > MultifragMaxRequestSize (settings f) then Some (0, [])
               else let cmd = SurfaceBits \<lparr>sb_codecID = RemoteFxCodecId (settings f), sb_width = desktopWidth e,
                          sb_height = desktopHeight e, sb_data = bytes\<rparr>
                    in case measured C f cmd of
                         (Some v, outs) \<Rightarrow> Some (v, outs)
                       | (None, outs) \<Rightarrow> Some (0, outs)))"

section \<open>A frame\<close>

text \<open>The marker, with the front connection after it: the identifier advances at the end of a frame.\<close>

definition ogon_send_frame_marker :: "bool \<Rightarrow> 'r ogon_front_connection \<Rightarrow> frame_out list \<times> 'r ogon_front_connection" where
  "ogon_send_frame_marker begin_frame f =
     (let frame = nextFrameId (bwState f);
          next = (\<lambda>f. f\<lparr>bwState := (bwState f)\<lparr>nextFrameId := nextFrameId (bwState f) + 1\<rparr>\<rparr>);
          (outs, f) =
            (if rdpgfxConnected f then (if begin_frame then ([GfxStartFrame frame], f) else ([GfxEndFrame frame], f))
             else if SurfaceFrameMarkerEnabled (settings f) \<and> codecMode f \<noteq> CODEC_MODE_BMP
             then ([SurfaceFrameMarker begin_frame frame], if begin_frame then f else next f)
             else ([], f))
      in (outs, if begin_frame then f else next f))"

text \<open>
  Debug information is rendered into the frame buffer. The text and the glyphs are arguments; None is a
  write outside the buffer.
\<close>

fun fill_pixels :: "nat \<Rightarrow> nat \<Rightarrow> u32 \<Rightarrow> u8 list \<Rightarrow> u8 list option" where
  "fill_pixels 0 pos v buf = Some buf"
| "fill_pixels (Suc n) pos v buf = Option.bind (poke pos v buf) (fill_pixels n (pos + 4) v)"

fun fill_lines :: "nat \<Rightarrow> nat \<Rightarrow> nat \<Rightarrow> u32 \<Rightarrow> u8 list \<Rightarrow> u8 list option" where
  "fill_lines 0 pos line v buf = Some buf"
| "fill_lines (Suc n) pos line v buf = Option.bind (fill_pixels (line div 4) pos v buf) (fill_lines n (pos + line) line v)"

fun poke_pixels :: "nat list \<Rightarrow> u32 \<Rightarrow> u8 list \<Rightarrow> u8 list option" where
  "poke_pixels [] v buf = Some buf"
| "poke_pixels (p # ps) v buf = Option.bind (poke p v buf) (poke_pixels ps v)"

definition glyph_of :: "u8 \<Rightarrow> u8" where
  "glyph_of c = (if c < 32 \<or> c > 126 then 46 else c)"

text \<open>The positions of the set pixels of the character at place \<open>i\<close>.\<close>

definition glyph_pixels :: "(u8 \<Rightarrow> u8 list) \<Rightarrow> nat \<Rightarrow> bool \<Rightarrow> nat \<Rightarrow> u8 \<Rightarrow> nat list" where
  "glyph_pixels font8x8 line vFlip i c =
     concat (map (\<lambda>y. let z = (if vFlip then 7 - y else y) in
         map (\<lambda>x. line * z + i * 36 + 4 * x) (filter (\<lambda>x. bit (font8x8 (glyph_of c) ! y) x) [0..<8])) [0..<8])"

definition ogon_render_string ::
    "(u8 \<Rightarrow> u8 list) \<Rightarrow> u8 list \<Rightarrow> u32 \<Rightarrow> u32 \<Rightarrow> u8 list \<Rightarrow> nat \<Rightarrow> bool \<Rightarrow> u8 list option" where
  "ogon_render_string font8x8 str fg bg buf line vFlip =
     (let len = (if length str * 4 > line then line div 4 else length str) in
      Option.bind (fill_lines 8 0 line bg buf)
        (poke_pixels (concat (map (\<lambda>i. glyph_pixels font8x8 line vFlip i (str ! i)) [0..<len])) fg))"

text \<open>
  The information is drawn into the frame buffer of the connection's own backend, or into the debug
  buffer of the encoder. \<open>own\<close> is that backend, if it is another one than the one whose frames are
  sent.
\<close>

record debug_env =
  debug_font :: "u8 \<Rightarrow> u8 list"
  debug_text :: "u8 list"
  debug_mem :: bool
  debug_buffer :: "u8 list"
  debug_own :: "dmgbuf option"

definition render_into :: "debug_env \<Rightarrow> u8 list \<Rightarrow> nat \<Rightarrow> bool \<Rightarrow> u8 list option" where
  "render_into D buf line vFlip = ogon_render_string (debug_font D) (debug_text D) 0x00FF00 0x000000 buf line vFlip"

text \<open>The result, the frame buffer of the connection's own backend and the debug buffer.\<close>

definition ogon_render_debug_info ::
    "debug_env \<Rightarrow> 'r ogon_bitmap_encoder \<Rightarrow> bool \<Rightarrow> dmgbuf \<Rightarrow> (bool \<times> dmgbuf \<times> u8 list) option" where
  "ogon_render_debug_info D e embedded own =
     (if embedded
      then (case ogon_dmgbuf_get_data own of
              None \<Rightarrow> None
            | Some None \<Rightarrow> Some (False, own, debug_buffer D)
            | Some (Some data) \<Rightarrow>
                if \<not> debug_mem D then Some (False, own, debug_buffer D)
                else map_option (\<lambda>data. (True, Some (take OGON_DMGBUF_POS_DATA (the own) @ data), debug_buffer D))
                       (render_into D data (unat (scanLine e)) False))
      else if \<not> debug_mem D then Some (False, own, debug_buffer D)
      else map_option (\<lambda>buf. (True, own, buf)) (render_into D (debug_buffer D) (unat (desktopWidth e * 4)) True))"

text \<open>Which sender the codec mode selects; None is the error of an invalid mode.\<close>

definition h264_switch :: "'r ogon_front_connection \<Rightarrow> 'r ogon_bitmap_encoder \<Rightarrow> 'r ogon_front_connection" where
  "h264_switch f e =
     (if rdpgfxH264Supported f \<and> codecMode f \<noteq> CODEC_MODE_H264 \<and> h264_context e then f\<lparr>codecMode := CODEC_MODE_H264\<rparr> else f)"

definition send_graphics ::
    "codecs \<Rightarrow> bool \<Rightarrow> 'r ogon_front_connection \<Rightarrow> 'r ogon_bitmap_encoder \<Rightarrow> u8 list option \<Rightarrow> RDP_RECT list \<Rightarrow>
     (int \<times> frame_out list \<times> 'r ogon_front_connection) option" where
  "send_graphics C have_backend f e data rects =
     (let keep = (\<lambda>f. map_option (\<lambda>(ret, outs). (ret, outs, f))) in
      case codecMode f of
        CODEC_MODE_RFX1 \<Rightarrow> (case data of None \<Rightarrow> None | Some data \<Rightarrow> keep f (ogon_send_rdp_rfx_bits C have_backend f e data rects))
      | CODEC_MODE_RFX2 \<Rightarrow>
          keep (if have_backend \<and> data \<noteq> None then f\<lparr>rfxMode := RLGR3\<rparr> else f) (ogon_send_gfx_rfx_bits C have_backend f e data rects)
      | CODEC_MODE_RFX3 \<Rightarrow>
          keep (if have_backend \<and> data \<noteq> None then f\<lparr>rfxMode := RLGR1\<rparr> else f)
            (ogon_send_gfx_rfx_progressive_bits C have_backend f e data rects)
      | CODEC_MODE_BMP \<Rightarrow>
          keep f (map_option (\<lambda>(ret, pdus). (ret, map BitmapUpdate pdus))
            (ogon_send_bitmap_bits (bitmap_compress C) (bitmap_mem C) (bitmap_update C) e data rects))
      | CODEC_MODE_H264 \<Rightarrow> (case data of None \<Rightarrow> None | Some data \<Rightarrow> ogon_send_gfx_h264_bits C f e data)
      | CODEC_MODE_NSC \<Rightarrow> None)"

text \<open>
  The frame between its markers. \<open>dmg\<close> is the simplified damage, \<open>rects_mem\<close> whether its rectangles can
  be stored. The result is the return value, what was sent, the front connection and the segment of the
  backend; None is a fault.
\<close>

definition send_frame ::
    "'r region16 \<Rightarrow> codecs \<Rightarrow> debug_env \<Rightarrow> bool \<Rightarrow> bool \<Rightarrow> 'r ogon_front_connection \<Rightarrow> 'r ogon_bitmap_encoder \<Rightarrow> dmgbuf \<Rightarrow> nat \<Rightarrow> 'r \<Rightarrow>
     (int \<times> frame_out list \<times> 'r ogon_front_connection \<times> dmgbuf) option" where
  "send_frame R C D have_backend rects_mem f e segment tileSize dmg =
     (let embedded = codecMode f \<noteq> CODEC_MODE_H264;
          own = (case debug_own D of None \<Rightarrow> segment | Some own \<Rightarrow> own)
      in case (if showDebugInfo f then ogon_render_debug_info D e embedded own else Some (False, own, debug_buffer D)) of
           None \<Rightarrow> None
         | Some (rendered, own, dbg) \<Rightarrow>
             let segment = (case debug_own D of None \<Rightarrow> own | Some _ \<Rightarrow> segment);
                 dmg = (if rendered \<and> embedded
                        then snd (reg_union R dmg \<lparr>rect_left = 0, rect_top = 0, rect_right = ucast (desktopWidth e), rect_bottom = of_nat tileSize\<rparr>)
                        else dmg);
                 (nrects, e) = ogon_update_encoder_rects R rects_mem e dmg;
                 f = f\<lparr>encoder := Some e\<rparr>;
                 (begin_outs, f) = ogon_send_frame_marker True f
             in case ogon_dmgbuf_get_data segment of
                  None \<Rightarrow> None
                | Some data \<Rightarrow>
                    (case send_graphics C have_backend f e data (take nrects (rdpRects e)) of
                       None \<Rightarrow> None
                     | Some (ret, outs, f) \<Rightarrow>
                         let f = f\<lparr>fps_measure_currentfps := fps_measure_currentfps f + 1\<rparr>;
                             debug_outs = (if showDebugInfo f \<and> \<not> embedded then ogon_send_gfx_debug_bitmap C f e dbg else []);
                             (end_outs, f) = ogon_send_frame_marker False f
                         in Some (ret, begin_outs @ outs @ debug_outs @ end_outs, f, segment)))"

text \<open>
  The whole of \<open>ogon_send_surface_bits\<close>: the accumulated damage is cleared on every path that comes to
  simplify it. A missing encoder, backend or frame buffer is a null pointer that is dereferenced, a
  fault.
\<close>

definition clear_damage :: "'r region16 \<Rightarrow> 'r ogon_front_connection \<Rightarrow> 'r ogon_front_connection" where
  "clear_damage R f = f\<lparr>encoder := map_option (\<lambda>e. e\<lparr>accumulatedDamage := reg_clear R\<rparr>) (encoder f)\<rparr>"

definition send_damage ::
    "'r region16 \<Rightarrow> codecs \<Rightarrow> debug_env \<Rightarrow> bool \<Rightarrow> bool \<Rightarrow> 'r ogon_bitmap_encoder \<Rightarrow> ogon_backend_screen \<Rightarrow> u8 list \<Rightarrow> 'r front_link \<Rightarrow>
     (int \<times> frame_out list \<times> 'r front_link) option" where
  "send_damage R C D have_backend rects_mem e b data s =
     (let connected = rdpgfxConnected (front s); tileSize = (if connected then 64 else 32) in
      case simplify_damagedRegion R (reg_clear R) data e (accumulatedDamage e) tileSize tileSize connected of
        None \<Rightarrow> None
      | Some (ok, dmg, view, _) \<Rightarrow>
          let e = e\<lparr>clientView := view\<rparr>; s = upd_front (\<lambda>f. f\<lparr>encoder := Some e\<rparr>) s in
          if \<not> ok then Some (-1, [], upd_front (clear_damage R) s)
          else if reg_is_empty R dmg \<and> rdpgfxProgressiveTicks (front s) = 0 then Some (0, [], upd_front (clear_damage R) s)
          else let f = (if reg_is_empty R dmg then front s else (front s)\<lparr>rdpgfxProgressiveTicks := 0\<rparr>) in
               map_option (\<lambda>(ret, outs, f, segment).
                   (ret, outs, s\<lparr>front := clear_damage R f, backend := Some (b\<lparr>damage := segment\<rparr>)\<rparr>))
                 (send_frame R C D have_backend rects_mem f e (damage b) tileSize dmg))"

definition ogon_send_surface_bits ::
    "'r region16 \<Rightarrow> codecs \<Rightarrow> debug_env \<Rightarrow> (front_out \<Rightarrow> bool) \<Rightarrow> bool \<Rightarrow> bool \<Rightarrow> 'r front_link \<Rightarrow>
     (int \<times> frame_out list \<times> 'r front_link) option" where
  "ogon_send_surface_bits R C D gfx_ok have_backend rects_mem s =
     (if rdpgfxRequired (front s) \<and> \<not> rdpgfxConnected (front s) then Some (-1, [], s)
      else let (ready, s) = (if rdpgfxRequired (front s) \<and> rdpgfxOutputSurface (front s) = 0 then ogon_rdpgfx_init_output R gfx_ok s
                             else (True, s))
           in if \<not> ready then Some (-1, [], s)
              else case (encoder (front s), backend s) of
                (Some e, Some b) \<Rightarrow>
                  let s = (if rdpgfxRequired (front s) then upd_front (\<lambda>f. h264_switch f e) s else s) in
                  if codecMode (front s) = CODEC_MODE_NSC then Some (-1, [], s)
                  else (case ogon_dmgbuf_get_data (damage b) of
                          Some (Some data) \<Rightarrow> send_damage R C D have_backend rects_mem e b data s
                        | _ \<Rightarrow> None)
              | _ \<Rightarrow> None)"

section \<open>What a frame leaves alone\<close>

definition steady :: "'r ogon_front_connection \<Rightarrow> 'r ogon_front_connection \<Rightarrow> bool" where
  "steady f f' \<longleftrightarrow> front_state f' = front_state f \<and> codecMode f' = codecMode f \<and> rdpgfxRequired f' = rdpgfxRequired f \<and>
     rdpgfxConnected f' = rdpgfxConnected f \<and> settings f' = settings f \<and> showDebugInfo f' = showDebugInfo f \<and>
     rdpgfxOutputSurface f' = rdpgfxOutputSurface f"

lemma frame_marker_keeps: "ogon_send_frame_marker b f = (outs, f') \<Longrightarrow> steady f f' \<and> encoder f' = encoder f"
  by (auto simp: ogon_send_frame_marker_def Let_def steady_def split: if_splits)

lemma h264_keeps: "ogon_send_gfx_h264_bits C f e data = Some (ret, outs, f') \<Longrightarrow> steady f f' \<and> encoder f' = encoder f"
  by (auto simp: ogon_send_gfx_h264_bits_def Let_def steady_def split: option.splits if_splits prod.splits)

lemma send_graphics_keeps: "send_graphics C hb f e data rects = Some (ret, outs, f') \<Longrightarrow> steady f f' \<and> encoder f' = encoder f"
  unfolding send_graphics_def Let_def
  by (cases "codecMode f") (auto simp: steady_def dest: h264_keeps split: option.splits if_splits prod.splits)

lemma update_rects_keeps:
  "ogon_update_encoder_rects R mem e dmg = (n, e') \<Longrightarrow> \<exists>rs k. e' = e\<lparr>rdpRects := rs, rdpRectsAllocated := k\<rparr>"
  by (auto simp: ogon_update_encoder_rects_def Let_def split: if_splits)
    (metis ogon_bitmap_encoder.surjective ogon_bitmap_encoder.update_convs(12) ogon_bitmap_encoder.update_convs(11))+

lemma send_frame_keeps:
  assumes "send_frame R C D hb mem f e segment tileSize dmg = Some (ret, outs, f', segment')"
  shows "steady f f' \<and> (\<exists>rs k. encoder f' = Some (e\<lparr>rdpRects := rs, rdpRectsAllocated := k\<rparr>))"
proof -
  let ?own = "case debug_own D of None \<Rightarrow> segment | Some own \<Rightarrow> own"
  obtain rendered own dbg where
    dbg: "(if showDebugInfo f then ogon_render_debug_info D e (codecMode f \<noteq> CODEC_MODE_H264) ?own else Some (False, ?own, debug_buffer D)) =
      Some (rendered, own, dbg)"
    using assms unfolding send_frame_def Let_def by (auto split: option.splits)
  define dmg1 where "dmg1 = (if rendered \<and> codecMode f \<noteq> CODEC_MODE_H264
    then snd (reg_union R dmg \<lparr>rect_left = 0, rect_top = 0, rect_right = ucast (desktopWidth e), rect_bottom = of_nat tileSize\<rparr>) else dmg)"
  define seg where "seg = (case debug_own D of None \<Rightarrow> own | Some _ \<Rightarrow> segment)"
  obtain n e1 where u: "ogon_update_encoder_rects R mem e dmg1 = (n, e1)" by (cases "ogon_update_encoder_rects R mem e dmg1")
  obtain o1 f1 where m1: "ogon_send_frame_marker True (f\<lparr>encoder := Some e1\<rparr>) = (o1, f1)"
    by (cases "ogon_send_frame_marker True (f\<lparr>encoder := Some e1\<rparr>)")
  note eq = assms [unfolded send_frame_def Let_def dbg option.case prod.case, folded dmg1_def seg_def, unfolded u prod.case m1]
  obtain data ret' o2 f2 where g: "ogon_dmgbuf_get_data seg = Some data" "send_graphics C hb f1 e1 data (take n (rdpRects e1)) = Some (ret', o2, f2)"
    using eq by (auto split: option.splits)
  let ?f2 = "f2\<lparr>fps_measure_currentfps := fps_measure_currentfps f2 + 1\<rparr>"
  obtain o3 f3 where m3: "ogon_send_frame_marker False ?f2 = (o3, f3)" by (cases "ogon_send_frame_marker False ?f2")
  have "f' = f3" using eq unfolding g option.case prod.case m3 by simp
  then have "steady f f' \<and> encoder f' = Some e1"
    using frame_marker_keeps [OF m1] send_graphics_keeps [OF g(2)] frame_marker_keeps [OF m3] by (simp add: steady_def)
  then show ?thesis using update_rects_keeps [OF u] by auto
qed

end
