(* ===== verification/Damage_Proofs.thy ===== *)
theory Damage_Proofs
  imports Damage
begin

text \<open>
  What the damage tracking does: comparing a rectangle brings the client view up to date there, and
  the damage that is left covers every pixel on which the view was stale.
\<close>

text \<open>
  A view brought up to date with a frame buffer on some pixels, and the pixels on which it was stale.
\<close>

definition updated :: "nat \<Rightarrow> u8 list \<Rightarrow> (nat \<times> nat) set \<Rightarrow> u8 list \<Rightarrow> u8 list \<Rightarrow> bool" where
  "updated line fb P view view' \<longleftrightarrow> length view' = length view \<and>
     (\<forall>k < length view. view' ! k = (if pixel_of line k \<in> P then fb ! k else view ! k))"

definition stale :: "nat \<Rightarrow> u8 list \<Rightarrow> (nat \<times> nat) set \<Rightarrow> u8 list \<Rightarrow> (nat \<times> nat) set" where
  "stale line fb P view = {p \<in> P. \<exists>k < length view. pixel_of line k = p \<and> view ! k \<noteq> fb ! k}"

text \<open>Rectangles inside the desktop of an encoder.\<close>

definition on_desktop :: "'r ogon_bitmap_encoder \<Rightarrow> RECTANGLE_16 \<Rightarrow> bool" where
  "on_desktop e r \<longleftrightarrow> unat (rect_right r) \<le> unat (desktopWidth e) \<and> unat (rect_bottom r) \<le> unat (desktopHeight e)"

section \<open>Comparing and copying\<close>

lemma row_int: "a + m \<le> length buf \<Longrightarrow> row buf (int a) (int m) = Some (take m (drop a buf))"
  by (simp add: row_def)

lemma put_row_result:
  assumes "a + m \<le> length dst" "length src = length dst"
  shows "length (put_row dst (int a) (take m (drop a src))) = length dst"
    "k < length dst \<Longrightarrow> put_row dst (int a) (take m (drop a src)) ! k = (if a \<le> k \<and> k < a + m then src ! k else dst ! k)"
  using assms by (auto simp: put_row_def nth_append min_absorb2)

lemma copy_rows_result:
  assumes "\<And>i. i < h \<Longrightarrow> a + i * line + m \<le> length dst" "length src = length dst"
  shows "\<exists>dst'. copy_rows h (int a) (int m) (int line) src dst = Some dst' \<and> length dst' = length dst \<and>
    (\<forall>k < length dst. dst' ! k = (if in_rows h a m line k then src ! k else dst ! k))"
  using assms
proof (induction h arbitrary: a dst)
  case (Suc h)
  have fits: "a + m \<le> length dst" using Suc.prems(1) [of 0] by simp
  let ?d = "put_row dst (int a) (take m (drop a src))"
  have "a + line + i * line + m \<le> length ?d" if "i < h" for i
    using Suc.prems(1) [of "Suc i"] that put_row_result(1) [OF fits Suc.prems(2)] by (simp add: algebra_simps)
  from Suc.IH [OF this] obtain d where "copy_rows h (int (a + line)) (int m) (int line) src ?d = Some d" "length d = length dst"
    "\<forall>k < length dst. d ! k = (if in_rows h (a + line) m line k then src ! k else ?d ! k)"
    using put_row_result(1) [OF fits Suc.prems(2)] Suc.prems(2) by auto
  then show ?case using fits Suc.prems(2) put_row_result(2) [OF fits Suc.prems(2)] by (auto simp: row_int in_rows_Suc)
qed (simp add: in_rows_def)

lemma rows_eq: "a + m \<le> length xs \<Longrightarrow> length ys = length xs \<Longrightarrow>
    take m (drop a xs) = take m (drop a ys) \<longleftrightarrow> (\<forall>k. a \<le> k \<and> k < a + m \<longrightarrow> xs ! k = ys ! k)"
  by (auto simp: list_eq_iff_nth_eq) (metis add_less_cancel_left le_add_diff_inverse)

lemma compare_rows_result:
  assumes "\<And>i. i < h \<Longrightarrow> a + i * line + m \<le> length dst" "length src = length dst"
  shows "\<exists>dst'. compare_rows h (int a) (int m) (int line) src dst =
      Some (\<forall>k. in_rows h a m line k \<longrightarrow> dst ! k = src ! k, dst') \<and> length dst' = length dst \<and>
    (\<forall>k < length dst. dst' ! k = (if in_rows h a m line k then src ! k else dst ! k))"
  using assms
proof (induction h arbitrary: a)
  case (Suc h)
  have fits: "a + m \<le> length dst" using Suc.prems(1) [of 0] by simp
  show ?case
  proof (cases "take m (drop a dst) = take m (drop a src)")
    case True
    have "a + line + i * line + m \<le> length dst" if "i < h" for i using Suc.prems(1) [of "Suc i"] that by (simp add: algebra_simps)
    from Suc.IH [OF this Suc.prems(2)] obtain d where
      "compare_rows h (int (a + line)) (int m) (int line) src dst = Some (\<forall>k. in_rows h (a + line) m line k \<longrightarrow> dst ! k = src ! k, d)"
      "length d = length dst" "\<forall>k < length dst. d ! k = (if in_rows h (a + line) m line k then src ! k else dst ! k)"
      by auto
    moreover have "\<forall>k. a \<le> k \<and> k < a + m \<longrightarrow> dst ! k = src ! k" using True rows_eq [OF fits Suc.prems(2)] by simp
    ultimately show ?thesis using True fits Suc.prems(2) by (auto simp: row_int in_rows_Suc)
  next
    case False
    obtain d where "copy_rows (Suc h) (int a) (int m) (int line) src dst = Some d" "length d = length dst"
      "\<forall>k < length dst. d ! k = (if in_rows (Suc h) a m line k then src ! k else dst ! k)"
      using copy_rows_result [of "Suc h", OF Suc.prems] by blast
    moreover have "\<not> (\<forall>k. in_rows (Suc h) a m line k \<longrightarrow> dst ! k = src ! k)"
      using False rows_eq [OF fits Suc.prems(2)] by (auto simp: in_rows_Suc)
    ultimately show ?thesis using False fits Suc.prems(2) by (simp add: row_int del: copy_rows.simps)
  qed
qed (simp add: in_rows_def)

lemma int_ok_nat: "n < 2 ^ 31 \<Longrightarrow> int_ok (int n)"
  by (simp add: int_ok_def)

text \<open>Comparing a rectangle inside the desktop.\<close>

lemma compare_rect_result:
  assumes e: "encoder_ok e" and buf: "length dst = length (clientView e)" "length src = length (clientView e)"
    and r: "rect_ok r" "unat (rect_right r) \<le> unat (desktopWidth e)" "unat (rect_bottom r) \<le> unat (desktopHeight e)"
  shows "\<exists>dst'. ogon_compare_and_update_framebuffer_copy dst src (int (unat (rect_left r))) (int (unat (rect_top r)))
        (int (unat (rect_right r)) - int (unat (rect_left r))) (int (unat (rect_bottom r)) - int (unat (rect_top r))) 4 (sint (scanLine e)) =
      Some (\<forall>k. pixel_of (unat (scanLine e)) k \<in> rect_points r \<longrightarrow> dst ! k = src ! k, dst') \<and> length dst' = length dst \<and>
    (\<forall>k < length dst. dst' ! k = (if pixel_of (unat (scanLine e)) k \<in> rect_points r then src ! k else dst ! k))"
proof -
  define line l t r' b where d: "line = unat (scanLine e)" "l = unat (rect_left r)" "t = unat (rect_top r)" "r' = unat (rect_right r)"
    "b = unat (rect_bottom r)"
  have lt: "l < r'" "t < b" using r(1) by (simp_all add: rect_ok_def word_less_nat_alt d)
  note dims = e [unfolded encoder_ok_def, folded d]
  have line: "r' * 4 \<le> line" using r(2) dims d by linarith
  have "line * 1 \<le> unat (desktopHeight e) * line" using dims by (simp add: mult.commute)
  then have "line < 2 ^ 31" using dims by linarith
  then have sint: "sint (scanLine e) = int line" unfolding d by (rule sint_u32)
  have rows: "t * line + l * 4 + i * line + (r' - l) * 4 \<le> length dst" if "i < b - t" for i
    unfolding buf(1) unfolding d(1) by (rule encoder_row_end [OF e r(2) [folded d] _ _ r(3) [folded d]]) (use that lt in auto)
  have "t * line + l * 4 + (r' - l) * 4 < 2 ^ 31" using rows [of 0] lt dims buf(1) by simp
  then have ok: "int_ok (int ((r' - l) * 4))" "int_ok (int (t * line))" "int_ok (int (l * 4))" "int_ok (int (t * line + l * 4))"
    by (intro int_ok_nat; simp)+
  have pts: "in_rows (b - t) (t * line + l * 4) ((r' - l) * 4) line k \<longleftrightarrow> pixel_of line k \<in> rect_points r" for k
    unfolding rect_points_def d(2-5) [symmetric] by (rule in_rows_points [OF line]) (use lt in simp)
  have conv: "(int r' - int l) * 4 = int ((r' - l) * 4)" "int t * int line = int (t * line)" "int l * 4 = int (l * 4)"
    "int (t * line) + int (l * 4) = int (t * line + l * 4)" "nat (int b - int t) = b - t"
    using lt by (simp_all add: of_nat_diff)
  show ?thesis
    using compare_rows_result [OF rows, of "b - t" src] buf ok
    unfolding ogon_compare_and_update_framebuffer_copy_def Let_def sint d [symmetric] conv pts by simp
qed

lemma updated_empty: "updated line fb {} view view"
  by (simp add: updated_def)

lemma updated_length: "updated line fb P view view' \<Longrightarrow> length view' = length view"
  by (simp add: updated_def)

lemma updated_trans: "updated line fb P v v1 \<Longrightarrow> updated line fb Q v1 v2 \<Longrightarrow> updated line fb (P \<union> Q) v v2"
  by (auto simp: updated_def)

lemma stale_union: "updated line fb P v v1 \<Longrightarrow> stale line fb (P \<union> Q) v \<subseteq> stale line fb P v \<union> stale line fb Q v1"
  by (auto simp: stale_def updated_def)

lemma stale_empty [simp]: "stale line fb {} view = {}"
  by (simp add: stale_def)

lemma rect_within:
  assumes "rect_ok r" "rect_points r \<subseteq> {(x, y). x < w \<and> y < h}"
  shows "unat (rect_right r) \<le> w \<and> unat (rect_bottom r) \<le> h"
proof -
  have lt: "unat (rect_left r) < unat (rect_right r)" "unat (rect_top r) < unat (rect_bottom r)"
    using assms(1) by (simp_all add: rect_ok_def word_less_nat_alt)
  then have "(unat (rect_right r) - 1, unat (rect_bottom r) - 1) \<in> rect_points r" by (auto simp: rect_points_def)
  then have "unat (rect_right r) - 1 < w" "unat (rect_bottom r) - 1 < h" using assms(2) by auto
  then show ?thesis using lt by auto
qed

text \<open>Regions when memory does not run out.\<close>

locale region_memory = region_laws +
  assumes union_succeeds: "fst (reg_union R g r)"
    and intersect_succeeds: "fst (reg_intersect R g r)"
begin

lemma union_total:
  assumes "reg_ok R g" "rect_ok r"
  shows "\<exists>g'. reg_union R g r = (True, g') \<and> reg_ok R g' \<and> reg_points R g' = reg_points R g \<union> rect_points r"
proof -
  obtain g' where "reg_union R g r = (True, g')" using union_succeeds [of g r] by (cases "reg_union R g r") auto
  then show ?thesis using union_ok union_points assms by blast
qed

lemma intersect_total:
  assumes "reg_ok R g"
  shows "\<exists>g'. reg_intersect R g r = (True, g') \<and> reg_ok R g' \<and> reg_points R g' = reg_points R g \<inter> rect_points r"
proof -
  obtain g' where "reg_intersect R g r = (True, g')" using intersect_succeeds [of g r] by (cases "reg_intersect R g r") auto
  then show ?thesis using intersect_ok intersect_points assms by blast
qed

text \<open>With full tiles the rectangles are only counted, otherwise a stale one is added to the damage.\<close>

lemma damage_rect_result:
  assumes e: "encoder_ok e" and buf: "length view = length (clientView e)" "length fb = length (clientView e)"
    and r: "rect_ok r" "on_desktop e r" and dmg: "reg_ok R dmg"
  shows "\<exists>c' dmg' view' sz'. damage_rect R fb (sint (scanLine e)) full r (c, dmg, view, sz) = Inr (c', dmg', view', sz') \<and>
    updated (unat (scanLine e)) fb (rect_points r) view view' \<and> reg_ok R dmg' \<and>
    reg_points R dmg \<subseteq> reg_points R dmg' \<and> reg_points R dmg' \<subseteq> reg_points R dmg \<union> rect_points r \<and> c \<le> c' \<and>
    (if full then dmg' = dmg \<and> (stale (unat (scanLine e)) fb (rect_points r) view \<noteq> {} \<longrightarrow> 0 < c')
     else stale (unat (scanLine e)) fb (rect_points r) view \<subseteq> reg_points R dmg')"
proof -
  let ?same = "\<forall>k. pixel_of (unat (scanLine e)) k \<in> rect_points r \<longrightarrow> view ! k = fb ! k"
  obtain view' where cmp: "ogon_compare_and_update_framebuffer_copy view fb (int (unat (rect_left r))) (int (unat (rect_top r)))
        (int (unat (rect_right r)) - int (unat (rect_left r))) (int (unat (rect_bottom r)) - int (unat (rect_top r))) 4 (sint (scanLine e)) =
      Some (?same, view')"
    and view': "updated (unat (scanLine e)) fb (rect_points r) view view'"
    using compare_rect_result [OF e buf r(1)] r(2) unfolding on_desktop_def updated_def by blast
  obtain dmg1 where dmg1: "reg_union R dmg r = (True, dmg1)" "reg_ok R dmg1" "reg_points R dmg1 = reg_points R dmg \<union> rect_points r"
    using union_total [OF dmg r(1)] by blast
  show ?thesis
  proof (cases ?same)
    case True
    then have "damage_rect R fb (sint (scanLine e)) full r (c, dmg, view, sz) = Inr (c, dmg, view', sz)"
      using cmp unfolding damage_rect_def Let_def prod.case by simp
    moreover have "stale (unat (scanLine e)) fb (rect_points r) view = {}" using True by (auto simp: stale_def)
    ultimately show ?thesis using view' dmg by auto
  next
    case False
    let ?sz = "sz + (int (unat (rect_right r)) - int (unat (rect_left r))) * (int (unat (rect_bottom r)) - int (unat (rect_top r)))"
    have "damage_rect R fb (sint (scanLine e)) full r (c, dmg, view, sz) = Inr (c + 1, if full then dmg else dmg1, view', ?sz)"
      using cmp False dmg1(1) unfolding damage_rect_def Let_def prod.case by simp
    then show ?thesis using view' dmg dmg1(2,3) by (auto simp: stale_def)
  qed
qed

lemma damage_rects_result:
  assumes e: "encoder_ok e" and fb: "length fb = length (clientView e)"
  shows "length view = length (clientView e) \<Longrightarrow> (\<And>r. r \<in> set rs \<Longrightarrow> rect_ok r \<and> on_desktop e r) \<Longrightarrow> reg_ok R dmg \<Longrightarrow>
    \<exists>c' dmg' view' sz'. res_fold (damage_rect R fb (sint (scanLine e)) full) rs (c, dmg, view, sz) = Inr (c', dmg', view', sz') \<and>
    updated (unat (scanLine e)) fb (\<Union>r \<in> set rs. rect_points r) view view' \<and> reg_ok R dmg' \<and>
    reg_points R dmg \<subseteq> reg_points R dmg' \<and> reg_points R dmg' \<subseteq> reg_points R dmg \<union> (\<Union>r \<in> set rs. rect_points r) \<and>
    c \<le> c' \<and> (c < c' \<longrightarrow> rs \<noteq> []) \<and>
    (if full then dmg' = dmg \<and> (stale (unat (scanLine e)) fb (\<Union>r \<in> set rs. rect_points r) view \<noteq> {} \<longrightarrow> 0 < c')
     else stale (unat (scanLine e)) fb (\<Union>r \<in> set rs. rect_points r) view \<subseteq> reg_points R dmg')"
proof (induction rs arbitrary: c dmg view sz)
  case (Cons r rs)
  let ?line = "unat (scanLine e)" and ?rs = "\<Union>r \<in> set rs. rect_points r"
  have r: "rect_ok r" "on_desktop e r" using Cons.prems(2) by auto
  obtain c1 dmg1 view1 sz1 where 1: "damage_rect R fb (sint (scanLine e)) full r (c, dmg, view, sz) = Inr (c1, dmg1, view1, sz1)"
    "updated ?line fb (rect_points r) view view1" "reg_ok R dmg1"
    "reg_points R dmg \<subseteq> reg_points R dmg1" "reg_points R dmg1 \<subseteq> reg_points R dmg \<union> rect_points r" "c \<le> c1"
    "if full then dmg1 = dmg \<and> (stale ?line fb (rect_points r) view \<noteq> {} \<longrightarrow> 0 < c1)
     else stale ?line fb (rect_points r) view \<subseteq> reg_points R dmg1"
    using damage_rect_result [OF e Cons.prems(1) fb r Cons.prems(3), of full c sz] by blast
  have len1: "length view1 = length (clientView e)" using updated_length [OF 1(2)] Cons.prems(1) by simp
  obtain c2 dmg2 view2 sz2 where 2:
    "res_fold (damage_rect R fb (sint (scanLine e)) full) rs (c1, dmg1, view1, sz1) = Inr (c2, dmg2, view2, sz2)"
    "updated ?line fb ?rs view1 view2" "reg_ok R dmg2" "reg_points R dmg1 \<subseteq> reg_points R dmg2"
    "reg_points R dmg2 \<subseteq> reg_points R dmg1 \<union> ?rs" "c1 \<le> c2"
    "if full then dmg2 = dmg1 \<and> (stale ?line fb ?rs view1 \<noteq> {} \<longrightarrow> 0 < c2) else stale ?line fb ?rs view1 \<subseteq> reg_points R dmg2"
    using Cons.IH [OF len1 Cons.prems(2) 1(3), of c1 sz1] by auto
  have st: "stale ?line fb (\<Union>r \<in> set (r # rs). rect_points r) view \<subseteq> stale ?line fb (rect_points r) view \<union> stale ?line fb ?rs view1"
    using stale_union [OF 1(2), of ?rs] by simp
  have up: "updated ?line fb (\<Union>r \<in> set (r # rs). rect_points r) view view2"
    using updated_trans [OF 1(2) 2(2)] by simp
  have "res_fold (damage_rect R fb (sint (scanLine e)) full) (r # rs) (c, dmg, view, sz) = Inr (c2, dmg2, view2, sz2)"
    using 1(1) 2(1) by simp
  moreover have "if full then dmg2 = dmg \<and> (stale ?line fb (\<Union>r \<in> set (r # rs). rect_points r) view \<noteq> {} \<longrightarrow> 0 < c2)
     else stale ?line fb (\<Union>r \<in> set (r # rs). rect_points r) view \<subseteq> reg_points R dmg2"
  proof (cases full)
    case True
    then show ?thesis using st 1(7) 2(6,7) by auto
  next
    case False
    then have "stale ?line fb (rect_points r) view \<union> stale ?line fb ?rs view1 \<subseteq> reg_points R dmg2" using 1(7) 2(4,7) by auto
    then show ?thesis using False st by (simp only: if_False)
  qed
  ultimately show ?case using up 1(3-6) 2(3-6)
    by (intro exI [of _ c2] exI [of _ dmg2] exI [of _ view2] exI [of _ sz2]) auto
qed (auto simp: updated_empty)

lemma damage_tile_result:
  assumes e: "encoder_ok e" and buf: "length view = length (clientView e)" "length fb = length (clientView e)"
    and input: "reg_ok R input" "reg_points R input \<subseteq> desktop e" and dmg: "reg_ok R dmg"
  shows "\<exists>dmg' view' sz'. damage_tile R fb (sint (scanLine e)) full input tile (dmg, view, sz) = Inr (dmg', view', sz') \<and>
    updated (unat (scanLine e)) fb (reg_points R input \<inter> rect_points tile) view view' \<and> reg_ok R dmg' \<and>
    reg_points R dmg \<subseteq> reg_points R dmg' \<and> reg_points R dmg' \<subseteq> reg_points R dmg \<union> rect_points tile \<and>
    stale (unat (scanLine e)) fb (reg_points R input \<inter> rect_points tile) view \<subseteq> reg_points R dmg'"
proof -
  obtain ti where ti: "reg_intersect R input tile = (True, ti)" "reg_ok R ti" "reg_points R ti = reg_points R input \<inter> rect_points tile"
    using intersect_total [OF input(1)] by blast
  have rects: "rect_ok r \<and> on_desktop e r" if "r \<in> set (reg_rects R ti)" for r
    using that ti(2,3) input(2) rect_within [of r "unat (desktopWidth e)" "unat (desktopHeight e)"]
    by (auto simp: reg_ok_def reg_points_def on_desktop_def desktop_def)
  obtain c1 dmg1 view1 sz1 where 1: "res_fold (damage_rect R fb (sint (scanLine e)) full) (reg_rects R ti) (0, dmg, view, sz) =
      Inr (c1, dmg1, view1, sz1)"
    "updated (unat (scanLine e)) fb (reg_points R ti) view view1" "reg_ok R dmg1" "reg_points R dmg \<subseteq> reg_points R dmg1"
    "reg_points R dmg1 \<subseteq> reg_points R dmg \<union> reg_points R ti" "0 < c1 \<longrightarrow> reg_rects R ti \<noteq> []"
    "if full then dmg1 = dmg \<and> (stale (unat (scanLine e)) fb (reg_points R ti) view \<noteq> {} \<longrightarrow> 0 < c1)
     else stale (unat (scanLine e)) fb (reg_points R ti) view \<subseteq> reg_points R dmg1"
    using damage_rects_result [where rs = "reg_rects R ti", OF e buf(2,1) rects dmg, where full = full and c = 0 and sz = sz] unfolding reg_points_def [symmetric] by blast
  show ?thesis
  proof (cases "full \<and> c1 \<noteq> 0")
    case True
    then have "reg_points R ti \<noteq> {}" using 1(6) empty_points [OF ti(2)] is_empty by auto
    then have "rect_ok tile" using ti(3) rect_empty by auto
    from union_total [OF 1(3) this] obtain dmg2 where 2: "reg_union R dmg1 tile = (True, dmg2)" "reg_ok R dmg2"
      "reg_points R dmg2 = reg_points R dmg1 \<union> rect_points tile" by blast
    then have "damage_tile R fb (sint (scanLine e)) full input tile (dmg, view, sz) = Inr (dmg2, view1, sz1)"
      using True ti(1) 1(1) by (simp add: damage_tile_def)
    then show ?thesis using 1 2 ti(3) by (auto simp: stale_def)
  next
    case False
    then have "damage_tile R fb (sint (scanLine e)) full input tile (dmg, view, sz) = Inr (dmg1, view1, sz1)"
      using ti(1) 1(1) by (auto simp: damage_tile_def)
    then show ?thesis using 1 False ti(3) by (auto split: if_splits)
  qed
qed

lemma damage_tiles_result:
  assumes e: "encoder_ok e" and fb: "length fb = length (clientView e)" and input: "reg_ok R input" "reg_points R input \<subseteq> desktop e"
  shows "length view = length (clientView e) \<Longrightarrow> reg_ok R dmg \<Longrightarrow>
    \<exists>dmg' view' sz'. res_fold (damage_tile R fb (sint (scanLine e)) full input) ts (dmg, view, sz) = Inr (dmg', view', sz') \<and>
    updated (unat (scanLine e)) fb (reg_points R input \<inter> (\<Union>t \<in> set ts. rect_points t)) view view' \<and> reg_ok R dmg' \<and>
    reg_points R dmg \<subseteq> reg_points R dmg' \<and> reg_points R dmg' \<subseteq> reg_points R dmg \<union> (\<Union>t \<in> set ts. rect_points t) \<and>
    stale (unat (scanLine e)) fb (reg_points R input \<inter> (\<Union>t \<in> set ts. rect_points t)) view \<subseteq> reg_points R dmg'"
proof (induction ts arbitrary: dmg view sz)
  case (Cons t ts)
  let ?line = "unat (scanLine e)" and ?t = "reg_points R input \<inter> rect_points t"
    and ?ts = "reg_points R input \<inter> (\<Union>t \<in> set ts. rect_points t)"
  obtain dmg1 view1 sz1 where 1: "damage_tile R fb (sint (scanLine e)) full input t (dmg, view, sz) = Inr (dmg1, view1, sz1)"
    "updated ?line fb ?t view view1" "reg_ok R dmg1" "reg_points R dmg \<subseteq> reg_points R dmg1"
    "reg_points R dmg1 \<subseteq> reg_points R dmg \<union> rect_points t" "stale ?line fb ?t view \<subseteq> reg_points R dmg1"
    using damage_tile_result [OF e Cons.prems(1) fb input Cons.prems(2), of full t sz] by blast
  have len1: "length view1 = length (clientView e)" using updated_length [OF 1(2)] Cons.prems(1) by simp
  obtain dmg2 view2 sz2 where 2: "res_fold (damage_tile R fb (sint (scanLine e)) full input) ts (dmg1, view1, sz1) = Inr (dmg2, view2, sz2)"
    "updated ?line fb ?ts view1 view2" "reg_ok R dmg2" "reg_points R dmg1 \<subseteq> reg_points R dmg2"
    "reg_points R dmg2 \<subseteq> reg_points R dmg1 \<union> (\<Union>t \<in> set ts. rect_points t)" "stale ?line fb ?ts view1 \<subseteq> reg_points R dmg2"
    using Cons.IH [OF len1 1(3), of sz1] by blast
  have sets: "reg_points R input \<inter> (\<Union>t \<in> set (t # ts). rect_points t) = ?t \<union> ?ts" by auto
  have "stale ?line fb (?t \<union> ?ts) view \<subseteq> reg_points R dmg2" using stale_union [OF 1(2), of ?ts] 1(6) 2(4,6) by auto
  moreover have "res_fold (damage_tile R fb (sint (scanLine e)) full input) (t # ts) (dmg, view, sz) = Inr (dmg2, view2, sz2)"
    using 1(1) 2(1) by simp
  moreover have "reg_points R dmg2 \<subseteq> reg_points R dmg \<union> (\<Union>t \<in> set (t # ts). rect_points t)" using 1(5) 2(5) by auto
  moreover have "reg_points R dmg \<subseteq> reg_points R dmg2" using 1(4) 2(4) by auto
  ultimately show ?case using updated_trans [OF 1(2) 2(2)] 2(3) unfolding sets by blast
qed (auto simp: updated_empty)

end

section \<open>Tiles\<close>

lemma tile_edge:
  assumes "0 < n" "x \<le> last_tile edge n"
  shows "unat (of_nat (x * n) :: u16) = x * n"
    "unat (of_nat (x * n) + of_nat (if x = last_tile edge n then unat edge - x * n else n) :: u16) =
       (if x = last_tile edge n then unat edge else Suc x * n)"
    "x * n \<le> unat edge" "x \<noteq> last_tile edge n \<Longrightarrow> Suc x * n \<le> unat edge"
proof -
  have last: "last_tile edge n * n \<le> unat edge - 1" by (simp add: last_tile_def)
  have mono: "y * n \<le> unat edge - 1" if "y \<le> last_tile edge n" for y using mult_le_mono1 [OF that, of n] last by linarith
  have lim: "unat edge < 2 ^ 16" using unsigned_less [of edge, where 'a = nat] by simp
  show le: "x * n \<le> unat edge" using mono [OF assms(2)] by simp
  show suc: "Suc x * n \<le> unat edge" if "x \<noteq> last_tile edge n" using mono [of "Suc x"] assms(2) that by simp
  show "unat (of_nat (x * n) :: u16) = x * n" using le lim by (intro unat_of_nat_u16) simp
  have "of_nat (x * n) + of_nat (if x = last_tile edge n then unat edge - x * n else n) =
      (of_nat (if x = last_tile edge n then unat edge else Suc x * n) :: u16)"
    using le by (auto simp: add.commute [of n "x * n"] simp flip: of_nat_add simp del: of_nat_mult of_nat_diff)
  then show "unat (of_nat (x * n) + of_nat (if x = last_tile edge n then unat edge - x * n else n) :: u16) =
      (if x = last_tile edge n then unat edge else Suc x * n)"
    using suc lim by (simp only:) (rule unat_of_nat_u16, auto)
qed

text \<open>The tiles cover the extents and do not reach beyond them.\<close>

lemma tiles_cover:
  assumes "0 < tw" "0 < th"
  shows "rect_points ext \<subseteq> (\<Union>t \<in> set (tiles ext tw th). rect_points t)"
proof
  fix p
  assume "p \<in> rect_points ext"
  then obtain px py where p: "p = (px, py)" "unat (rect_left ext) \<le> px" "px < unat (rect_right ext)" "unat (rect_top ext) \<le> py"
    "py < unat (rect_bottom ext)" by (auto simp: rect_points_def)
  define x y where xy: "x = px div tw" "y = py div th"
  have x: "unat (rect_left ext) div tw \<le> x" "x \<le> last_tile (rect_right ext) tw"
    and y: "unat (rect_top ext) div th \<le> y" "y \<le> last_tile (rect_bottom ext) th"
    using p unfolding xy last_tile_def by (auto intro!: div_le_mono)
  have "x * tw \<le> px" "px < Suc x * tw" "y * th \<le> py" "py < Suc y * th"
    using assms unfolding xy by (auto simp: dividend_less_times_div mult.commute)
  then have "p \<in> rect_points (tile_at ext tw th (y, x))"
    using p tile_edge [OF assms(1) x(2)] tile_edge [OF assms(2) y(2)]
    by (auto simp: rect_points_def tile_at_def Let_def simp del: of_nat_mult mult_Suc)
  moreover have "tile_at ext tw th (y, x) \<in> set (tiles ext tw th)" 
    unfolding tiles_def set_map set_product set_upt using x y by (intro imageI) simp
  ultimately show "p \<in> (\<Union>t \<in> set (tiles ext tw th). rect_points t)" by blast
qed

lemma tiles_within:
  assumes "0 < tw" "0 < th" "t \<in> set (tiles ext tw th)"
  shows "unat (rect_right t) \<le> unat (rect_right ext)" "unat (rect_bottom t) \<le> unat (rect_bottom ext)"
proof -
  obtain x y where t: "t = tile_at ext tw th (y, x)" "x \<le> last_tile (rect_right ext) tw" "y \<le> last_tile (rect_bottom ext) th"
    using assms(3) by (auto simp: tiles_def less_Suc_eq_le)
  show "unat (rect_right t) \<le> unat (rect_right ext)" "unat (rect_bottom t) \<le> unat (rect_bottom ext)"
    using t(1) tile_edge [OF assms(1) t(2)] tile_edge [OF assms(2) t(3)]
    by (auto simp: tile_at_def Let_def simp del: of_nat_mult mult_Suc)
qed

context region_memory
begin

lemma extents_on_desktop:
  assumes "reg_ok R g" "reg_points R g \<subseteq> desktop e" "unat (desktopWidth e) < 2 ^ 16" "unat (desktopHeight e) < 2 ^ 16"
  shows "unat (rect_right (reg_extents R g)) \<le> unat (desktopWidth e)" "unat (rect_bottom (reg_extents R g)) \<le> unat (desktopHeight e)"
proof -
  let ?w = "ucast (desktopWidth e) :: u16" and ?h = "ucast (desktopHeight e) :: u16"
  have "rect_right r \<le> ?w \<and> rect_bottom r \<le> ?h" if "r \<in> set (reg_rects R g)" for r
    using that assms rect_within [of r "unat (desktopWidth e)" "unat (desktopHeight e)"]
    by (auto simp: reg_ok_def reg_points_def desktop_def word_le_nat_alt unat_ucast_le)
  from extents_within [OF assms(1) this]
  show "unat (rect_right (reg_extents R g)) \<le> unat (desktopWidth e)" "unat (rect_bottom (reg_extents R g)) \<le> unat (desktopHeight e)"
    using assms(3,4) by (auto simp: word_le_nat_alt unat_ucast_le)
qed

lemma simplify_result:
  assumes e: "encoder_ok e" "unat (desktopWidth e) < 2 ^ 16" "unat (desktopHeight e) < 2 ^ 16" and fb: "length fb = length (clientView e)"
    and input: "reg_ok R input" "reg_points R input \<subseteq> desktop e" and tw: "0 < tw" "0 < th"
  shows "\<exists>dmg view sz. simplify_damagedRegion R (reg_clear R) fb e input tw th full = Some (True, dmg, view, sz) \<and>
    updated (unat (scanLine e)) fb (reg_points R input) (clientView e) view \<and> reg_ok R dmg \<and> reg_points R dmg \<subseteq> desktop e \<and>
    stale (unat (scanLine e)) fb (reg_points R input) (clientView e) \<subseteq> reg_points R dmg"
proof -
  let ?ts = "tiles (reg_extents R input) tw th"
  obtain dmg view sz where r: "res_fold (damage_tile R fb (sint (scanLine e)) full input) ?ts (reg_clear R, clientView e, 0) = Inr (dmg, view, sz)"
    "updated (unat (scanLine e)) fb (reg_points R input \<inter> (\<Union>t \<in> set ?ts. rect_points t)) (clientView e) view" "reg_ok R dmg"
    "reg_points R dmg \<subseteq> reg_points R (reg_clear R) \<union> (\<Union>t \<in> set ?ts. rect_points t)"
    "stale (unat (scanLine e)) fb (reg_points R input \<inter> (\<Union>t \<in> set ?ts. rect_points t)) (clientView e) \<subseteq> reg_points R dmg"
    using damage_tiles_result [OF e(1) fb input refl clear_ok, of full ?ts 0] by blast
  have all: "reg_points R input \<inter> (\<Union>t \<in> set ?ts. rect_points t) = reg_points R input"
    using points_in_extents [OF input(1)] tiles_cover [OF tw, of "reg_extents R input"] by blast
  have "rect_points t \<subseteq> desktop e" if "t \<in> set ?ts" for t
    using tiles_within [OF tw that] extents_on_desktop [OF input e(2,3)] by (auto simp: rect_points_def desktop_def)
  then have "reg_points R dmg \<subseteq> desktop e" using r(4) unfolding clear_points by blast
  then show ?thesis using r unfolding all by (auto simp: simplify_damagedRegion_def)
qed

end

interpretation rm: region_memory rect_list
  by unfold_locales (simp_all add: rect_list_def)

end
