(* ===== verification/Display.thy ===== *)
theory Display
  imports Surface Damage_Proofs
begin

text \<open>
  The screen of a client follows the frame buffer of the backend: the steps that change either of them,
  and the invariant that connects the frame buffer, the client view, the damage and the screen.
\<close>

section \<open>Definitions\<close>

definition fb_of :: "u8 list \<Rightarrow> u8 list" where
  "fb_of m = drop OGON_DMGBUF_POS_DATA m"

text \<open>A pixel of a picture: its bytes agree with another picture, or are all one.\<close>

definition same_pixel :: "nat \<Rightarrow> u8 list \<Rightarrow> u8 list \<Rightarrow> nat \<times> nat \<Rightarrow> bool" where
  "same_pixel line a b p \<longleftrightarrow> (\<forall>k < length a. pixel_of line k = p \<longrightarrow> a ! k = b ! k)"

definition blank_pixel :: "nat \<Rightarrow> u8 list \<Rightarrow> nat \<times> nat \<Rightarrow> bool" where
  "blank_pixel line a p \<longleftrightarrow> (\<forall>k < length a. pixel_of line k = p \<longrightarrow> a ! k = 1)"

text \<open>
  A client that gets a frame shows the damaged pixels as they are in the frame buffer. It may also show
  others so, because the codecs align what they send.
\<close>

definition painted :: "nat \<Rightarrow> u8 list \<Rightarrow> (nat \<times> nat) set \<Rightarrow> u8 list \<Rightarrow> u8 list \<Rightarrow> bool" where
  "painted line fb P scr scr' \<longleftrightarrow> length scr' = length scr \<and>
     (\<forall>p. same_pixel line fb scr' p \<or> p \<notin> P \<and> same_pixel line scr scr' p)"

text \<open>The segment is a damage buffer for the screen of the encoder, in which no pixel looks like a blank one.\<close>

definition segment_ok :: "'r ogon_bitmap_encoder \<Rightarrow> u8 list \<Rightarrow> bool" where
  "segment_ok e m \<longleftrightarrow> (\<exists>shmid. dmgbuf_ok m shmid (unat (desktopWidth e)) (unat (desktopHeight e)) (unat (scanLine e))) \<and>
     (\<forall>p \<in> desktop e. \<not> blank_pixel (unat (scanLine e)) (fb_of m) p)"

text \<open>The points of the rectangles of a segment that the server accepts.\<close>

definition listed :: "'r ogon_bitmap_encoder \<Rightarrow> u8 list \<Rightarrow> nat \<Rightarrow> (nat \<times> nat) set" where
  "listed e m n = (\<Union>i \<in> {0..<n}. case rect_at (drop OGON_DMGBUF_POS_RECTS m) i of
     None \<Rightarrow> {} | Some r \<Rightarrow> if damage_valid e r then rect_points (rect16_of r) else {})"

text \<open>A backend draws: it lists at most as many rectangles as there is room for, and changes nothing outside of them.\<close>

definition repaint :: "'r ogon_bitmap_encoder \<Rightarrow> u8 list \<Rightarrow> u8 list \<Rightarrow> bool" where
  "repaint e m m' \<longleftrightarrow> segment_ok e m' \<and>
     (\<exists>n. peek m' OGON_DMGBUF_POS_NUM_RECTS = Some n \<and> unat n \<le> OGON_DMGBUF_MAX_RECTS \<and>
        (\<forall>p. p \<notin> listed e m' (unat n) \<longrightarrow> same_pixel (unat (scanLine e)) (fb_of m) (fb_of m') p))"

text \<open>The rectangles of a refresh request: not empty and on the desktop, with inclusive edges.\<close>

definition area_ok :: "'r ogon_bitmap_encoder \<Rightarrow> RECTANGLE_16 \<Rightarrow> bool" where
  "area_ok e r \<longleftrightarrow> rect_left r \<le> rect_right r \<and> rect_top r \<le> rect_bottom r \<and>
     unat (rect_right r) < unat (desktopWidth e) \<and> unat (rect_bottom r) < unat (desktopHeight e)"

definition area_points :: "RECTANGLE_16 \<Rightarrow> (nat \<times> nat) set" where
  "area_points r = {(x, y). unat (rect_left r) \<le> x \<and> x \<le> unat (rect_right r) \<and> unat (rect_top r) \<le> y \<and> y \<le> unat (rect_bottom r)}"

definition with_encoder :: "'r ogon_bitmap_encoder \<Rightarrow> 'r front_link \<Rightarrow> 'r front_link" where
  "with_encoder e s = upd_front (\<lambda>f. f\<lparr>encoder := Some e\<rparr>) s"

text \<open>The parts of the state the display is about.\<close>

definition display_parts :: "'r front_link \<Rightarrow> 'r ogon_bitmap_encoder \<Rightarrow> ogon_backend_screen \<Rightarrow> u8 list \<Rightarrow> bool" where
  "display_parts s e b m \<longleftrightarrow> encoder (front s) = Some e \<and> backend s = Some b \<and> damage b = Some m"

definition tile_size_of :: "'r front_link \<Rightarrow> nat" where
  "tile_size_of s = (if rdpgfxConnected (front s) then 64 else 32)"

text \<open>
  The steps. Without debug information, and with the output surface of the graphics pipeline, if it is
  needed, already created: creating one belongs to an activation.
\<close>

inductive display_step :: "'r region16 \<Rightarrow> 'r front_link \<times> u8 list \<Rightarrow> 'r front_link \<times> u8 list \<Rightarrow> bool" for R where
  sync: "display_parts s e b m \<Longrightarrow> repaint e m m' \<Longrightarrow> ogon_backend_consume_damage R (Some m') e = Some (0, e') \<Longrightarrow>
    display_step R (s, scr) ((with_encoder e' s)\<lparr>backend := Some (b\<lparr>damage := Some m'\<rparr>)\<rparr>, scr)"
| frame: "display_parts s e b m \<Longrightarrow> \<not> showDebugInfo (front s) \<Longrightarrow> \<not> rdpgfxRequired (front s) \<or> rdpgfxOutputSurface (front s) \<noteq> 0 \<Longrightarrow>
    simplify_damagedRegion R (reg_clear R) (fb_of m) e (accumulatedDamage e) (tile_size_of s) (tile_size_of s) (rdpgfxConnected (front s)) =
      Some (True, dmg, view, n) \<Longrightarrow>
    ogon_send_surface_bits R C D gfx_ok have_backend True s = Some (0, outs, s') \<Longrightarrow>
    painted (unat (scanLine e)) (fb_of m) (reg_points R dmg) scr scr' \<Longrightarrow>
    display_step R (s, scr) (s', scr')"
| refresh: "display_parts s e b m \<Longrightarrow> (\<And>r. r \<in> set areas \<Longrightarrow> area_ok e r) \<Longrightarrow> refresh_rects R areas e = Some (True, e') \<Longrightarrow>
    length scr' = length scr \<Longrightarrow> (\<And>p. p \<notin> (\<Union>r \<in> set areas. area_points r) \<Longrightarrow> same_pixel (unat (scanLine e)) scr scr' p) \<Longrightarrow>
    display_step R (s, scr) (with_encoder e' s, scr')"
| request: "initiate_immediate_request R setDamage s = (True, s') \<Longrightarrow> display_step R (s, scr) (s', scr)"

text \<open>
  The invariant. Outside the damage the screen is the frame buffer, and the client view knows of every
  pixel what the client shows, or is blank there.
\<close>

definition shows_fb :: "'r region16 \<Rightarrow> 'r ogon_bitmap_encoder \<Rightarrow> u8 list \<Rightarrow> u8 list \<Rightarrow> bool" where
  "shows_fb R e fb scr \<longleftrightarrow> (\<forall>p \<in> desktop e - reg_points R (accumulatedDamage e). same_pixel (unat (scanLine e)) scr fb p)"

definition view_known :: "'r ogon_bitmap_encoder \<Rightarrow> u8 list \<Rightarrow> bool" where
  "view_known e scr \<longleftrightarrow> (\<forall>p \<in> desktop e. same_pixel (unat (scanLine e)) (clientView e) scr p \<or> blank_pixel (unat (scanLine e)) (clientView e) p)"

definition encoder_fits :: "'r region16 \<Rightarrow> 'r ogon_bitmap_encoder \<Rightarrow> bool" where
  "encoder_fits R e \<longleftrightarrow> encoder_ok e \<and> unat (desktopWidth e) < 2 ^ 15 \<and> unat (desktopHeight e) < 2 ^ 15 \<and>
     reg_ok R (accumulatedDamage e) \<and> reg_points R (accumulatedDamage e) \<subseteq> desktop e"

definition display_inv :: "'r region16 \<Rightarrow> 'r front_link \<times> u8 list \<Rightarrow> bool" where
  "display_inv R st \<longleftrightarrow> (\<exists>e b m. display_parts (fst st) e b m \<and> encoder_fits R e \<and> segment_ok e m \<and>
     screen_width b = desktopWidth e \<and> screen_height b = desktopHeight e \<and> length (snd st) = length (clientView e) \<and>
     shows_fb R e (fb_of m) (snd st) \<and> view_known e (snd st))"

section \<open>Lemmas\<close>

lemma fb_length: "segment_ok e m \<Longrightarrow> encoder_ok e \<Longrightarrow> length (fb_of m) = length (clientView e)"
  by (auto simp: segment_ok_def fb_of_def dmgbuf_ok_def encoder_ok_def POS_DATA)

lemma segment_data: "segment_ok e m \<Longrightarrow> ogon_dmgbuf_get_data (Some m) = Some (Some (fb_of m))"
  by (auto simp: segment_ok_def dmgbuf_ok_def ogon_dmgbuf_get_data_def if_good_def OGON_DMGBUF_GOOD_def fb_of_def)

lemma same_pixel_trans:
  "same_pixel line a b p \<Longrightarrow> same_pixel line b c p \<Longrightarrow> length a = length b \<Longrightarrow> same_pixel line a c p"
  by (auto simp: same_pixel_def)

lemma same_pixel_sym: "same_pixel line a b p \<Longrightarrow> length a = length b \<Longrightarrow> same_pixel line b a p"
  by (auto simp: same_pixel_def)

lemma same_pixel_blank: "same_pixel line a b p \<Longrightarrow> length a = length b \<Longrightarrow> blank_pixel line a p \<Longrightarrow> blank_pixel line b p"
  by (auto simp: same_pixel_def blank_pixel_def)

lemma updated_pixel:
  assumes "updated line fb P view view'"
  shows "p \<in> P \<Longrightarrow> same_pixel line view' fb p" "p \<notin> P \<Longrightarrow> same_pixel line view view' p"
  using assms by (auto simp: updated_def same_pixel_def)

lemma not_stale_pixel: "p \<in> P \<Longrightarrow> p \<notin> stale line fb P view \<Longrightarrow> same_pixel line view fb p"
  by (auto simp: stale_def same_pixel_def)

lemma area_points_rect:
  assumes "area_ok e r" "unat (desktopWidth e) < 2 ^ 16" "unat (desktopHeight e) < 2 ^ 16"
  shows "rect_points (r\<lparr>rect_right := rect_right r + 1, rect_bottom := rect_bottom r + 1\<rparr>) = area_points r"
    "rect_ok (r\<lparr>rect_right := rect_right r + 1, rect_bottom := rect_bottom r + 1\<rparr>)" "area_points r \<subseteq> desktop e"
    "unat (rect_right r + 1) = Suc (unat (rect_right r))" "unat (rect_bottom r + 1) = Suc (unat (rect_bottom r))"
proof -
  have "unat (rect_right r) + 1 < 2 ^ 16" "unat (rect_bottom r) + 1 < 2 ^ 16" using assms by (auto simp: area_ok_def)
  then show suc: "unat (rect_right r + 1) = Suc (unat (rect_right r))" "unat (rect_bottom r + 1) = Suc (unat (rect_bottom r))"
    by (simp_all add: unat_word_ariths)
  then show "rect_points (r\<lparr>rect_right := rect_right r + 1, rect_bottom := rect_bottom r + 1\<rparr>) = area_points r"
    by (auto simp: rect_points_def area_points_def)
  show "rect_ok (r\<lparr>rect_right := rect_right r + 1, rect_bottom := rect_bottom r + 1\<rparr>)"
    using assms(1) suc by (simp add: rect_ok_def area_ok_def word_less_nat_alt word_le_nat_alt)
  show "area_points r \<subseteq> desktop e" using assms(1) by (auto simp: area_points_def desktop_def area_ok_def)
qed

lemma unat_of_sint_u16: "0 \<le> sint (x :: u16) \<Longrightarrow> unat x < 2 ^ 15"
proof -
  assume "0 \<le> sint x"
  then have "\<not> bit (uint x) 15" by (simp add: sint_uint signed_take_bit_nonnegative_iff)
  then have "uint x div 32768 mod 2 = 0" by (simp add: bit_iff_odd even_iff_mod_2_eq_zero)
  moreover have "uint x < 65536" "0 \<le> uint x" using unsigned_less [of x, where 'a = int] by simp_all
  moreover have "uint x div 32768 < 2" "0 \<le> uint x div 32768" using \<open>uint x < 65536\<close> \<open>0 \<le> uint x\<close> by (auto simp: pos_imp_zdiv_nonneg_iff)
  ultimately have "uint x div 32768 = 0" using mod_pos_pos_trivial [of "uint x div 32768" 2] by simp
  then have "uint x < 32768" using mult_div_mod_eq [of 32768 "uint x"] pos_mod_bound [of 32768 "uint x"] by simp
  then have "int (unat x) < int (2 ^ 15)" by simp
  then show ?thesis by (simp only: of_nat_less_iff)
qed

lemma unat_word_of_int_add:
  fixes x w :: u16
  assumes "0 \<le> sint x" "0 \<le> sint w"
  shows "unat (word_of_int (sint x + sint w) :: u32) = unat x + unat w" "unat (x + w) = unat x + unat w"
proof -
  have x: "unat x < 2 ^ 15" "unat w < 2 ^ 15" using assms by (simp_all only: unat_of_sint_u16)
  then have s: "sint x = int (unat x)" "sint w = int (unat w)" by (simp_all add: sint_u16)
  then have "word_of_int (sint x + sint w) = (of_nat (unat x + unat w) :: u32)" by (simp only: of_nat_add [symmetric] of_int_of_nat_eq)
  then show "unat (word_of_int (sint x + sint w) :: u32) = unat x + unat w" using x unat_of_nat_u32 [of "unat x + unat w"] by simp
  show "unat (x + w) = unat x + unat w" using x by (simp add: unat_word_ariths)
qed

lemma damage_valid_rect:
  assumes "damage_valid e r"
  shows "rect_ok (rect16_of r)" "rect_points (rect16_of r) \<subseteq> desktop e"
proof -
  have s: "0 \<le> sint (rr_x r)" "0 \<le> sint (rr_y r)" "1 \<le> sint (rr_width r)" "1 \<le> sint (rr_height r)"
    and lim: "word_of_int (sint (rr_x r) + sint (rr_width r)) \<le> desktopWidth e" "word_of_int (sint (rr_y r) + sint (rr_height r)) \<le> desktopHeight e"
    using assms by (auto simp: damage_valid_def not_less)
  have pos: "0 < unat (rr_width r)" "0 < unat (rr_height r)" using s(3,4) by (auto simp: unat_gt_0)
  note x = unat_word_of_int_add [of "rr_x r" "rr_width r"] and y = unat_word_of_int_add [of "rr_y r" "rr_height r"]
  show "rect_ok (rect16_of r)" using x y s pos by (simp add: rect_ok_def rect16_of_def word_less_nat_alt)
  show "rect_points (rect16_of r) \<subseteq> desktop e"
    using x y s lim by (auto simp: rect_points_def rect16_of_def desktop_def word_le_nat_alt)
qed

lemma damage_valid_cong:
  "desktopWidth e' = desktopWidth e \<Longrightarrow> desktopHeight e' = desktopHeight e \<Longrightarrow> damage_valid e' r = damage_valid e r"
  by (simp add: damage_valid_def)

lemma clip_same:
  fixes a :: u16 and b :: u32
  assumes "unat a \<le> unat b" "ucast a \<ge> b"
  shows "ucast b = a"
  using clip_u16 [of b a] assms by (simp add: word_unat_eq_iff)

context region_memory
begin

lemma consume_rects_result:
  assumes "reg_ok R (accumulatedDamage e)" "consume_rects R m i n e = Some (ret, e')"
  shows "ret = 0 \<and> (\<exists>g. e' = e\<lparr>accumulatedDamage := g\<rparr> \<and> reg_ok R g \<and>
    reg_points R g = reg_points R (accumulatedDamage e) \<union> (\<Union>j \<in> {i..<i + n}. case rect_at m j of
      None \<Rightarrow> {} | Some r \<Rightarrow> if damage_valid e r then rect_points (rect16_of r) else {}))"
  using assms
proof (induction n arbitrary: i e)
  case 0
  then show ?case by (intro conjI exI [of _ "accumulatedDamage e"]) simp_all
next
  case (Suc n)
  have split: "{i..<i + Suc n} = insert i {Suc i..<Suc i + n}" by auto
  obtain r where r: "rect_at m i = Some r" using Suc.prems(2) by (auto split: option.splits)
  show ?case
  proof (cases "damage_valid e r")
    case False
    then have "consume_rects R m (Suc i) n e = Some (ret, e')" using Suc.prems(2) r by simp
    from Suc.IH [OF Suc.prems(1) this] show ?thesis using r False unfolding split by auto
  next
    case True
    obtain g where g: "reg_union R (accumulatedDamage e) (rect16_of r) = (True, g)" "reg_ok R g"
      "reg_points R g = reg_points R (accumulatedDamage e) \<union> rect_points (rect16_of r)"
      using union_total [OF Suc.prems(1) damage_valid_rect(1) [OF True]] by blast
    let ?e = "e\<lparr>accumulatedDamage := g\<rparr>"
    have dv: "damage_valid ?e = damage_valid e" by (rule ext) (simp add: damage_valid_def)
    have "consume_rects R m (Suc i) n ?e = Some (ret, e')" using Suc.prems(2) r True g(1) by simp
    from Suc.IH [OF _ this] obtain g' where "ret = 0" "e' = ?e\<lparr>accumulatedDamage := g'\<rparr>" "reg_ok R g'"
      "reg_points R g' = reg_points R g \<union> (\<Union>j \<in> {Suc i..<Suc i + n}. case rect_at m j of
         None \<Rightarrow> {} | Some r \<Rightarrow> if damage_valid e r then rect_points (rect16_of r) else {})" using g(2) unfolding dv by auto
    then show ?thesis using r True g(3) unfolding split by (intro conjI exI [of _ g']) (simp_all add: Un_assoc)
  qed
qed

lemma consume_rects_total:
  assumes "reg_ok R (accumulatedDamage e)" "8 * (i + n) \<le> length m"
  shows "\<exists>e'. consume_rects R m i n e = Some (0, e')"
  using assms
proof (induction n arbitrary: i e)
  case (Suc n)
  obtain r where r: "rect_at m i = Some r" using Suc.prems(2) by (auto simp: rect_at_def)
  have len: "8 * (Suc i + n) \<le> length m" using Suc.prems(2) by simp
  show ?case
  proof (cases "damage_valid e r")
    case True
    obtain g where g: "reg_union R (accumulatedDamage e) (rect16_of r) = (True, g)" "reg_ok R g"
      using union_total [OF Suc.prems(1) damage_valid_rect(1) [OF True]] by blast
    then show ?thesis using Suc.IH [of "e\<lparr>accumulatedDamage := g\<rparr>" "Suc i"] len r True by simp
  qed (use Suc.IH [OF Suc.prems(1) len] r in simp)
qed simp

lemma listed_desktop: "listed e m n \<subseteq> desktop e"
  using damage_valid_rect(2) by (fastforce simp: listed_def split: option.splits if_splits)

lemma consume_result:
  assumes "encoder_fits R e" "segment_ok e m" "peek m OGON_DMGBUF_POS_NUM_RECTS = Some n"
    "ogon_backend_consume_damage R (Some m) e = Some (0, e')"
  shows "\<exists>g. e' = e\<lparr>accumulatedDamage := g\<rparr> \<and> encoder_fits R e' \<and> reg_points R g = reg_points R (accumulatedDamage e) \<union> listed e m (unat n)"
proof -
  have "ogon_dmgbuf_get_rects (Some m) = Some (Some (n, drop OGON_DMGBUF_POS_RECTS m))"
    using assms(2,3) by (auto simp: segment_ok_def dmgbuf_ok_def ogon_dmgbuf_get_rects_def if_good_def OGON_DMGBUF_GOOD_def)
  then have eq: "(if n = 0 then Some (0, e) else consume_rects R (drop OGON_DMGBUF_POS_RECTS m) 0 (unat n) e) = Some (0, e')"
    using assms(4) segment_data [OF assms(2)] by (simp add: ogon_backend_consume_damage_def)
  have "\<exists>g. e' = e\<lparr>accumulatedDamage := g\<rparr> \<and> reg_ok R g \<and> reg_points R g = reg_points R (accumulatedDamage e) \<union> listed e m (unat n)"
  proof (cases "n = 0")
    case True
    then show ?thesis using eq assms(1) by (intro exI [of _ "accumulatedDamage e"]) (simp add: listed_def encoder_fits_def)
  next
    case False
    then have "consume_rects R (drop OGON_DMGBUF_POS_RECTS m) 0 (unat n) e = Some (0, e')" using eq by simp
    from consume_rects_result [OF _ this] assms(1) show ?thesis by (auto simp: listed_def encoder_fits_def)
  qed
  then show ?thesis using assms(1) listed_desktop [of e m "unat n"]
    by (auto simp: encoder_fits_def encoder_ok_def desktop_def)
qed

lemma refresh_rects_result:
  assumes "encoder_fits R e" "\<And>r. r \<in> set areas \<Longrightarrow> area_ok e r"
  shows "\<exists>e' g view. refresh_rects R areas e = Some (True, e') \<and> e' = e\<lparr>accumulatedDamage := g, clientView := view\<rparr> \<and> encoder_fits R e' \<and> length view = length (clientView e) \<and>
    reg_points R g = reg_points R (accumulatedDamage e) \<union> (\<Union>r \<in> set areas. area_points r) \<and>
    (\<forall>p. if p \<in> (\<Union>r \<in> set areas. area_points r) then blank_pixel (unat (scanLine e)) view p
         else same_pixel (unat (scanLine e)) (clientView e) view p)"
  using assms
proof (induction areas arbitrary: e)
  case Nil
  then show ?case by (intro exI [of _ e] exI [of _ "accumulatedDamage e"] exI [of _ "clientView e"]) (simp add: same_pixel_def)
next
  case (Cons r rs)
  have dims: "unat (desktopWidth e) < 2 ^ 16" "unat (desktopHeight e) < 2 ^ 16" and e: "encoder_ok e"
    and acc: "reg_ok R (accumulatedDamage e)" "reg_points R (accumulatedDamage e) \<subseteq> desktop e"
    using Cons.prems(1) by (auto simp: encoder_fits_def)
  have area: "area_ok e r" using Cons.prems(2) by simp
  define q where "q = r\<lparr>rect_right := rect_right r + 1, rect_bottom := rect_bottom r + 1\<rparr>"
  note a = area_points_rect [OF area dims, folded q_def]
  have clip: "(if ucast (rect_right q) \<ge> desktopWidth e then q\<lparr>rect_right := ucast (desktopWidth e)\<rparr> else q) = q"
    "(if ucast (rect_bottom q) \<ge> desktopHeight e then q\<lparr>rect_bottom := ucast (desktopHeight e)\<rparr> else q) = q"
    using clip_same [of "rect_right q" "desktopWidth e"] clip_same [of "rect_bottom q" "desktopHeight e"] area a(4,5)
    by (simp_all add: area_ok_def q_def)
  obtain g where g: "reg_union R (accumulatedDamage e) q = (True, g)" "reg_ok R g" "reg_points R g = reg_points R (accumulatedDamage e) \<union> area_points r"
    using union_total [OF acc(1) a(2)] unfolding a(1) by blast
  define e1 where "e1 = e\<lparr>accumulatedDamage := g\<rparr>"
  have e1: "encoder_ok e1" using e by (simp add: e1_def encoder_ok_def)
  obtain view r' where v0: "ogon_encoder_blank_client_view_area e1 (Some q) = Some (e1\<lparr>clientView := view\<rparr>, Some r')"
    "length view = length (clientView e1)"
    "\<forall>k < length view. view ! k = (if pixel_of (unat (scanLine e1)) k \<in> rect_points q \<inter> desktop e1 then 1 else clientView e1 ! k)"
    using blank_area_result [OF e1, of q] by blast
  have "rect_points q \<inter> desktop e1 = area_points r" using a(1,3) by (simp add: e1_def desktop_def Int_absorb2)
  then have v: "length view = length (clientView e)"
    "\<forall>k < length view. view ! k = (if pixel_of (unat (scanLine e)) k \<in> area_points r then 1 else clientView e ! k)"
    using v0(2,3) by (simp_all add: e1_def)
  define e2 where "e2 = e1\<lparr>clientView := view\<rparr>"
  have e2: "encoder_fits R e2" using Cons.prems(1) g(2,3) a(3) v(1) unfolding e2_def e1_def encoder_fits_def encoder_ok_def desktop_def by simp
  have ok2: "area_ok e2 r'" if "r' \<in> set rs" for r' using Cons.prems(2) [of r'] that by (simp add: area_ok_def e2_def e1_def)
  have lt: "(rect_right r < rect_left r) = False" "(rect_bottom r < rect_top r) = False" using area by (auto simp: area_ok_def)
  have step: "refresh_rects R (r # rs) e = refresh_rects R rs e2"
    by (simp only: refresh_rects.simps lt if_False Let_def q_def [symmetric] clip g(1) prod.case e1_def [symmetric] v0(1) e2_def [symmetric]
        option.case not_True_eq_False)
  from Cons.IH [OF e2 ok2] obtain e' g' view' where rec: "refresh_rects R rs e2 = Some (True, e')" and i: "e' = e2\<lparr>accumulatedDamage := g', clientView := view'\<rparr>" "encoder_fits R e'"
    "length view' = length (clientView e2)" "reg_points R g' = reg_points R (accumulatedDamage e2) \<union> (\<Union>r \<in> set rs. area_points r)"
    "\<And>p. if p \<in> (\<Union>r \<in> set rs. area_points r) then blank_pixel (unat (scanLine e2)) view' p
         else same_pixel (unat (scanLine e2)) (clientView e2) view' p"
    by blast
  have fields: "clientView e2 = view" "scanLine e2 = scanLine e" "accumulatedDamage e2 = g" by (simp_all add: e2_def e1_def)
  note i = i [unfolded fields]
  have "if p \<in> (\<Union>r \<in> set (r # rs). area_points r) then blank_pixel (unat (scanLine e)) view' p
         else same_pixel (unat (scanLine e)) (clientView e) view' p" for p
    using i(3) i(5) [of p] v by (auto simp: blank_pixel_def same_pixel_def split: if_splits)
  then show ?case using i(1-4) g(3) v(1) rec unfolding step by (intro exI [of _ e'] exI [of _ g'] exI [of _ view']) (simp add: e2_def e1_def Un_assoc)
qed

end

end
