(* ===== verification/Screen_Instance.thy ===== *)
theory Screen_Instance
  imports Surface Damage_Proofs
begin

text \<open>
  A small instance of the screen: four pixels in a row, a client that uses RemoteFX surface commands, and
  codecs that always have something to send.
\<close>

unbundle bit_operations_syntax

section \<open>An instance\<close>

definition small_settings :: front_settings where
  "small_settings = \<lparr>DesktopWidth = 4, DesktopHeight = 1, ColorDepth = 32, MultifragMaxRequestSize = 65536,
     SurfaceFrameMarkerEnabled = False, SurfaceCommandsEnabled = False, RemoteFxCodec = False, RemoteFxCodecId = 0,
     SupportGraphicsPipeline = False, ConnectionType = 0, FrameAcknowledgeSetting = 0, receivedFrameAckCaps = False\<rparr>"

definition small_front :: "'r ogon_bitmap_encoder option \<Rightarrow> 'r ogon_front_connection" where
  "small_front e = \<lparr>front_state = example_machine, bwState = fresh_bw 30, encoder = e, codecMode = CODEC_MODE_RFX1,
     rdpgfx = the (rdpgfx_server_context_new True True), rdpgfxOutputSurface = 0, rdpgfxRequired = False, rdpgfxConnected = False,
     rdpgfxForbidden = True, rdpgfxH264Forbidden = True, rdpgfxH264Supported = False, rdpgfxH264EnableFullAVC444 = False,
     rdpgfxProgressiveTicks = 0, showDebugInfo = False, fps_measure_timestamp = 0, fps_measured = 0,
     fps_measure_currentfps = 0, bytes_sent_timestamp = 0, bytes_sent = 0, rfxMode = RLGR1, pendingResizeWidth = 0,
     pendingResizeHeight = 0, activationCount = 0, maxWidth = 0, maxHeight = 0,
     initialDesktopWidth = 4, initialDesktopHeight = 1, settings = small_settings\<rparr>"

text \<open>A segment of four pixels in a row: the header, no rectangle, and the picture.\<close>

definition small_segment :: "u8 list" where
  "small_segment = [0xB2, 0xB0, 0xCA, 0xCA, 7, 0, 0, 0, 4, 0, 0, 0, 1, 0, 0, 0, 16, 0, 0, 0, 100, 0, 0, 0] @ replicate 1000 0 @ replicate 16 9"

definition small_screen :: ogon_backend_screen where
  "small_screen = \<lparr>screen_width = 4, screen_height = 1, screen_bpp = 32, screen_bytesPerPixel = 4, screen_scanline = 16,
     damage = Some small_segment, waitingSyncReply = False\<rparr>"

definition new_encoder :: "RECTANGLE_16 list ogon_bitmap_encoder" where
  "new_encoder = \<lparr>desktopWidth = 4, desktopHeight = 1, bitsPerPixel = 32, bytesPerPixel = 4, scanLine = 16, dstBitsPerPixel = 32,
     dstBytesPerPixel = 4, multifragMaxRequestSize = 65536, clientView = replicate 16 1, accumulatedDamage = reg_clear rect_list, rdpRects = [],
     rdpRectsAllocated = 0, bmpStreamSize = 17, h264_context = True\<rparr>"

definition small_link :: "RECTANGLE_16 list front_link" where
  "small_link = \<lparr>front = small_front (Some new_encoder), backend = Some small_screen, sent = []\<rparr>"

definition small_codecs :: codecs where
  "small_codecs = \<lparr>rfx_encode_message = (\<lambda>mode rects data w h line. Some \<lparr>frameIdx = 1, rfx_rects = rects, numQuant = 0, quantVals = [],
       rfx_tiles = []\<rparr>),
     rfx_write_message = (\<lambda>msg. Some [9]), bitmap_compress = (\<lambda>bs w h. Some (take (h * w * 4) bs)), bitmap_mem = (\<lambda>_. True),
     planar_compress = (\<lambda>bs w h line. None), ogon_openh264_compress = (\<lambda>w h data mode. (False, [], False)), stream_capacity = (\<lambda>_. True),
     wire_fmt = le_wire, surface_bits_set = True, bandwidth_start = (\<lambda>_. True), bandwidth_stop = (\<lambda>_. True), bitmap_update = (\<lambda>_. True)\<rparr>"

definition no_debug :: debug_env where
  "no_debug = \<lparr>debug_font = (\<lambda>_. []), debug_text = [], debug_mem = False, debug_buffer = [], debug_own = None\<rparr>"

section \<open>A frame of the instance\<close>

lemma le_read_4: "le_read 4 (a # b # c # d # bs) = ucast a OR push_bit 8 (ucast b OR push_bit 8 (ucast c OR push_bit 8 (ucast d)))"
  by (simp add: numeral_eq_Suc)

lemma small_dmgbuf: "dmgbuf_ok small_segment 7 4 1 16"
  by (simp add: dmgbuf_ok_def small_segment_def peek_def dmgbuf_layout OGON_DMGBUF_MAGIC_def le_read_4)

lemma new_encoder_new: "ogon_bitmap_encoder_new (\<lambda>_. True) rect_list 4 1 32 4 16 32 65536 =
    Some (Some new_encoder, snd (the (ogon_bitmap_encoder_new (\<lambda>_. True) rect_list 4 1 32 4 16 32 65536)))"
  by (simp add: ogon_bitmap_encoder_new_def OGON_ENCODER_MIN_MULTIFRAG_REQUEST_SIZE_def int_ok_def dst_format_known_def
      ogon_encoder_blank_client_view_area_def memset_def encoder_contexts_def ogon_create_encoder_bmp_context_def Let_def new_encoder_def)

lemma small_simplify: "simplify_damagedRegion rect_list [] (replicate 16 9) (new_encoder\<lparr>accumulatedDamage := [whole_screen small_screen]\<rparr>)
    [whole_screen small_screen] 32 32 False = Some (True, [whole_screen small_screen], replicate 16 9, 4)"
  by code_simp

lemma small_fb: "ogon_dmgbuf_get_data (Some small_segment) = Some (Some (replicate 16 9))"
proof -
  have "drop OGON_DMGBUF_POS_DATA small_segment = replicate 16 9" by (simp add: POS_DATA small_segment_def)
  then show ?thesis using small_dmgbuf by (simp add: dmgbuf_ok_def ogon_dmgbuf_get_data_def if_good_def OGON_DMGBUF_GOOD_def)
qed

lemma rect_list_ops: "reg_rects rect_list g = g" "reg_clear rect_list = []" "reg_is_empty rect_list g = (g = [])"
    "reg_union rect_list g r = (True, g @ [r])"
  by (simp_all add: rect_list_def)

lemma small_send_frame:
  assumes "codecMode f = CODEC_MODE_RFX1" "\<not> showDebugInfo f" "settings f = small_settings" "bwState f = fresh_bw 30" "\<not> rdpgfxConnected f"
  shows "\<exists>outs f'. send_frame rect_list small_codecs no_debug True True f e (Some small_segment) 32 dmg = Some (0, outs, f', Some small_segment)"
  using assms small_fb
  by (simp add: send_frame_def no_debug_def Let_def ogon_send_frame_marker_def small_settings_def send_graphics_def ogon_send_rdp_rfx_bits_def
    small_codecs_def measured_def ogon_bwmgmt_detect_bandwidth_start_def ogon_bwmgmt_detect_bandwidth_stop_def split: prod.split)

lemma small_frame:
  assumes "front s = (small_front (Some (new_encoder\<lparr>accumulatedDamage := [whole_screen small_screen]\<rparr>)))\<lparr>front_state := q\<rparr>"
    "backend s = Some b" "damage b = Some small_segment"
  shows "\<exists>outs s'. ogon_send_surface_bits rect_list small_codecs no_debug (\<lambda>_. True) True True s = Some (0, outs, s')"
proof -
  let ?e = "new_encoder\<lparr>accumulatedDamage := [whole_screen small_screen]\<rparr>"
  let ?f = "(front s)\<lparr>encoder := Some (?e\<lparr>clientView := replicate 16 9\<rparr>), rdpgfxProgressiveTicks := 0\<rparr>"
  have a: "ogon_send_surface_bits rect_list small_codecs no_debug (\<lambda>_. True) True True s =
    send_damage rect_list small_codecs no_debug True True ?e b (replicate 16 9) s"
    using assms small_fb by (simp add: ogon_send_surface_bits_def small_front_def)
  obtain outs f' where fr: "send_frame rect_list small_codecs no_debug True True ?f (?e\<lparr>clientView := replicate 16 9\<rparr>) (Some small_segment) 32
      [whole_screen small_screen] = Some (0, outs, f', Some small_segment)"
    using small_send_frame [of ?f "?e\<lparr>clientView := replicate 16 9\<rparr>" "[whole_screen small_screen]"] assms(1) by (auto simp: small_front_def)
  have "rdpgfxConnected (front s) = False" "accumulatedDamage ?e = [whole_screen small_screen]" using assms(1) by (simp_all add: small_front_def)
  then show ?thesis using fr unfolding a send_damage_def Let_def
    by (simp add: rect_list_ops small_simplify assms(3) upd_front_def)
qed

lemma force_sync_front:
  assumes "backend s = Some b"
  shows "\<exists>q b'. front (force_sync s) = (front s)\<lparr>front_state := q\<rparr> \<and> backend (force_sync s) = Some b' \<and> damage b' = damage b"
proof (cases "force_sync s = s")
  case True
  then show ?thesis using assms by (intro exI [of _ "front_state (front s)"] exI [of _ b]) simp
next
  case False
  then show ?thesis using assms by (auto simp: force_sync_def emit_def set_event_def upd_front_def split: if_splits)
qed

lemma small_request:
  "\<exists>s q b. initiate_immediate_request rect_list True small_link = (True, s) \<and>
     front s = (small_front (Some (new_encoder\<lparr>accumulatedDamage := [whole_screen small_screen]\<rparr>)))\<lparr>front_state := q\<rparr> \<and>
     backend s = Some b \<and> damage b = Some small_segment"
proof -
  let ?e = "new_encoder\<lparr>accumulatedDamage := [whole_screen small_screen]\<rparr>"
  let ?s = "small_link\<lparr>front := small_front (Some ?e)\<rparr>"
  have b: "backend ?s = Some small_screen" by (simp add: small_link_def)
  have "initiate_immediate_request rect_list True small_link = (True, force_sync ?s)"
    by (simp add: initiate_immediate_request_def small_link_def set_full_damage_def rect_list_ops upd_front_def small_front_def)
  then show ?thesis using force_sync_front [OF b] by (auto simp: small_screen_def)
qed

end
