(* ===== verification/Display_Proofs.thy ===== *)
theory Display_Proofs
  imports Display Screen_Instance
begin

text \<open>
  Every step of the display keeps its invariant, so that outside the pending damage the screen of the
  client is the frame buffer of the backend.
\<close>

section \<open>The encoder after a frame\<close>

lemma send_frame_encoder:
  assumes "send_frame R C D hb mem f e segment tileSize dmg = Some (ret, outs, f', segment')" "\<not> showDebugInfo f"
  shows "\<exists>rs k. encoder f' = Some (e\<lparr>rdpRects := rs, rdpRectsAllocated := k\<rparr>)" "segment' = segment"
proof -
  show "\<exists>rs k. encoder f' = Some (e\<lparr>rdpRects := rs, rdpRectsAllocated := k\<rparr>)" using send_frame_keeps [OF assms(1)] by blast
  have "(case debug_own D of None \<Rightarrow> (case debug_own D of None \<Rightarrow> segment | Some own \<Rightarrow> own) | Some _ \<Rightarrow> segment) = segment"
    by (cases "debug_own D") simp_all
  then show "segment' = segment" using assms by (auto simp: send_frame_def Let_def split: option.splits prod.splits)
qed

lemma send_damage_encoder:
  assumes send: "send_damage R C D hb mem e b fb s = Some (ret, outs, s')" and plain: "\<not> showDebugInfo (front s)" and b: "backend s = Some b"
    and simp: "simplify_damagedRegion R (reg_clear R) fb e (accumulatedDamage e) (tile_size_of s) (tile_size_of s)
      (rdpgfxConnected (front s)) = Some (True, dmg, view, n)"
  shows "(\<exists>rs k. encoder (front s') = Some (e\<lparr>clientView := view, accumulatedDamage := reg_clear R, rdpRects := rs, rdpRectsAllocated := k\<rparr>)) \<and>
    backend s' = Some b"
proof -
  define s1 where "s1 = upd_front (\<lambda>f. f\<lparr>encoder := Some (e\<lparr>clientView := view\<rparr>)\<rparr>) s"
  define f where "f = (if reg_is_empty R dmg then front s1 else (front s1)\<lparr>rdpgfxProgressiveTicks := 0\<rparr>)"
  have s1: "encoder (front s1) = Some (e\<lparr>clientView := view\<rparr>)" "backend s1 = Some b" "\<not> showDebugInfo f"
    using plain b by (simp_all add: s1_def f_def upd_front_def)
  have eq: "(if reg_is_empty R dmg \<and> rdpgfxProgressiveTicks (front s1) = 0 then Some (0, [], upd_front (clear_damage R) s1)
      else map_option (\<lambda>(ret, outs, f, segment). (ret, outs, s1\<lparr>front := clear_damage R f, backend := Some (b\<lparr>damage := segment\<rparr>)\<rparr>))
        (send_frame R C D hb mem f (e\<lparr>clientView := view\<rparr>) (damage b) (tile_size_of s) dmg)) = Some (ret, outs, s')"
    using send unfolding send_damage_def Let_def tile_size_of_def [symmetric] simp option.case prod.case s1_def [symmetric] f_def [symmetric]
    by simp
  show ?thesis
  proof (cases "reg_is_empty R dmg \<and> rdpgfxProgressiveTicks (front s1) = 0")
    case True
    then have "s' = upd_front (clear_damage R) s1" using eq by simp
    then show ?thesis using s1
      by (intro conjI exI [of _ "rdpRects e"] exI [of _ "rdpRectsAllocated e"]) (simp_all add: upd_front_def clear_damage_def)
  next
    case False
    then obtain f' segment where fr: "send_frame R C D hb mem f (e\<lparr>clientView := view\<rparr>) (damage b) (tile_size_of s) dmg = Some (ret, outs, f', segment)"
      "s' = s1\<lparr>front := clear_damage R f', backend := Some (b\<lparr>damage := segment\<rparr>)\<rparr>"
      using eq by auto
    obtain rs k where "encoder f' = Some (e\<lparr>clientView := view, rdpRects := rs, rdpRectsAllocated := k\<rparr>)" "segment = damage b"
      using send_frame_encoder [OF fr(1) s1(3)] by blast
    then show ?thesis using fr(2) by (intro conjI exI [of _ rs] exI [of _ k]) (simp_all add: clear_damage_def)
  qed
qed

lemma surface_bits_encoder:
  assumes send: "ogon_send_surface_bits R C D gfx_ok hb mem s = Some (0, outs, s')"
    and parts: "display_parts s e b m" "segment_ok e m" and plain: "\<not> showDebugInfo (front s)"
      "\<not> rdpgfxRequired (front s) \<or> rdpgfxOutputSurface (front s) \<noteq> 0"
    and simp: "simplify_damagedRegion R (reg_clear R) (fb_of m) e (accumulatedDamage e) (tile_size_of s) (tile_size_of s)
      (rdpgfxConnected (front s)) = Some (True, dmg, view, n)"
  shows "(\<exists>rs k. encoder (front s') = Some (e\<lparr>clientView := view, accumulatedDamage := reg_clear R, rdpRects := rs, rdpRectsAllocated := k\<rparr>)) \<and>
    backend s' = Some b"
proof -
  define s1 where "s1 = (if rdpgfxRequired (front s) then upd_front (\<lambda>f. h264_switch f e) s else s)"
  have s1: "backend s1 = Some b" "rdpgfxConnected (front s1) = rdpgfxConnected (front s)" "\<not> showDebugInfo (front s1)"
    using parts(1) plain(1) by (auto simp: s1_def upd_front_def h264_switch_def display_parts_def)
  have "send_damage R C D hb mem e b (fb_of m) s1 = Some (0, outs, s')"
    using send parts plain segment_data [OF parts(2)]
    by (auto simp: ogon_send_surface_bits_def display_parts_def s1_def [symmetric] split: if_splits)
  from send_damage_encoder [OF this s1(3,1)] show ?thesis using simp s1(2) by (simp add: tile_size_of_def)
qed

lemma encoder_cong:
  assumes "e' = e\<lparr>clientView := v, accumulatedDamage := g, rdpRects := rs, rdpRectsAllocated := k\<rparr>" "length v = length (clientView e)"
  shows "encoder_ok e' = encoder_ok e" "desktop e' = desktop e" "segment_ok e' m = segment_ok e m"
  using assms by (auto simp: encoder_ok_def desktop_def segment_ok_def)

lemma display_invI:
  assumes "display_parts s e b m" "encoder_fits R e" "segment_ok e m" "screen_width b = desktopWidth e" "screen_height b = desktopHeight e"
    "length scr = length (clientView e)" "shows_fb R e (fb_of m) scr" "view_known e scr"
  shows "display_inv R (s, scr)"
  using assms unfolding display_inv_def fst_conv snd_conv by blast

text \<open>
  After a frame every pixel is shown as it is: the damaged ones are painted, and the others were
  compared with a view that knows them.
\<close>

lemma painted_shows:
  assumes "painted (unat (scanLine e)) fb (reg_points R dmg) scr scr'"
    and "stale (unat (scanLine e)) fb (reg_points R (accumulatedDamage e)) (clientView e) \<subseteq> reg_points R dmg"
    and "shows_fb R e fb scr" "view_known e scr" "\<And>q. q \<in> desktop e \<Longrightarrow> \<not> blank_pixel (unat (scanLine e)) fb q" "p \<in> desktop e"
    and len: "length scr' = length scr" "length fb = length scr" "length (clientView e) = length scr"
  shows "same_pixel (unat (scanLine e)) scr' fb p"
proof (cases "same_pixel (unat (scanLine e)) fb scr' p")
  case True
  then show ?thesis using len by (simp add: same_pixel_sym)
next
  case False
  then have p: "p \<notin> reg_points R dmg" "same_pixel (unat (scanLine e)) scr scr' p" using assms(1) unfolding painted_def by blast+
  have "same_pixel (unat (scanLine e)) scr fb p"
  proof (cases "p \<in> reg_points R (accumulatedDamage e)")
    case True
    then have view: "same_pixel (unat (scanLine e)) (clientView e) fb p" using not_stale_pixel assms(2) p(1) by blast
    then have "\<not> blank_pixel (unat (scanLine e)) (clientView e) p" using same_pixel_blank [OF view] assms(5,6) len by metis
    then have "same_pixel (unat (scanLine e)) (clientView e) scr p" using assms(4,6) by (auto simp: view_known_def)
    then show ?thesis using view same_pixel_sym same_pixel_trans len by metis
  qed (use assms(3,6) in \<open>auto simp: shows_fb_def\<close>)
  then show ?thesis using p(2) same_pixel_sym same_pixel_trans len by metis
qed

lemma view_after_frame:
  assumes "updated (unat (scanLine e)) fb (reg_points R (accumulatedDamage e)) (clientView e) view" "shows_fb R e fb scr" "view_known e scr"
    and "p \<in> desktop e" and shown: "same_pixel (unat (scanLine e)) scr' fb p"
    and len: "length scr' = length scr" "length fb = length scr" "length (clientView e) = length scr" "length view = length scr"
  shows "same_pixel (unat (scanLine e)) view scr' p \<or> blank_pixel (unat (scanLine e)) view p"
proof (cases "p \<in> reg_points R (accumulatedDamage e)")
  case True
  then have "same_pixel (unat (scanLine e)) view fb p" using updated_pixel(1) [OF assms(1)] by simp
  then show ?thesis using shown same_pixel_sym same_pixel_trans len by metis
next
  case False
  then have view: "same_pixel (unat (scanLine e)) (clientView e) view p" using updated_pixel(2) [OF assms(1)] by simp
  have "same_pixel (unat (scanLine e)) scr fb p" using assms(2,4) False by (auto simp: shows_fb_def)
  then have "same_pixel (unat (scanLine e)) scr scr' p" using shown same_pixel_sym same_pixel_trans len by metis
  moreover have "same_pixel (unat (scanLine e)) (clientView e) scr p \<or> blank_pixel (unat (scanLine e)) (clientView e) p"
    using assms(3,4) by (auto simp: view_known_def)
  ultimately show ?thesis using view same_pixel_sym same_pixel_trans same_pixel_blank len by metis
qed

lemma with_encoder_same: "encoder (front s) = Some e \<Longrightarrow> with_encoder e s = s"
  by (cases s; cases "front s") (simp add: with_encoder_def upd_front_def)

lemma request_result:
  assumes "initiate_immediate_request R setDamage s = (True, s')" "display_parts s e b m" "set_full_damage R b e = (True, e1)"
  shows "s' = force_sync (with_encoder (if setDamage then e1 else e) s)"
proof (cases setDamage)
  case True
  then show ?thesis using assms by (simp add: initiate_immediate_request_def display_parts_def with_encoder_def)
next
  case False
  then show ?thesis using assms with_encoder_same [of s e] by (simp add: initiate_immediate_request_def display_parts_def)
qed

lemma force_sync_parts:
  assumes "display_parts s e b m"
  shows "\<exists>b'. display_parts (force_sync (with_encoder e' s)) e' b' m \<and> screen_width b' = screen_width b \<and> screen_height b' = screen_height b"
  using assms by (simp add: force_sync_def display_parts_def emit_def set_event_def upd_front_def with_encoder_def)

context region_memory
begin

lemma sync_keeps:
  assumes inv: "display_inv R (s, scr)" and parts: "display_parts s e b m" and rp: "repaint e m m'"
    and c: "ogon_backend_consume_damage R (Some m') e = Some (0, e')"
  shows "display_inv R ((with_encoder e' s)\<lparr>backend := Some (b\<lparr>damage := Some m'\<rparr>)\<rparr>, scr)"
proof -
  have i: "encoder_fits R e" "segment_ok e m" "screen_width b = desktopWidth e" "screen_height b = desktopHeight e"
    "length scr = length (clientView e)" "shows_fb R e (fb_of m) scr" "view_known e scr"
    using inv parts by (auto simp: display_inv_def display_parts_def)
  obtain n where n: "segment_ok e m'" "peek m' OGON_DMGBUF_POS_NUM_RECTS = Some n"
    "\<And>p. p \<notin> listed e m' (unat n) \<Longrightarrow> same_pixel (unat (scanLine e)) (fb_of m) (fb_of m') p" using rp by (auto simp: repaint_def)
  obtain g where g: "e' = e\<lparr>accumulatedDamage := g\<rparr>" "encoder_fits R e'" "reg_points R g = reg_points R (accumulatedDamage e) \<union> listed e m' (unat n)"
    using consume_result [OF i(1) n(1,2) c] by blast
  have len: "length (fb_of m) = length scr" using fb_length [OF i(2)] i(1,5) by (simp add: encoder_fits_def)
  have "shows_fb R e' (fb_of m') scr"
    using i(6) g(3) n(3) len same_pixel_trans unfolding shows_fb_def g(1) by (fastforce simp: desktop_def)
  moreover have "view_known e' scr" using i(7) unfolding g(1) view_known_def by (simp add: desktop_def)
  moreover have "segment_ok e' m'" using n(1) unfolding g(1) by (simp add: segment_ok_def desktop_def)
  ultimately show ?thesis using i(3-5) g(1,2)
    by (intro display_invI [where e = e' and b = "b\<lparr>damage := Some m'\<rparr>"]) (simp_all add: display_parts_def with_encoder_def upd_front_def)
qed

lemma frame_keeps:
  assumes inv: "display_inv R (s, scr)" and parts: "display_parts s e b m" and plain: "\<not> showDebugInfo (front s)"
      "\<not> rdpgfxRequired (front s) \<or> rdpgfxOutputSurface (front s) \<noteq> 0"
    and simp: "simplify_damagedRegion R (reg_clear R) (fb_of m) e (accumulatedDamage e) (tile_size_of s) (tile_size_of s)
      (rdpgfxConnected (front s)) = Some (True, dmg, view, n)"
    and send: "ogon_send_surface_bits R C D gfx_ok have_backend True s = Some (0, outs, s')"
    and paint: "painted (unat (scanLine e)) (fb_of m) (reg_points R dmg) scr scr'"
  shows "display_inv R (s', scr')"
proof -
  let ?line = "unat (scanLine e)" and ?acc = "reg_points R (accumulatedDamage e)" and ?fb = "fb_of m"
  have i: "encoder_fits R e" "segment_ok e m" "screen_width b = desktopWidth e" "screen_height b = desktopHeight e"
    "length scr = length (clientView e)" "shows_fb R e ?fb scr" "view_known e scr"
    using inv parts by (auto simp: display_inv_def display_parts_def)
  have e: "encoder_ok e" "unat (desktopWidth e) < 2 ^ 16" "unat (desktopHeight e) < 2 ^ 16" "reg_ok R (accumulatedDamage e)" "?acc \<subseteq> desktop e"
    using i(1) by (auto simp: encoder_fits_def)
  have len: "length ?fb = length (clientView e)" "length scr' = length scr" using fb_length [OF i(2) e(1)] paint by (simp_all add: painted_def)
  have "0 < tile_size_of s" by (simp add: tile_size_of_def)
  from simplify_result [OF e(1-3) len(1) e(4,5) this this, of "rdpgfxConnected (front s)"]
  obtain dmg' view' n' where r: "simplify_damagedRegion R (reg_clear R) ?fb e (accumulatedDamage e) (tile_size_of s) (tile_size_of s)
      (rdpgfxConnected (front s)) = Some (True, dmg', view', n')" "updated ?line ?fb ?acc (clientView e) view'"
    "stale ?line ?fb ?acc (clientView e) \<subseteq> reg_points R dmg'" by blast
  have "dmg' = dmg" "view' = view" using r(1) unfolding simp by simp_all
  then have up: "updated ?line ?fb ?acc (clientView e) view" and st: "stale ?line ?fb ?acc (clientView e) \<subseteq> reg_points R dmg" using r(2,3) by simp_all
  have lv: "length view = length (clientView e)" using up by (rule updated_length)
  obtain rs k where e': "encoder (front s') = Some (e\<lparr>clientView := view, accumulatedDamage := reg_clear R, rdpRects := rs, rdpRectsAllocated := k\<rparr>)"
    "backend s' = Some b" using surface_bits_encoder [OF send parts i(2) plain simp] by blast
  define e2 where "e2 = e\<lparr>clientView := view, accumulatedDamage := reg_clear R, rdpRects := rs, rdpRectsAllocated := k\<rparr>"
  note c = encoder_cong [OF e2_def lv]
  have f: "scanLine e2 = scanLine e" "clientView e2 = view" "accumulatedDamage e2 = reg_clear R" "desktopWidth e2 = desktopWidth e"
    "desktopHeight e2 = desktopHeight e" by (simp_all add: e2_def)
  have nb: "\<not> blank_pixel ?line ?fb q" if "q \<in> desktop e" for q using i(2) that unfolding segment_ok_def by blast
  have lens: "length ?fb = length scr" "length (clientView e) = length scr" "length view = length scr" using len(1) i(5) lv by simp_all
  have shown: "same_pixel ?line scr' ?fb p" if p: "p \<in> desktop e" for p
    by (rule painted_shows [OF paint st i(6,7) nb p len(2) lens(1,2)])
  have "shows_fb R e2 ?fb scr'" using shown by (simp add: shows_fb_def c(2) f)
  moreover have "view_known e2 scr'"
    using view_after_frame [OF up i(6,7) _ shown len(2) lens] unfolding view_known_def c(2) f by blast
  moreover have "encoder_fits R e2" using i(1) clear_ok clear_points unfolding encoder_fits_def c f by simp
  moreover have "display_parts s' e2 b m" using e' parts unfolding e2_def [symmetric] by (simp add: display_parts_def)
  moreover have "segment_ok e2 m" using i(2) c(3) by simp
  ultimately show ?thesis using i(3-5) len lv by (intro display_invI [where e = e2 and b = b and m = m]) (simp_all add: f)
qed

lemma refresh_keeps:
  assumes inv: "display_inv R (s, scr)" and parts: "display_parts s e b m" and areas: "\<And>r. r \<in> set areas \<Longrightarrow> area_ok e r"
    and ref: "refresh_rects R areas e = Some (True, e')" and len: "length scr' = length scr"
    and out: "\<And>p. p \<notin> (\<Union>r \<in> set areas. area_points r) \<Longrightarrow> same_pixel (unat (scanLine e)) scr scr' p"
  shows "display_inv R (with_encoder e' s, scr')"
proof -
  let ?line = "unat (scanLine e)" and ?A = "\<Union>r \<in> set areas. area_points r"
  have i: "encoder_fits R e" "segment_ok e m" "screen_width b = desktopWidth e" "screen_height b = desktopHeight e"
    "length scr = length (clientView e)" "shows_fb R e (fb_of m) scr" "view_known e scr"
    using inv parts by (auto simp: display_inv_def display_parts_def)
  obtain g view where r: "e' = e\<lparr>accumulatedDamage := g, clientView := view\<rparr>" "encoder_fits R e'" "length view = length (clientView e)"
    "reg_points R g = reg_points R (accumulatedDamage e) \<union> ?A"
    "\<And>p. if p \<in> ?A then blank_pixel ?line view p else same_pixel ?line (clientView e) view p"
    using refresh_rects_result [OF i(1), of areas, OF areas] unfolding ref option.inject prod.inject by blast
  have f: "scanLine e' = scanLine e" "clientView e' = view" "accumulatedDamage e' = g" "desktopWidth e' = desktopWidth e"
    "desktopHeight e' = desktopHeight e" "desktop e' = desktop e" "segment_ok e' m = segment_ok e m"
    by (simp_all add: r(1) desktop_def segment_ok_def)
  have "same_pixel ?line scr' (fb_of m) p" if "p \<in> desktop e" "p \<notin> reg_points R (accumulatedDamage e)" "p \<notin> ?A" for p
    using i(6) that out [OF that(3)] len same_pixel_sym same_pixel_trans unfolding shows_fb_def by (metis DiffI)
  then have "shows_fb R e' (fb_of m) scr'" unfolding shows_fb_def f r(4) by blast
  moreover have "same_pixel ?line view scr' p \<or> blank_pixel ?line view p" if p: "p \<in> desktop e" for p
  proof (cases "p \<in> ?A")
    case True
    then show ?thesis using r(5) [of p] by simp
  next
    case False
    then have "same_pixel ?line (clientView e) view p" using r(5) [of p] by simp
    moreover have "same_pixel ?line (clientView e) scr p \<or> blank_pixel ?line (clientView e) p" using i(7) p unfolding view_known_def by blast
    ultimately show ?thesis using out [OF False] r(3) i(5) len same_pixel_sym same_pixel_trans same_pixel_blank by metis
  qed
  then have "view_known e' scr'" unfolding view_known_def f by blast
  ultimately show ?thesis using i(2-5) r(2,3) len parts
    by (intro display_invI [where e = e' and b = b and m = m]) (simp_all add: f display_parts_def with_encoder_def upd_front_def)
qed

lemma full_damage_result:
  assumes "encoder_fits R e" "encoder_ok e" "screen_width b = desktopWidth e" "screen_height b = desktopHeight e"
  shows "\<exists>g. set_full_damage R b e = (True, e\<lparr>accumulatedDamage := g\<rparr>) \<and> encoder_fits R (e\<lparr>accumulatedDamage := g\<rparr>) \<and> reg_points R g = desktop e"
proof -
  have d: "unat (desktopWidth e) < 2 ^ 16" "unat (desktopHeight e) < 2 ^ 16" using assms(1) by (auto simp: encoder_fits_def)
  then have u: "unat (ucast (desktopWidth e) :: u16) = unat (desktopWidth e)" "unat (ucast (desktopHeight e) :: u16) = unat (desktopHeight e)"
    by (simp_all add: unat_ucast_le)
  have pos: "0 < unat (desktopWidth e)" "0 < unat (desktopHeight e)" using assms(2) by (auto simp: encoder_ok_def)
  have w: "rect_ok (whole_screen b)" "rect_points (whole_screen b) = desktop e"
    using pos u assms(3,4) by (auto simp: whole_screen_def rect_ok_def rect_points_def desktop_def word_less_nat_alt)
  obtain g where "reg_union R (reg_clear R) (whole_screen b) = (True, g)" "reg_ok R g" "reg_points R g = desktop e"
    using union_total [OF clear_ok w(1)] clear_points w(2) by auto
  then show ?thesis using assms(1,2)
    by (intro exI [of _ g]) (auto simp: set_full_damage_def encoder_fits_def encoder_ok_def desktop_def)
qed

lemma request_keeps:
  assumes inv: "display_inv R (s, scr)" and req: "initiate_immediate_request R setDamage s = (True, s')"
  shows "display_inv R (s', scr)"
proof -
  obtain e b m where parts: "display_parts s e b m" and i: "encoder_fits R e" "segment_ok e m" "screen_width b = desktopWidth e"
    "screen_height b = desktopHeight e" "length scr = length (clientView e)" "shows_fb R e (fb_of m) scr" "view_known e scr"
    using inv unfolding display_inv_def fst_conv snd_conv by blast
  obtain g where g: "set_full_damage R b e = (True, e\<lparr>accumulatedDamage := g\<rparr>)" "encoder_fits R (e\<lparr>accumulatedDamage := g\<rparr>)"
    "reg_points R g = desktop e" using full_damage_result [OF i(1) _ i(3,4)] i(1) by (auto simp: encoder_fits_def)
  define e' where "e' = (if setDamage then e\<lparr>accumulatedDamage := g\<rparr> else e)"
  obtain b' where b': "display_parts s' e' b' m" "screen_width b' = screen_width b" "screen_height b' = screen_height b"
    using force_sync_parts [OF parts] unfolding request_result [OF req parts g(1)] e'_def by blast
  have f: "encoder_fits R e'" "segment_ok e' m" "shows_fb R e' (fb_of m) scr" "view_known e' scr"
    using i(1,2,6,7) g(2,3) by (simp_all add: e'_def segment_ok_def shows_fb_def view_known_def desktop_def)
  have "clientView e' = clientView e" "desktopWidth e' = desktopWidth e" "desktopHeight e' = desktopHeight e" by (simp_all add: e'_def)
  then show ?thesis using i(3-5) b'(2,3) by (intro display_invI [OF b'(1) f(1,2) _ _ _ f(3,4)]) simp_all
qed

lemma display_step_keeps: "display_step R st st' \<Longrightarrow> display_inv R st \<Longrightarrow> display_inv R st'"
proof (induction rule: display_step.induct)
  case (sync s e b m m' e' scr)
  show ?case by (rule sync_keeps [OF sync.prems sync.hyps])
next
  case (frame s e b m dmg view n C D gfx_ok have_backend outs s' scr scr')
  show ?case by (rule frame_keeps [OF frame.prems frame.hyps])
next
  case (refresh s e b m areas e' scr' scr)
  show ?case by (rule refresh_keeps [OF refresh.prems refresh.hyps])
next
  case (request setDamage s s' scr)
  show ?case by (rule request_keeps [OF request.prems request.hyps])
qed

lemma display_reachable: "rtranclp (display_step R) st st' \<Longrightarrow> display_inv R st \<Longrightarrow> display_inv R st'"
  by (induction rule: rtranclp_induct) (auto intro: display_step_keeps)

lemma new_display:
  assumes new: "ogon_bitmap_encoder_new alloc R w h bpp 4 scan dstBpp maxRequestSize = Some (Some e, res)" "w < 2 ^ 15" "h < 2 ^ 15"
    and parts: "display_parts s e b m" "segment_ok e m" "screen_width b = desktopWidth e" "screen_height b = desktopHeight e"
      "length scr = length (fb_of m)"
    and req: "initiate_immediate_request R True s = (True, s')"
  shows "display_inv R (s', scr)"
proof -
  note e = encoder_new_ok [OF new(1)]
  have "unat (desktopWidth e) < 2 ^ 15" "unat (desktopHeight e) < 2 ^ 15" using e(4,5) new(2,3) by simp_all
  then have fits: "encoder_fits R e" using e(1,3) clear_ok clear_points by (simp add: encoder_fits_def)
  then obtain g where g: "set_full_damage R b e = (True, e\<lparr>accumulatedDamage := g\<rparr>)" "encoder_fits R (e\<lparr>accumulatedDamage := g\<rparr>)"
    "reg_points R g = desktop e" using full_damage_result [OF _ e(1) parts(3,4)] by blast
  define e' where "e' = e\<lparr>accumulatedDamage := g\<rparr>"
  have "s' = force_sync (with_encoder e' s)" using request_result [OF req parts(1) g(1)] by (simp add: e'_def)
  then obtain b' where b': "display_parts s' e' b' m" "screen_width b' = screen_width b" "screen_height b' = screen_height b"
    using force_sync_parts [OF parts(1)] by blast
  have "\<forall>k < length (clientView e). clientView e ! k = 1" using e(2) by (metis nth_replicate)
  then have view: "view_known e' scr" by (auto simp: view_known_def blank_pixel_def e'_def)
  have f: "segment_ok e' m" "shows_fb R e' (fb_of m) scr" "encoder_fits R e'"
    using parts(2) g(2,3) by (simp_all add: e'_def segment_ok_def shows_fb_def desktop_def)
  have "clientView e' = clientView e" "desktopWidth e' = desktopWidth e" "desktopHeight e' = desktopHeight e" by (simp_all add: e'_def)
  then show ?thesis using parts(3-5) b'(2,3) fb_length [OF parts(2) e(1)] by (intro display_invI [OF b'(1) f(3,1) _ _ _ f(2) view]) simp_all
qed

end


lemma small_fb_of: "fb_of small_segment = replicate 16 9"
  by (simp add: fb_of_def POS_DATA small_segment_def)

lemma small_segment_ok: "segment_ok new_encoder small_segment"
proof -
  have "\<not> blank_pixel 16 (replicate 16 9) (x, 0)" if "x < 4" for x
    using that by (auto simp: blank_pixel_def pixel_of_def intro!: exI [of _ "4 * x"])
  then show ?thesis using small_dmgbuf small_fb_of by (auto simp: segment_ok_def new_encoder_def desktop_def)
qed

lemma small_parts: "display_parts small_link new_encoder small_screen small_segment"
  by (simp add: display_parts_def small_link_def small_front_def small_screen_def)


end
