(* ===== verification/Encoder_Typing.thy ===== *)
theory Encoder_Typing
  imports Display_Proofs
begin

text \<open>
  The bitmap encoder as a typed object: the operations that change one, and that none of them leaves its
  buffers or the desktop.
\<close>

section \<open>The operations\<close>

text \<open>
  The damage of a backend, a refresh request, a full damage, a new request size, the comparison of the
  client view with the frame buffer before a frame, and the end of a frame.
\<close>

datatype encoder_op =
    Consume "u8 list"
  | Refresh "RECTANGLE_16 list"
  | FullDamage ogon_backend_screen
  | MaxRequest u32
  | Compare "u8 list" bool
  | ClearDamage

fun encoder_step :: "'r region16 \<Rightarrow> encoder_op \<Rightarrow> 'r ogon_bitmap_encoder \<Rightarrow> 'r ogon_bitmap_encoder option" where
  "encoder_step R (Consume m) e = map_option snd (ogon_backend_consume_damage R (Some m) e)"
| "encoder_step R (Refresh areas) e = map_option snd (refresh_rects R areas e)"
| "encoder_step R (FullDamage b) e = Some (snd (set_full_damage R b e))"
| "encoder_step R (MaxRequest n) e = snd (ogon_bitmap_encoder_update_maxrequest_size (Some e) n)"
| "encoder_step R (Compare m gfx) e =
     map_option (\<lambda>(_, _, view, _). e\<lparr>clientView := view\<rparr>)
       (simplify_damagedRegion R (reg_clear R) (fb_of m) e (accumulatedDamage e) (if gfx then 64 else 32) (if gfx then 64 else 32) gfx)"
| "encoder_step R ClearDamage e = Some (e\<lparr>accumulatedDamage := reg_clear R\<rparr>)"

fun encoder_run :: "'r region16 \<Rightarrow> encoder_op list \<Rightarrow> 'r ogon_bitmap_encoder \<Rightarrow> 'r ogon_bitmap_encoder option" where
  "encoder_run R [] e = Some e"
| "encoder_run R (op # ops) e = Option.bind (encoder_step R op e) (encoder_run R ops)"

text \<open>
  The arguments the callers give: segments made for the screen that list at most as many rectangles as
  there is room for, areas on the desktop, and a backend of the same size.
\<close>

definition segment_for :: "'r ogon_bitmap_encoder \<Rightarrow> u8 list \<Rightarrow> bool" where
  "segment_for e m \<longleftrightarrow> (\<exists>shmid. dmgbuf_ok m shmid (unat (desktopWidth e)) (unat (desktopHeight e)) (unat (scanLine e)))"

definition op_ok :: "'r ogon_bitmap_encoder \<Rightarrow> encoder_op \<Rightarrow> bool" where
  "op_ok e op \<longleftrightarrow> (case op of
       Consume m \<Rightarrow> segment_for e m \<and> (\<exists>n. peek m OGON_DMGBUF_POS_NUM_RECTS = Some n \<and> unat n \<le> OGON_DMGBUF_MAX_RECTS)
     | Refresh areas \<Rightarrow> (\<forall>r \<in> set areas. area_ok e r)
     | FullDamage b \<Rightarrow> screen_width b = desktopWidth e \<and> screen_height b = desktopHeight e
     | Compare m _ \<Rightarrow> segment_for e m
     | _ \<Rightarrow> True)"

definition same_screen :: "'r ogon_bitmap_encoder \<Rightarrow> 'r ogon_bitmap_encoder \<Rightarrow> bool" where
  "same_screen e e' \<longleftrightarrow> desktopWidth e' = desktopWidth e \<and> desktopHeight e' = desktopHeight e \<and> scanLine e' = scanLine e"

section \<open>Preservation and progress\<close>

lemma same_screen_ops: "same_screen e e' \<Longrightarrow> op_ok e' op = op_ok e op"
  by (cases op) (simp_all add: op_ok_def same_screen_def segment_for_def area_ok_def)

lemma encoder_fits_view:
  "encoder_fits R e \<Longrightarrow> length view = length (clientView e) \<Longrightarrow> encoder_fits R (e\<lparr>clientView := view\<rparr>)"
  by (simp add: encoder_fits_def encoder_ok_def desktop_def)

context region_memory
begin

lemma consume_typed:
  assumes "encoder_fits R e" "op_ok e (Consume m)"
  shows "\<exists>e'. encoder_step R (Consume m) e = Some e' \<and> encoder_fits R e' \<and> same_screen e e'"
proof -
  obtain shmid n where m: "dmgbuf_ok m shmid (unat (desktopWidth e)) (unat (desktopHeight e)) (unat (scanLine e))"
    "peek m OGON_DMGBUF_POS_NUM_RECTS = Some n" "unat n \<le> 100"
    using assms(2) by (auto simp: op_ok_def segment_for_def OGON_DMGBUF_MAX_RECTS_def)
  have g: "ogon_dmgbuf_get_rects (Some m) = Some (Some (n, drop OGON_DMGBUF_POS_RECTS m))" "ogon_dmgbuf_get_data (Some m) = Some (Some (fb_of m))"
    using m(1,2) by (auto simp: dmgbuf_ok_def ogon_dmgbuf_get_rects_def ogon_dmgbuf_get_data_def if_good_def OGON_DMGBUF_GOOD_def fb_of_def)
  have acc: "reg_ok R (accumulatedDamage e)" using assms(1) by (simp add: encoder_fits_def)
  have "8 * (0 + unat n) \<le> length (drop OGON_DMGBUF_POS_RECTS m)" using m(1,3) by (simp add: dmgbuf_ok_def dmgbuf_layout)
  then obtain e' where e': "consume_rects R (drop OGON_DMGBUF_POS_RECTS m) 0 (unat n) e = Some (0, e')" using consume_rects_total [OF acc] by blast
  obtain g' where g': "e' = e\<lparr>accumulatedDamage := g'\<rparr>" "reg_ok R g'" "reg_points R g' = reg_points R (accumulatedDamage e) \<union> listed e m (unat n)"
    using consume_rects_result [OF acc e'] by (auto simp: listed_def)
  have "encoder_fits R e'" using assms(1) g' listed_desktop [of e m "unat n"] by (auto simp: encoder_fits_def encoder_ok_def desktop_def)
  then show ?thesis using e' g'(1) g assms(1) by (auto simp: ogon_backend_consume_damage_def same_screen_def)
qed

lemma refresh_typed:
  assumes "encoder_fits R e" "op_ok e (Refresh areas)"
  shows "\<exists>e'. encoder_step R (Refresh areas) e = Some e' \<and> encoder_fits R e' \<and> same_screen e e'"
proof -
  have "\<And>r. r \<in> set areas \<Longrightarrow> area_ok e r" using assms(2) by (simp add: op_ok_def)
  from refresh_rects_result [OF assms(1) this, of areas] show ?thesis by (auto simp: same_screen_def)
qed

lemma compare_typed:
  assumes "encoder_fits R e" "op_ok e (Compare m gfx)"
  shows "\<exists>e'. encoder_step R (Compare m gfx) e = Some e' \<and> encoder_fits R e' \<and> same_screen e e'"
proof -
  let ?t = "if gfx then 64 else 32 :: nat"
  have e: "encoder_ok e" "unat (desktopWidth e) < 2 ^ 16" "unat (desktopHeight e) < 2 ^ 16" "reg_ok R (accumulatedDamage e)"
    "reg_points R (accumulatedDamage e) \<subseteq> desktop e" using assms(1) by (auto simp: encoder_fits_def)
  have len: "length (fb_of m) = length (clientView e)"
    using assms(2) e(1) by (auto simp: op_ok_def segment_for_def dmgbuf_ok_def encoder_ok_def fb_of_def POS_DATA)
  have "0 < ?t" by simp
  from simplify_result [OF e(1-3) len e(4,5) this this, of gfx] obtain dmg view n
    where r: "simplify_damagedRegion R (reg_clear R) (fb_of m) e (accumulatedDamage e) ?t ?t gfx = Some (True, dmg, view, n)"
      "updated (unat (scanLine e)) (fb_of m) (reg_points R (accumulatedDamage e)) (clientView e) view" by blast
  then show ?thesis using encoder_fits_view [OF assms(1) updated_length [OF r(2)]] by (simp add: same_screen_def)
qed

lemma step_typed:
  assumes "encoder_fits R e" "op_ok e op"
  shows "\<exists>e'. encoder_step R op e = Some e' \<and> encoder_fits R e' \<and> same_screen e e'"
proof (cases op)
  case (Consume m)
  then show ?thesis using consume_typed assms by blast
next
  case (Refresh areas)
  then show ?thesis using refresh_typed assms by blast
next
  case (FullDamage b)
  have "encoder_ok e" using assms(1) by (simp add: encoder_fits_def)
  then show ?thesis using full_damage_result [OF assms(1), of b] assms(2) FullDamage by (auto simp: op_ok_def same_screen_def)
next
  case (MaxRequest n)
  then show ?thesis using assms(1)
    by (simp add: ogon_bitmap_encoder_update_maxrequest_size_def encoder_fits_def encoder_ok_def desktop_def same_screen_def)
next
  case (Compare m gfx)
  then show ?thesis using compare_typed assms by blast
next
  case ClearDamage
  then show ?thesis using assms(1) clear_ok clear_points by (simp add: encoder_fits_def encoder_ok_def desktop_def same_screen_def)
qed

lemma run_typed:
  assumes "encoder_fits R e" "\<And>op. op \<in> set ops \<Longrightarrow> op_ok e op"
  shows "\<exists>e'. encoder_run R ops e = Some e' \<and> encoder_fits R e' \<and> same_screen e e'"
  using assms
proof (induction ops arbitrary: e)
  case (Cons op ops)
  then obtain e1 where e1: "encoder_step R op e = Some e1" "encoder_fits R e1" "same_screen e e1" using step_typed [of e op] by auto
  have "op_ok e1 q" if "q \<in> set ops" for q using Cons.prems(2) [of q] that same_screen_ops [OF e1(3)] by simp
  from Cons.IH [OF e1(2) this] e1 show ?case by (auto simp: same_screen_def)
qed (simp add: same_screen_def)

lemma new_encoder_typed:
  assumes "ogon_bitmap_encoder_new alloc R w h bpp 4 scan dstBpp maxRequestSize = Some (Some e, res)" "w < 2 ^ 15" "h < 2 ^ 15"
  shows "encoder_fits R e"
proof -
  note e = encoder_new_ok [OF assms(1)]
  have "unat (desktopWidth e) < 2 ^ 15" "unat (desktopHeight e) < 2 ^ 15" using e(4,5) assms(2,3) by simp_all
  then show ?thesis using e(1,3) clear_ok clear_points by (simp add: encoder_fits_def)
qed

end

text \<open>
  C12: The bitmap encoder is type safe. From a new encoder for a screen below 32768 by 32768 pixels, every
  sequence of operations with arguments for that screen runs to its end without an access outside a
  buffer or an overflow. After it the size of the screen is the same, the client view has the size of the
  screen, and the accumulated damage is a region on the desktop.
\<close>

theorem encoder_type_safe:
  assumes "region_memory R"
    and "ogon_bitmap_encoder_new alloc R w h bpp 4 scan dstBpp maxRequestSize = Some (Some e, res)" "w < 2 ^ 15" "h < 2 ^ 15"
    and "\<And>op. op \<in> set ops \<Longrightarrow> op_ok e op"
  shows "\<exists>e'. encoder_run R ops e = Some e' \<and> encoder_fits R e' \<and> same_screen e e'"
  using region_memory.run_typed [OF assms(1) region_memory.new_encoder_typed [OF assms(1-4)] assms(5)] .

theorem encoder_type_safe_witness:
  "\<exists>e'. encoder_run rect_list [FullDamage small_screen, Compare small_segment False, ClearDamage] new_encoder = Some e' \<and>
    encoder_fits rect_list e' \<and> same_screen new_encoder e'"
proof -
  have "segment_for new_encoder small_segment" using small_dmgbuf by (auto simp: segment_for_def new_encoder_def)
  then have ops: "op_ok new_encoder op" if "op \<in> set [FullDamage small_screen, Compare small_segment False, ClearDamage]" for op
    using that by (auto simp: op_ok_def small_screen_def new_encoder_def)
  show ?thesis by (rule encoder_type_safe [OF rm.region_memory_axioms new_encoder_new _ _ ops]) simp_all
qed

end
