(* ===== verification/Frame_Loop.thy ===== *)
theory Frame_Loop
  imports Screen_Instance
begin

text \<open>
  The frame loop of the front connections that show the same backend (\<open>rdp-server/frontend.c\<close>): the
  frame timer, the reply of the backend to a sync request, and the end of a frame. It composes the frame
  automaton, the bandwidth management, the damage and the senders.
\<close>

section \<open>State\<close>

text \<open>
  The connections in \<open>frontConnections\<close> with their identifiers, the backend they show, and what was sent
  to which of them. \<open>owner\<close> is the connection whose list and timer it is; if it shows another backend
  itself, it is not among them.
\<close>

record 'r shared_screen =
  owner :: u32
  fronts :: "(u32 \<times> 'r ogon_front_connection) list"
  shared :: "ogon_backend_screen option"
  frames :: "(u32 \<times> frame_out list) list"
  events :: "(u32 \<times> front_out) list"

text \<open>
  The environment of a connection: whether a request to the backend can be sent, whether its output is
  blocked, its clock, what it has written, and the libraries it uses.
\<close>

record loop_env =
  env_send_ok :: bool
  env_write_blocked :: bool
  env_now :: u32
  env_written :: u32
  env_codecs :: codecs
  env_debug :: debug_env
  env_gfx_ok :: "front_out \<Rightarrow> bool"
  env_have_backend :: bool
  env_rects_mem :: bool

definition link_at :: "nat \<Rightarrow> 'r shared_screen \<Rightarrow> 'r front_link" where
  "link_at i w = \<lparr>front = snd (fronts w ! i), backend = shared w, sent = []\<rparr>"

definition put_link :: "nat \<Rightarrow> frame_out list \<Rightarrow> 'r front_link \<Rightarrow> 'r shared_screen \<Rightarrow> 'r shared_screen" where
  "put_link i outs s w =
     (let n = fst (fronts w ! i) in
      w\<lparr>fronts := (fronts w)[i := (n, front s)], shared := backend s,
        frames := (if outs = [] then frames w else frames w @ [(n, outs)]), events := events w @ map (Pair n) (sent s)\<rparr>)"

text \<open>
  A loop over the list. The body gets the environment and the link of a connection; its result is
  whether the loop goes on, what was drawn, and the link. None is a fault.
\<close>

type_synonym 'r loop_body = "loop_env \<Rightarrow> 'r front_link \<Rightarrow> (bool \<times> frame_out list \<times> 'r front_link) option"

fun each_front :: "(u32 \<Rightarrow> loop_env) \<Rightarrow> 'r loop_body \<Rightarrow> nat list \<Rightarrow> 'r shared_screen \<Rightarrow> (bool \<times> 'r shared_screen) option" where
  "each_front env body [] w = Some (True, w)"
| "each_front env body (i # is) w =
     (case body (env (fst (fronts w ! i))) (link_at i w) of
        None \<Rightarrow> None
      | Some (go_on, outs, s) \<Rightarrow>
          let w = put_link i outs s w in if go_on then each_front env body is w else Some (False, w))"

section \<open>The code\<close>

text \<open>A frame is sent: wait for an acknowledgement if the window is used up, else ask for the next frame.\<close>

definition frontend_handle_frame_sent :: "'r region16 \<Rightarrow> bool \<Rightarrow> 'r front_link \<Rightarrow> (int \<times> 'r front_link) option" where
  "frontend_handle_frame_sent R send_ok s =
     (if state_of s \<noteq> OGON_STATE_WAITING_FRAME_SENT then Some (-1, s)
      else if ack_missing (bwState (front s)) then Some (0, set_event OGON_EVENT_FRONTEND_FRAME_ACK_SEND s)
      else map_option (Pair 0) (handle_wait_timer_state R send_ok (set_event OGON_EVENT_FRONTEND_FRAME_SENT s)))"

text \<open>
  The first loop of a sync reply. Without an encoder the damage of the backend is only looked at if it
  lists rectangles, which dereferences the null pointer.
\<close>

definition lists_damage :: "dmgbuf \<Rightarrow> bool option" where
  "lists_damage m =
     (case (ogon_dmgbuf_get_rects m, ogon_dmgbuf_get_data m) of
        (Some (Some (n, _)), Some (Some _)) \<Rightarrow> Some (n \<noteq> 0)
      | (Some _, Some _) \<Rightarrow> Some False
      | _ \<Rightarrow> None)"

definition reply_expected :: "'r region16 \<Rightarrow> 'r loop_body" where
  "reply_expected R env s =
     (let s = set_event OGON_EVENT_BACKEND_SYNC_REPLY_RECEIVED s in
      if encoder (front s) = None then Some (False, [], s)
      else if state_of s = OGON_STATE_WAITING_ACTIVE_OUTPUT then Some (True, [], s)
      else map_option (\<lambda>(ret, outs, s). (ret \<ge> 0, outs, s))
             (ogon_send_surface_bits R (env_codecs env) (env_debug env) (env_gfx_ok env) (env_have_backend env) (env_rects_mem env) s))"

definition reply_front :: "'r region16 \<Rightarrow> 'r loop_body" where
  "reply_front R env s =
     (let treat = (\<lambda>s. if state_of s \<noteq> OGON_STATE_WAITING_SYNC_REPLY then Some (True, [], s) else reply_expected R env s) in
      case backend s of
        None \<Rightarrow> None
      | Some b \<Rightarrow>
          (case encoder (front s) of
             None \<Rightarrow> (case lists_damage (damage b) of Some False \<Rightarrow> treat s | _ \<Rightarrow> None)
           | Some e \<Rightarrow>
               (case ogon_backend_consume_damage R (damage b) e of
                  None \<Rightarrow> None
                | Some (ret, e) \<Rightarrow>
                    let s = upd_front (\<lambda>f. f\<lparr>encoder := Some e\<rparr>) s in
                    if ret < 0 then Some (False, [], s) else treat s)))"

text \<open>The second loop: a frame that is stuck in the output is treated as sent when the socket is writable.\<close>

definition sent_front :: "'r region16 \<Rightarrow> 'r loop_body" where
  "sent_front R env s =
     (if \<not> env_write_blocked env
      then map_option (\<lambda>(_, s). (True, [], s)) (frontend_handle_frame_sent R (env_send_ok env) s)
      else Some (True, [], emit WatchWrite s))"

definition frontend_handle_sync_reply ::
    "'r region16 \<Rightarrow> (u32 \<Rightarrow> loop_env) \<Rightarrow> 'r shared_screen \<Rightarrow> (int \<times> 'r shared_screen) option" where
  "frontend_handle_sync_reply R env w =
     (case shared w of
        None \<Rightarrow> None
      | Some b \<Rightarrow>
          let w = w\<lparr>shared := Some (b\<lparr>waitingSyncReply := False\<rparr>)\<rparr>; all = [0..<length (fronts w)] in
          (case each_front env (reply_front R) all w of
             None \<Rightarrow> None
           | Some (False, w) \<Rightarrow> Some (-1, w)
           | Some (True, w) \<Rightarrow> map_option (\<lambda>(_, w). (0, w)) (each_front env (sent_front R) all w)))"

text \<open>Frames that improve the quality of a still picture, from a quarter of a second on and for ten seconds.\<close>

definition handle_progressive_updates :: "'r region16 \<Rightarrow> 'r front_link \<Rightarrow> 'r front_link" where
  "handle_progressive_updates R s =
     (let ticks = rdpgfxProgressiveTicks (front s); n = fps (bwState (front s)) in
      if codecMode (front s) \<noteq> CODEC_MODE_H264 then s
      else if ticks = 0 then s
      else let s = upd_front (\<lambda>f. f\<lparr>rdpgfxProgressiveTicks := ticks + 1\<rparr>) s in
        if ticks < word_of_int (n div 4) then s
        else if ticks + 1 > word_of_int (10 * n) then upd_front (\<lambda>f. f\<lparr>rdpgfxProgressiveTicks := 0\<rparr>) s
        else if state_of s \<noteq> OGON_STATE_WAITING_SYNC_REPLY then s
        else snd (initiate_immediate_request R False s))"

text \<open>The statistics of the owner, rotated once a second.\<close>

definition rotate_statistics :: "u32 \<Rightarrow> 'r ogon_front_connection \<Rightarrow> 'r ogon_front_connection" where
  "rotate_statistics now f =
     (let f = (if fps_measure_timestamp f + 1000 < now
               then f\<lparr>fps_measure_timestamp := now, fps_measured := fps_measure_currentfps f, fps_measure_currentfps := 0\<rparr> else f)
      in if bytes_sent_timestamp f + 1000 < now
         then f\<lparr>bytes_sent_timestamp := now, bytes_sent := bytes_sent_current (bwState f),
                bwState := (bwState f)\<lparr>bytes_sent_current := 0\<rparr>\<rparr>
         else f)"

definition upd_owner :: "('r ogon_front_connection \<Rightarrow> 'r ogon_front_connection) \<Rightarrow> 'r shared_screen \<Rightarrow> 'r shared_screen" where
  "upd_owner g w = w\<lparr>fronts := map (\<lambda>(n, f). (n, if n = owner w then g f else f)) (fronts w)\<rparr>"

definition timer_front :: "'r region16 \<Rightarrow> 'r loop_body" where
  "timer_front R env s =
     (let s = set_event OGON_EVENT_FRAME_TIMER s in
      case (if codecMode (front s) = CODEC_MODE_H264 then frame_timer_bandwidth (bwState (front s)) (env_written env)
            else Some (1, bwState (front s))) of
        None \<Rightarrow> None
      | Some (budget, bw) \<Rightarrow>
          let s = upd_front (\<lambda>f. f\<lparr>bwState := bw\<rparr>) s in
          if budget = 0 then Some (True, [], set_event OGON_EVENT_FRONTEND_BANDWIDTH_FAIL s)
          else let s = handle_progressive_updates R (set_event OGON_EVENT_FRONTEND_BANDWIDTH_GOOD s);
                   s = upd_front (\<lambda>f. f\<lparr>bwState := fst (ogon_bwmgmt_client_detect_rtt (bwState f) (env_now env))\<rparr>) s
               in map_option (\<lambda>s. (True, [], s)) (handle_wait_timer_state R (env_send_ok env) s))"

fun timer_fronts :: "'r region16 \<Rightarrow> (u32 \<Rightarrow> loop_env) \<Rightarrow> nat list \<Rightarrow> 'r shared_screen \<Rightarrow> 'r shared_screen option" where
  "timer_fronts R env [] w = Some w"
| "timer_fronts R env (i # is) w =
     (let e = env (fst (fronts w ! i)); w = upd_owner (rotate_statistics (env_now e)) w in
      case timer_front R e (link_at i w) of
        None \<Rightarrow> None
      | Some (_, outs, s) \<Rightarrow> timer_fronts R env is (put_link i outs s w))"

definition handle_frame_timer_event :: "'r region16 \<Rightarrow> (u32 \<Rightarrow> loop_env) \<Rightarrow> 'r shared_screen \<Rightarrow> 'r shared_screen option" where
  "handle_frame_timer_event R env w = timer_fronts R env [0..<length (fronts w)] w"

text \<open>A client asks for areas again; without an encoder, a backend of its own or an area nothing happens.\<close>

definition ogon_refresh_rect :: "'r region16 \<Rightarrow> bool \<Rightarrow> RECTANGLE_16 list \<Rightarrow> 'r front_link \<Rightarrow> 'r front_link option" where
  "ogon_refresh_rect R own_backend areas s =
     (case encoder (front s) of
        None \<Rightarrow> Some s
      | Some e \<Rightarrow>
          if \<not> own_backend \<or> areas = [] then Some s
          else map_option (\<lambda>(reached, e).
                 let s = upd_front (\<lambda>f. f\<lparr>encoder := Some e\<rparr>) s in
                 if reached then snd (initiate_immediate_request R False s) else s)
               (refresh_rects R areas e))"

text \<open>
  \<open>asked\<close> says that a request to the backend is under way. A step is calm if it takes no request back
  and lets a connection wait for a reply only if there is one.
\<close>

definition asked :: "ogon_backend_screen option \<Rightarrow> bool" where
  "asked b \<longleftrightarrow> (\<exists>c. b = Some c \<and> waitingSyncReply c)"

definition awaits :: "'r ogon_front_connection \<Rightarrow> bool" where
  "awaits f \<longleftrightarrow> ogon_state_get (front_state f) = OGON_STATE_WAITING_SYNC_REPLY"

definition held_back :: "'r ogon_front_connection \<Rightarrow> bool" where
  "held_back f \<longleftrightarrow> outputSuppressed (front_state f) \<or> waitingForBandwidth (front_state f)"

definition calm :: "'r front_link \<Rightarrow> 'r front_link \<Rightarrow> bool" where
  "calm s s' \<longleftrightarrow> (backend s' = None \<longleftrightarrow> backend s = None) \<and> (asked (backend s) \<longrightarrow> asked (backend s')) \<and>
     (awaits (front s') \<longrightarrow> asked (backend s') \<or> awaits (front s))"

text \<open>A body that only lets a connection wait for an answer to come; \<open>settles\<close> is whether none waits in vain after it.\<close>

definition settled :: "bool \<Rightarrow> 'r loop_body \<Rightarrow> bool" where
  "settled settles body \<longleftrightarrow> (\<forall>env s outs s'. body env s = Some (True, outs, s') \<longrightarrow> calm s s' \<and> (settles \<and> awaits (front s') \<longrightarrow> asked (backend s')))"

text \<open>A connection is ready if it has an encoder and its bandwidth management is well-formed.\<close>

definition front_ready :: "'r ogon_front_connection \<Rightarrow> bool" where
  "front_ready f \<longleftrightarrow> encoder f \<noteq> None \<and> bw_ok (bwState f)"

definition small_env :: loop_env where
  "small_env = \<lparr>env_send_ok = True, env_write_blocked = False, env_now = 5000, env_written = 0, env_codecs = small_codecs, env_debug = no_debug,
     env_gfx_ok = (\<lambda>_. True), env_have_backend = True, env_rects_mem = True\<rparr>"

definition small_world :: "RECTANGLE_16 list shared_screen" where
  "small_world = \<lparr>owner = 1, fronts = [(1, small_front (Some new_encoder))], shared = Some small_screen, frames = [], events = []\<rparr>"

definition small_waiting :: "RECTANGLE_16 list shared_screen" where
  "small_waiting = small_world\<lparr>fronts := [(1, (small_front (Some new_encoder))\<lparr>front_state := example_machine\<lparr>currentState := OGON_STATE_WAITING_SYNC_REPLY\<rparr>\<rparr>)]\<rparr>"

section \<open>Requests are answered\<close>

lemma calm_refl [simp]: "calm s s"
  by (simp add: calm_def)

lemma calm_trans: "calm s s' \<Longrightarrow> calm s' s'' \<Longrightarrow> calm s s''"
  by (auto simp: calm_def)

lemma calm_same: "front_state (front s') = front_state (front s) \<Longrightarrow> backend s' = backend s \<Longrightarrow> calm s s'"
  by (simp add: calm_def awaits_def)

lemma calm_event:
  assumes "ogon_state_get (ogon_state_set_event (front_state (front s)) ev) = OGON_STATE_WAITING_SYNC_REPLY \<Longrightarrow>
    ogon_state_get (front_state (front s)) = OGON_STATE_WAITING_SYNC_REPLY"
  shows "calm s (set_event ev s)"
  using assms by (simp add: calm_def set_event_def upd_front_def awaits_def)

lemma force_sync_calm: "calm s (force_sync s)"
  by (auto simp: force_sync_def calm_def asked_def emit_def set_event_def upd_front_def split: option.splits)

lemma immediate_calm: "calm s (snd (initiate_immediate_request R setDamage s))"
proof -
  have same: "calm s (upd_front (\<lambda>f. f\<lparr>encoder := e\<rparr>) s)" for e by (simp add: calm_same upd_front_def)
  show ?thesis
    using same calm_trans [OF same force_sync_calm] force_sync_calm [of s]
    by (auto simp: initiate_immediate_request_def Let_def split: option.splits prod.splits)
qed

lemma stop_waiting_calm: "calm s (set_event OGON_EVENT_FRONTEND_STOP_WAITING_GFX s)"
  by (intro calm_event) (auto simp: ogon_state_get_def ogon_state_set_waiting_timer_def Let_def split: if_splits)

lemma open_result_calm: "calm s (ogon_rdpgfx_open_result R result s)"
proof -
  have "calm s s1" if "front_state (front s1) = front_state (front s)" "backend s1 = backend s" for s1 :: "'a front_link"
    using that by (rule calm_same)
  then have "calm s (case result of
            OPEN_RESULT_OK \<Rightarrow>
              upd_front (\<lambda>f. (if h264Supported (rdpgfx f) then f\<lparr>rdpgfxH264Supported := \<not> rdpgfxH264Forbidden f\<rparr> else f)
                 \<lparr>rdpgfxConnected := True\<rparr>) s
          | _ \<Rightarrow>
              upd_front (\<lambda>f. f\<lparr>rdpgfxH264Supported := False, rdpgfxConnected := False, rdpgfxRequired := False,
                 bwState := (bwState f)\<lparr>frameAcknowledge := 0\<rparr>, codecMode := CODEC_MODE_BMP\<rparr>) s)"
    by (cases result) (simp_all add: upd_front_def)
  then show ?thesis unfolding ogon_rdpgfx_open_result_def Let_def
    by (rule calm_trans [OF calm_trans [OF _ stop_waiting_calm] immediate_calm])
qed

lemma emit_calm: "calm s (emit x s)"
  by (simp add: calm_same emit_def)

lemma gfx_close_calm: "calm s (gfx_close R s)"
proof -
  have fold: "calm s' (foldl (\<lambda>s ev. case ev of OpenResult r \<Rightarrow> ogon_rdpgfx_open_result R r s | _ \<Rightarrow> s) s' evs)" for s' evs
  proof (induction evs arbitrary: s')
    case (Cons ev evs)
    have "calm s' (case ev of OpenResult r \<Rightarrow> ogon_rdpgfx_open_result R r s' | _ \<Rightarrow> s')"
      by (cases ev) (simp_all add: open_result_calm)
    then show ?case using calm_trans [OF _ Cons.IH] by simp
  qed simp
  have "calm s (emit GfxClose (upd_front (\<lambda>f. f\<lparr>rdpgfx := c\<rparr>) s))" for c by (simp add: calm_same emit_def upd_front_def)
  then show ?thesis by (auto simp: gfx_close_def Let_def intro: calm_trans fold split: prod.split)
qed

lemma init_output_calm: "ogon_rdpgfx_init_output R ok s = (ready, s') \<Longrightarrow> calm s s'"
proof -
  assume init: "ogon_rdpgfx_init_output R ok s = (ready, s')"
  have same: "calm s (emit a s)" "calm s (emit b (upd_front (\<lambda>f. f\<lparr>rdpgfxOutputSurface := 1\<rparr>) (emit a s)))"
    "calm s (emit c (emit b (upd_front (\<lambda>f. f\<lparr>rdpgfxOutputSurface := 1\<rparr>) (emit a s))))" for a b c
    by (simp_all add: calm_same emit_def upd_front_def)
  then show ?thesis using init calm_trans [OF same(1) gfx_close_calm] calm_trans [OF same(2) gfx_close_calm] calm_trans [OF same(3) gfx_close_calm]
    by (auto simp: ogon_rdpgfx_init_output_def Let_def split: option.splits if_splits)
qed


lemma send_damage_calm:
  assumes "send_damage R C D hb mem e b data s = Some (ret, outs, s')" "backend s = Some b"
  shows "calm s s'"
proof -
  obtain ok dmg view n where simp: "simplify_damagedRegion R (reg_clear R) data e (accumulatedDamage e) (if rdpgfxConnected (front s) then 64 else 32)
      (if rdpgfxConnected (front s) then 64 else 32) (rdpgfxConnected (front s)) = Some (ok, dmg, view, n)"
    using assms(1) unfolding send_damage_def Let_def by (auto split: option.splits)
  define s1 where "s1 = upd_front (\<lambda>f. f\<lparr>encoder := Some (e\<lparr>clientView := view\<rparr>)\<rparr>) s"
  define f where "f = (if reg_is_empty R dmg then front s1 else (front s1)\<lparr>rdpgfxProgressiveTicks := 0\<rparr>)"
  have s1: "front_state (front s1) = front_state (front s)" "backend s1 = Some b" "front_state f = front_state (front s)"
    using assms(2) by (simp_all add: s1_def f_def upd_front_def)
  have eq: "(if \<not> ok then Some (-1, [], upd_front (clear_damage R) s1)
      else if reg_is_empty R dmg \<and> rdpgfxProgressiveTicks (front s1) = 0 then Some (0, [], upd_front (clear_damage R) s1)
      else map_option (\<lambda>(ret, outs, f, segment). (ret, outs, s1\<lparr>front := clear_damage R f, backend := Some (b\<lparr>damage := segment\<rparr>)\<rparr>))
        (send_frame R C D hb mem f (e\<lparr>clientView := view\<rparr>) (damage b) (if rdpgfxConnected (front s) then 64 else 32) dmg)) = Some (ret, outs, s')"
    using assms(1) unfolding send_damage_def Let_def simp option.case prod.case s1_def [symmetric] f_def [symmetric] by simp
  consider "s' = upd_front (clear_damage R) s1" | f' segment where "send_frame R C D hb mem f (e\<lparr>clientView := view\<rparr>) (damage b)
      (if rdpgfxConnected (front s) then 64 else 32) dmg = Some (ret, outs, f', segment)"
      "s' = s1\<lparr>front := clear_damage R f', backend := Some (b\<lparr>damage := segment\<rparr>)\<rparr>"
    using eq by (auto split: if_splits)
  then show ?thesis
  proof cases
    case 1
    then show ?thesis using s1 assms(2) by (intro calm_same) (simp_all add: upd_front_def clear_damage_def)
  next
    case 2
    have "front_state f' = front_state (front s)" using send_frame_keeps [OF 2(1)] s1(3) by (simp add: steady_def)
    then show ?thesis using 2(2) assms(2) by (simp add: calm_def asked_def awaits_def clear_damage_def)
  qed
qed

lemma surface_bits_calm:
  assumes send: "ogon_send_surface_bits R C D gfx_ok hb mem s = Some (ret, outs, s')"
  shows "calm s s'"
proof (cases "rdpgfxRequired (front s) \<and> \<not> rdpgfxConnected (front s)")
  case True
  then show ?thesis using send by (simp add: ogon_send_surface_bits_def)
next
  case False
  obtain ready s1 where r: "(if rdpgfxRequired (front s) \<and> rdpgfxOutputSurface (front s) = 0 then ogon_rdpgfx_init_output R gfx_ok s else (True, s)) = (ready, s1)"
    by (cases "if rdpgfxRequired (front s) \<and> rdpgfxOutputSurface (front s) = 0 then ogon_rdpgfx_init_output R gfx_ok s else (True, s)")
  have c1: "calm s s1" using r init_output_calm by (auto split: if_splits)
  show ?thesis
  proof (cases ready)
    case True
    note eq = send [unfolded ogon_send_surface_bits_def, simplified False r if_False Let_def prod.case True not_True_eq_False]
    obtain e b where eb: "encoder (front s1) = Some e" "backend s1 = Some b" using eq by (auto split: option.splits prod.splits)
    define s2 where "s2 = (if rdpgfxRequired (front s1) then upd_front (\<lambda>f. h264_switch f e) s1 else s1)"
    have s2: "calm s1 s2" "backend s2 = Some b"
      using eb(2) by (auto simp: s2_def upd_front_def h264_switch_def intro!: calm_same)
    have "s' = s2 \<or> (\<exists>data. send_damage R C D hb mem e b data s2 = Some (ret, outs, s'))"
      using eq unfolding eb option.case prod.case s2_def [symmetric] by (auto split: if_splits option.splits)
    then have "calm s2 s'" using send_damage_calm [OF _ s2(2)] by auto
    then show ?thesis using calm_trans [OF calm_trans [OF c1 s2(1)]] by blast
  next
    case False
    then have "s' = s1" using send \<open>\<not> (_ \<and> _)\<close> r by (auto simp: ogon_send_surface_bits_def)
    then show ?thesis using c1 by simp
  qed
qed

lemma wait_timer_calm:
  assumes w: "handle_wait_timer_state R send_ok s = Some s'"
  shows "calm s s'" and "backend s \<noteq> None \<Longrightarrow> handleFrame (front_state (front s)) \<Longrightarrow> awaits (front s') \<Longrightarrow> \<not> held_back (front s') \<Longrightarrow> asked (backend s')"
proof -
  have main: "calm s s' \<and> (backend s \<noteq> None \<and> handleFrame (front_state (front s)) \<and> awaits (front s') \<and> \<not> held_back (front s') \<longrightarrow> asked (backend s'))"
  proof (cases "ogon_state_should_create_frame (front_state (front s))")
    case False
    then have "s' = s" using w by (simp add: handle_wait_timer_state_def)
    then show ?thesis using False
      by (auto simp: ogon_state_should_create_frame_def awaits_def ogon_state_get_def held_back_def split: if_splits)
  next
    case True
    show ?thesis
    proof (cases "backend s")
      case None
      then show ?thesis using w True by (simp add: handle_wait_timer_state_def)
    next
      case (Some b)
      define s1 where "s1 = set_event OGON_EVENT_BACKEND_SYNC_REQUESTED s"
      have b1: "backend s1 = Some b" using Some by (simp add: s1_def set_event_def upd_front_def)
      have "(if state_of s1 \<noteq> OGON_STATE_WAITING_SYNC_REPLY then Some s1
        else case encoder (front s1) of None \<Rightarrow> None | Some e \<Rightarrow>
          if \<not> reg_is_empty R (accumulatedDamage e) then Some (snd (initiate_immediate_request R False s1))
          else if waitingSyncReply b then Some s1
          else let s = emit (FramebufferSyncRequest (ogon_dmgbuf_get_id (damage b))) s1; s = (if send_ok then s else emit CloseConnection s)
               in Some (s\<lparr>backend := Some (b\<lparr>waitingSyncReply := True\<rparr>)\<rparr>)) = Some s'"
        using w True Some unfolding handle_wait_timer_state_def Let_def s1_def by simp
      then have "(s' = s1 \<and> \<not> awaits (front s1)) \<or> asked (backend s')"
        using b1 by (auto simp: awaits_def asked_def Let_def initiate_immediate_request_def force_sync_def split: if_splits option.splits)
      moreover have "backend s' \<noteq> None" using calculation b1 by (auto simp: asked_def)
      ultimately show ?thesis using b1 Some by (auto simp: calm_def asked_def)
    qed
  qed
  then show "calm s s'" "backend s \<noteq> None \<Longrightarrow> handleFrame (front_state (front s)) \<Longrightarrow> awaits (front s') \<Longrightarrow> \<not> held_back (front s') \<Longrightarrow> asked (backend s')"
    by blast+
qed


section \<open>The loops\<close>

lemma put_link_sizes [simp]: "length (fronts (put_link i outs s w)) = length (fronts w)" "shared (put_link i outs s w) = backend s"
  by (simp_all add: put_link_def Let_def)

lemma put_link_fronts:
  "i < length (fronts w) \<Longrightarrow> snd (fronts (put_link i outs s w) ! j) = (if j = i then front s else snd (fronts w ! j))"
  by (simp add: put_link_def Let_def)

lemma each_front_settled:
  assumes "settled settles body" "each_front env body is w = Some (True, w')" "\<And>i. i \<in> set is \<Longrightarrow> i < length (fronts w)"
  shows "length (fronts w') = length (fronts w) \<and> (asked (shared w) \<longrightarrow> asked (shared w')) \<and>
    (\<forall>i < length (fronts w). awaits (snd (fronts w' ! i)) \<longrightarrow> asked (shared w') \<or> awaits (snd (fronts w ! i)) \<and> (settles \<longrightarrow> i \<notin> set is))"
  using assms(2,3)
proof (induction "is" arbitrary: w)
  case (Cons j js)
  obtain outs s where s: "body (env (fst (fronts w ! j))) (link_at j w) = Some (True, outs, s)"
    "each_front env body js (put_link j outs s w) = Some (True, w')"
    using Cons.prems(1) by (auto simp: Let_def split: option.splits if_splits)
  have c: "calm (link_at j w) s" "settles \<Longrightarrow> awaits (front s) \<Longrightarrow> asked (backend s)" using assms(1) s(1) unfolding settled_def by blast+
  have j: "j < length (fronts w)" using Cons.prems(2) by simp
  have IH: "length (fronts w') = length (fronts w)" "asked (backend s) \<Longrightarrow> asked (shared w')"
    "\<And>i. i < length (fronts w) \<Longrightarrow> awaits (snd (fronts w' ! i)) \<Longrightarrow>
      asked (shared w') \<or> awaits (if i = j then front s else snd (fronts w ! i)) \<and> (settles \<longrightarrow> i \<notin> set js)"
    using Cons.IH [OF s(2)] Cons.prems(2) by (simp_all add: put_link_fronts [OF j])
  have l: "asked (shared w) \<Longrightarrow> asked (backend s)" "awaits (front s) \<Longrightarrow> asked (backend s) \<or> awaits (snd (fronts w ! j))"
    using c(1) by (simp_all add: calm_def link_at_def)
  have "asked (shared w') \<or> awaits (snd (fronts w ! i)) \<and> (settles \<longrightarrow> i \<notin> set (j # js))"
    if "i < length (fronts w)" "awaits (snd (fronts w' ! i))" for i
    using IH(3) [OF that] IH(2) c(2) l(2) by (cases "i = j") auto
  then show ?case using IH(1,2) l(1) by blast
qed simp

lemma reply_front_settled: "settled True (reply_front R)"
  unfolding settled_def
proof (intro allI impI)
  fix env and s :: "'a front_link" and outs s'
  assume r: "reply_front R env s = Some (True, outs, s')"
  define treat where "treat = (\<lambda>s. if state_of s \<noteq> OGON_STATE_WAITING_SYNC_REPLY then Some (True, [], s) else reply_expected R env s)"
  have "\<exists>s1. treat s1 = Some (True, outs, s') \<and> (s1 = s \<or> (\<exists>e. s1 = upd_front (\<lambda>f. f\<lparr>encoder := Some e\<rparr>) s))"
    using r unfolding reply_front_def Let_def treat_def [symmetric] by (auto split: option.splits bool.splits if_splits prod.splits)
  then obtain s1 where s1: "treat s1 = Some (True, outs, s')" and "s1 = s \<or> (\<exists>e. s1 = upd_front (\<lambda>f. f\<lparr>encoder := Some e\<rparr>) s)" by blast
  then have c1: "calm s s1" by (auto simp: upd_front_def intro: calm_same)
  show "calm s s' \<and> (True \<and> awaits (front s') \<longrightarrow> asked (backend s'))"
  proof (cases "state_of s1 = OGON_STATE_WAITING_SYNC_REPLY")
    case False
    then show ?thesis using s1 c1 by (simp add: treat_def awaits_def)
  next
    case True
    define s2 where "s2 = set_event OGON_EVENT_BACKEND_SYNC_REPLY_RECEIVED s1"
    have na: "\<not> awaits (front s2)"
      by (simp add: awaits_def s2_def set_event_def upd_front_def ogon_state_get_def ogon_state_set_waiting_active_output_def
          ogon_state_set_wait_frame_sent_def)
    have "calm s1 s2" using na by (simp add: calm_def s2_def set_event_def upd_front_def)
    moreover have "calm s2 s'"
      using s1 True unfolding treat_def reply_expected_def Let_def s2_def [symmetric]
      by (auto split: if_splits dest: surface_bits_calm)
    ultimately show ?thesis using calm_trans c1 na by (auto simp: calm_def)
  qed
qed

lemma frame_sent_calm: "frontend_handle_frame_sent R send_ok s = Some (ret, s') \<Longrightarrow> calm s s'"
proof -
  assume f: "frontend_handle_frame_sent R send_ok s = Some (ret, s')"
  have "calm s (set_event OGON_EVENT_FRONTEND_FRAME_ACK_SEND s)" "calm s (set_event OGON_EVENT_FRONTEND_FRAME_SENT s)"
    by (intro calm_event; simp add: ogon_state_get_def ogon_state_set_waiting_ack_def ogon_state_set_waiting_timer_def split: if_splits)+
  then show ?thesis using f
    by (auto simp: frontend_handle_frame_sent_def split: if_splits intro: calm_trans wait_timer_calm(1))
qed

lemma sent_front_settled: "settled False (sent_front R)"
  by (auto simp: settled_def sent_front_def emit_calm split: if_splits dest: frame_sent_calm)

lemma each_front_goes:
  assumes "\<And>env s outs s'. body env s \<noteq> Some (False, outs, s')" "each_front env body is w = Some (go, w')"
  shows "go"
  using assms(2) by (induction "is" arbitrary: w) (auto simp: Let_def assms(1) split: option.splits if_splits)

lemma sync_reply_settled:
  assumes "frontend_handle_sync_reply R env w = Some (0, w')" "(n, f) \<in> set (fronts w')" "awaits f"
  shows "asked (shared w')"
proof -
  obtain b where b: "shared w = Some b" using assms(1) by (auto simp: frontend_handle_sync_reply_def split: option.splits)
  let ?w = "w\<lparr>shared := Some (b\<lparr>waitingSyncReply := False\<rparr>)\<rparr>" and ?all = "[0..<length (fronts w)]"
  obtain w1 go where w1: "each_front env (reply_front R) ?all ?w = Some (True, w1)" "each_front env (sent_front R) ?all w1 = Some (go, w')"
    using assms(1) b by (auto simp: frontend_handle_sync_reply_def Let_def split: option.splits bool.splits prod.splits)
  have "go" by (rule each_front_goes [OF _ w1(2)]) (auto simp: sent_front_def split: if_splits)
  then have w2: "each_front env (sent_front R) ?all w1 = Some (True, w')" using w1(2) by simp
  note l1 = each_front_settled [OF reply_front_settled w1(1)]
  note l2 = each_front_settled [OF sent_front_settled w2]
  obtain i where i: "i < length (fronts w')" "fronts w' ! i = (n, f)" using assms(2) by (auto simp: in_set_conv_nth)
  have "length (fronts w1) = length (fronts w)" "length (fronts w') = length (fronts w1)" using l1 l2 by simp_all
  then show ?thesis using l1 l2 i assms(3) by fastforce
qed

lemma progressive_calm:
  "calm s (handle_progressive_updates R s)"
  "handleFrame (front_state (front s)) \<Longrightarrow> handleFrame (front_state (front (handle_progressive_updates R s)))"
proof -
  let ?s1 = "upd_front (\<lambda>f. f\<lparr>rdpgfxProgressiveTicks := rdpgfxProgressiveTicks (front s) + 1\<rparr>) s"
  have c: "calm s (upd_front (\<lambda>f. f\<lparr>rdpgfxProgressiveTicks := t\<rparr>) s)" for t by (simp add: calm_same upd_front_def)
  have o: "handle_progressive_updates R s = s \<or> (\<exists>t. handle_progressive_updates R s = upd_front (\<lambda>f. f\<lparr>rdpgfxProgressiveTicks := t\<rparr>) s) \<or>
      handle_progressive_updates R s = snd (initiate_immediate_request R False ?s1)"
    by (auto simp: handle_progressive_updates_def Let_def upd_front_def)
  then show "calm s (handle_progressive_updates R s)" using c calm_trans [OF c immediate_calm] by auto
  assume h: "handleFrame (front_state (front s))"
  have "handleFrame (front_state (front (snd (initiate_immediate_request R False s'))))" if "handleFrame (front_state (front s'))" for s'
    using that by (auto simp: initiate_immediate_request_def force_sync_def emit_def set_event_def upd_front_def
        ogon_state_set_waiting_sync_reply_def split: option.splits)
  then show "handleFrame (front_state (front (handle_progressive_updates R s)))" using o h by (auto simp: upd_front_def)
qed

lemma timer_front_result:
  assumes t: "timer_front R env s = Some (go, outs, s')" and b: "backend s \<noteq> None"
  shows "backend s' \<noteq> None" "asked (backend s) \<Longrightarrow> asked (backend s')" "awaits (front s') \<Longrightarrow> \<not> held_back (front s') \<Longrightarrow> asked (backend s')"
proof -
  define s0 where "s0 = set_event OGON_EVENT_FRAME_TIMER s"
  obtain budget bw where bw: "(if codecMode (front s0) = CODEC_MODE_H264 then frame_timer_bandwidth (bwState (front s0)) (env_written env)
      else Some (1, bwState (front s0))) = Some (budget, bw)"
    using t unfolding timer_front_def Let_def s0_def [symmetric] by (auto split: option.splits)
  define s1 where "s1 = upd_front (\<lambda>f. f\<lparr>bwState := bw\<rparr>) s0"
  have s1: "backend s1 = backend s" "handleFrame (front_state (front s1))" by (simp_all add: s1_def s0_def set_event_def upd_front_def)
  note eq = t [unfolded timer_front_def Let_def, folded s0_def, unfolded bw option.case prod.case, folded s1_def]
  show "backend s' \<noteq> None" "asked (backend s) \<Longrightarrow> asked (backend s')" "awaits (front s') \<Longrightarrow> \<not> held_back (front s') \<Longrightarrow> asked (backend s')"
  proof -
    have "backend s' \<noteq> None \<and> (asked (backend s) \<longrightarrow> asked (backend s')) \<and> (awaits (front s') \<and> \<not> held_back (front s') \<longrightarrow> asked (backend s'))"
    proof (cases "budget = 0")
      case True
      then have "s' = set_event OGON_EVENT_FRONTEND_BANDWIDTH_FAIL s1" using eq by simp
      then show ?thesis using s1(1) b by (simp add: set_event_def upd_front_def held_back_def)
    next
      case False
      define s2 where "s2 = set_event OGON_EVENT_FRONTEND_BANDWIDTH_GOOD s1"
      have s2: "backend s2 = backend s" "handleFrame (front_state (front s2))" using s1 by (simp_all add: s2_def set_event_def upd_front_def)
      define s3 where "s3 = upd_front (\<lambda>f. f\<lparr>bwState := fst (ogon_bwmgmt_client_detect_rtt (bwState f) (env_now env))\<rparr>) (handle_progressive_updates R s2)"
      have s3: "calm s2 s3" "handleFrame (front_state (front s3))"
        using progressive_calm [of s2 R] s2(2) by (simp_all add: s3_def upd_front_def calm_def awaits_def)
      have w: "handle_wait_timer_state R (env_send_ok env) s3 = Some s'" using eq False by (simp add: s2_def s3_def)
      have "backend s3 \<noteq> None" "asked (backend s) \<Longrightarrow> asked (backend s3)" using s3(1) s2(1) b by (simp_all add: calm_def)
      then show ?thesis using wait_timer_calm [OF w] s3(2) by (auto simp: calm_def)
    qed
    then show "backend s' \<noteq> None" "asked (backend s) \<Longrightarrow> asked (backend s')" "awaits (front s') \<Longrightarrow> \<not> held_back (front s') \<Longrightarrow> asked (backend s')"
      by blast+
  qed
qed

lemma rotate_state: "front_state (snd (fronts (upd_owner (rotate_statistics now) w) ! i)) = front_state (snd (fronts w ! i))" if "i < length (fronts w)"
  using that by (simp add: upd_owner_def rotate_statistics_def Let_def split: prod.split)

lemma timer_fronts_result:
  assumes "timer_fronts R env is w = Some w'" "shared w \<noteq> None" "\<And>i. i \<in> set is \<Longrightarrow> i < length (fronts w)"
  shows "length (fronts w') = length (fronts w) \<and> (asked (shared w) \<longrightarrow> asked (shared w')) \<and>
    (\<forall>i < length (fronts w). awaits (snd (fronts w' ! i)) \<and> \<not> held_back (snd (fronts w' ! i)) \<longrightarrow> asked (shared w') \<or>
       i \<notin> set is \<and> awaits (snd (fronts w ! i)) \<and> \<not> held_back (snd (fronts w ! i)))"
  using assms
proof (induction "is" arbitrary: w)
  case (Cons j js)
  define w1 where "w1 = upd_owner (rotate_statistics (env_now (env (fst (fronts w ! j))))) w"
  obtain go outs s where s: "timer_front R (env (fst (fronts w ! j))) (link_at j w1) = Some (go, outs, s)"
    "timer_fronts R env js (put_link j outs s w1) = Some w'"
    using Cons.prems(1) by (auto simp: Let_def w1_def split: option.splits)
  have w1: "length (fronts w1) = length (fronts w)" "shared w1 = shared w" by (simp_all add: w1_def upd_owner_def)
  have same: "awaits (snd (fronts w1 ! i)) = awaits (snd (fronts w ! i))" "held_back (snd (fronts w1 ! i)) = held_back (snd (fronts w ! i))"
    if "i < length (fronts w)" for i using rotate_state [OF that] by (simp_all add: w1_def awaits_def held_back_def)
  have j: "j < length (fronts w1)" using Cons.prems(3) w1(1) by simp
  have b: "backend (link_at j w1) \<noteq> None" using Cons.prems(2) w1(2) by (simp add: link_at_def)
  have l: "backend s \<noteq> None" "asked (shared w) \<Longrightarrow> asked (backend s)" "awaits (front s) \<Longrightarrow> \<not> held_back (front s) \<Longrightarrow> asked (backend s)"
    using timer_front_result [OF s(1) b] w1(2) by (simp_all add: link_at_def)
  have IH: "length (fronts w') = length (fronts w)" "asked (backend s) \<Longrightarrow> asked (shared w')"
    "\<And>i. i < length (fronts w) \<Longrightarrow> awaits (snd (fronts w' ! i)) \<Longrightarrow> \<not> held_back (snd (fronts w' ! i)) \<Longrightarrow> asked (shared w') \<or>
      i \<notin> set js \<and> (let f = if i = j then front s else snd (fronts w1 ! i) in awaits f \<and> \<not> held_back f)"
    using Cons.IH [OF s(2)] Cons.prems(3) l(1) by (simp_all add: put_link_fronts [OF j] w1 Let_def)
  have "asked (shared w') \<or> i \<notin> set (j # js) \<and> awaits (snd (fronts w ! i)) \<and> \<not> held_back (snd (fronts w ! i))"
    if "i < length (fronts w)" "awaits (snd (fronts w' ! i))" "\<not> held_back (snd (fronts w' ! i))" for i
    using IH(3) [OF that] IH(2) l(3) same [OF that(1)] by (cases "i = j") (auto simp: Let_def)
  then show ?case using IH(1,2) l(2) by blast
qed simp

lemma timer_settled:
  assumes "handle_frame_timer_event R env w = Some w'" "shared w \<noteq> None" "(n, f) \<in> set (fronts w')" "awaits f" "\<not> held_back f"
  shows "asked (shared w')"
proof -
  obtain i where i: "i < length (fronts w')" "fronts w' ! i = (n, f)" using assms(3) by (auto simp: in_set_conv_nth)
  from timer_fronts_result [OF assms(1) [unfolded handle_frame_timer_event_def] assms(2)] i assms(4,5) show ?thesis by fastforce
qed

section \<open>The frame timer returns\<close>

lemma force_sync_ready [simp]: "front_ready (front (force_sync s)) = front_ready (front s)"
  by (auto simp: force_sync_def front_ready_def emit_def set_event_def upd_front_def split: option.splits)

lemma immediate_ready [simp]: "front_ready (front (snd (initiate_immediate_request R False s))) = front_ready (front s)"
  by (simp add: initiate_immediate_request_def split: option.splits)

lemma set_event_ready [simp]: "front_ready (front (set_event ev s)) = front_ready (front s)"
  by (simp add: front_ready_def set_event_def upd_front_def)

lemma progressive_ready: "front_ready (front (handle_progressive_updates R s)) = front_ready (front s)"
proof -
  have "front_ready (front (upd_front (\<lambda>f. f\<lparr>rdpgfxProgressiveTicks := t\<rparr>) s')) = front_ready (front s')" for t and s' :: "'a front_link"
    by (simp add: front_ready_def upd_front_def)
  then show ?thesis by (simp add: handle_progressive_updates_def Let_def)
qed

lemma wait_timer_total:
  assumes "front_ready (front s)"
  shows "\<exists>s'. handle_wait_timer_state R send_ok s = Some s' \<and> front_ready (front s')"
proof -
  let ?s = "set_event OGON_EVENT_BACKEND_SYNC_REQUESTED s"
  obtain e where e: "encoder (front ?s) = Some e" using assms by (auto simp: front_ready_def set_event_def upd_front_def)
  have "front_ready (front ?s)" using assms by simp
  then show ?thesis using assms
    by (simp add: handle_wait_timer_state_def Let_def e emit_def split: option.split)
qed

lemma timer_front_total:
  assumes "front_ready (front s)"
  shows "\<exists>outs s'. timer_front R env s = Some (True, outs, s') \<and> front_ready (front s')"
proof -
  define s0 where "s0 = set_event OGON_EVENT_FRAME_TIMER s"
  have s0: "front_ready (front s0)" "bw_ok (bwState (front s0))" using assms by (simp_all add: s0_def) (simp add: front_ready_def set_event_def upd_front_def)
  obtain c where c: "ogon_bwmgmt_update_data_usage (bwState (front s0)) (env_written env) = Some c" "bw_ok c"
    by (rule update_data_usage_ok [OF s0(2)])
  obtain b bw where "ogon_bwmgmt_update_bucket c = Some (b, bw)" "bw_ok bw" by (rule update_bucket_ok [OF c(2)])
  then obtain budget bw where bw: "(if codecMode (front s0) = CODEC_MODE_H264 then frame_timer_bandwidth (bwState (front s0)) (env_written env)
      else Some (1, bwState (front s0))) = Some (budget, bw)" "bw_ok bw"
    using c(1) s0(2) by (cases "codecMode (front s0) = CODEC_MODE_H264") (simp_all add: frame_timer_bandwidth_def)
  define s1 where "s1 = upd_front (\<lambda>f. f\<lparr>bwState := bw\<rparr>) s0"
  have s1: "front_ready (front s1)" using s0(1) bw(2) by (simp add: s1_def upd_front_def front_ready_def)
  let ?s2 = "handle_progressive_updates R (set_event OGON_EVENT_FRONTEND_BANDWIDTH_GOOD s1)"
  let ?s3 = "upd_front (\<lambda>f. f\<lparr>bwState := fst (ogon_bwmgmt_client_detect_rtt (bwState f) (env_now env))\<rparr>) ?s2"
  have "front_ready (front ?s2)" using s1 by (simp add: progressive_ready)
  moreover have "bw_ok (fst (ogon_bwmgmt_client_detect_rtt conn now))" if "bw_ok conn" for conn now
    using bw_step_ok [OF that, of "DetectRtt now"] by simp
  ultimately have "front_ready (front ?s3)" by (simp add: front_ready_def upd_front_def)
  then obtain s' where "handle_wait_timer_state R (env_send_ok env) ?s3 = Some s'" "front_ready (front s')"
    using wait_timer_total by blast
  then show ?thesis using s1 unfolding timer_front_def Let_def s0_def [symmetric] bw(1) option.case prod.case s1_def [symmetric] by simp
qed

lemma rotate_ready:
  assumes "\<forall>(n, f) \<in> set (fronts w). front_ready f"
  shows "\<forall>(n, f) \<in> set (fronts (upd_owner (rotate_statistics now) w)). front_ready f"
proof -
  have "front_ready (rotate_statistics now f) = front_ready f" for f :: "'a ogon_front_connection"
    by (simp add: rotate_statistics_def front_ready_def bw_ok_def Let_def)
  then show ?thesis using assms by (auto simp: upd_owner_def)
qed

lemma put_link_ready:
  "\<forall>(n, f) \<in> set (fronts w). front_ready f \<Longrightarrow> front_ready (front s) \<Longrightarrow> \<forall>(n, f) \<in> set (fronts (put_link i outs s w)). front_ready f"
  by (auto simp: put_link_def Let_def dest!: set_update_subset_insert [THEN subsetD])

lemma timer_fronts_total:
  assumes "\<forall>(n, f) \<in> set (fronts w). front_ready f" "\<And>i. i \<in> set is \<Longrightarrow> i < length (fronts w)"
  shows "\<exists>w'. timer_fronts R env is w = Some w' \<and> (\<forall>(n, f) \<in> set (fronts w'). front_ready f)"
  using assms
proof (induction "is" arbitrary: w)
  case (Cons j js)
  define w1 where "w1 = upd_owner (rotate_statistics (env_now (env (fst (fronts w ! j))))) w"
  have w1: "\<forall>(n, f) \<in> set (fronts w1). front_ready f" "length (fronts w1) = length (fronts w)"
    using rotate_ready [OF Cons.prems(1)] by (simp_all add: w1_def) (simp add: upd_owner_def)
  have "fronts w1 ! j \<in> set (fronts w1)" using Cons.prems(2) w1(2) by simp
  then have "front_ready (front (link_at j w1))" using w1(1) by (auto simp: link_at_def)
  then obtain outs s where s: "timer_front R (env (fst (fronts w ! j))) (link_at j w1) = Some (True, outs, s)" "front_ready (front s)"
    using timer_front_total by blast
  show ?case using Cons.IH [OF put_link_ready [OF w1(1) s(2)], of j outs] Cons.prems(2) w1(2) s(1)
    by (simp add: Let_def w1_def [symmetric])
qed simp

section \<open>No connection waits in vain\<close>


lemma small_timer:
  "\<exists>w' f. handle_frame_timer_event rect_list (\<lambda>_. small_env) small_world = Some w' \<and> fronts w' = [(1, f)] \<and> awaits f \<and> \<not> held_back f"
  by (simp add: handle_frame_timer_event_def small_world_def upd_owner_def rotate_statistics_def small_front_def link_at_def timer_front_def Let_def
     small_env_def set_event_def upd_front_def handle_progressive_updates_def handle_wait_timer_state_def example_machine_def
     ogon_state_should_create_frame_def small_screen_def ogon_state_get_def ogon_state_set_waiting_sync_reply_def new_encoder_def rect_list_ops
     put_link_def emit_def awaits_def held_back_def)

lemma small_no_damage: "simplify_damagedRegion rect_list [] (replicate 16 9) new_encoder [] 32 32 False = Some (True, [], replicate 16 1, 0)"
  by code_simp

lemma small_consume: "ogon_backend_consume_damage rect_list (Some small_segment) new_encoder = Some (0, new_encoder)"
proof -
  have "peek small_segment OGON_DMGBUF_POS_NUM_RECTS = Some 0"
    by (simp add: small_segment_def peek_def dmgbuf_layout numeral_eq_Suc)
  then show ?thesis using small_fb small_dmgbuf
    by (simp add: ogon_backend_consume_damage_def ogon_dmgbuf_get_rects_def if_good_def OGON_DMGBUF_GOOD_def dmgbuf_ok_def)
qed

lemma small_reply:
  "\<exists>w' f. frontend_handle_sync_reply rect_list (\<lambda>_. small_env) small_waiting = Some (0, w') \<and> fronts w' = [(1, f)] \<and> awaits f"
proof -
  let ?f = "(small_front (Some new_encoder))\<lparr>front_state := example_machine\<lparr>currentState := OGON_STATE_WAITING_FRAME_SENT\<rparr>\<rparr>"
  have send: "ogon_send_surface_bits rect_list small_codecs no_debug (\<lambda>_. True) True True \<lparr>front = ?f, backend = Some b, sent = []\<rparr> =
      Some (0, [], \<lparr>front = ?f\<lparr>encoder := Some (new_encoder\<lparr>clientView := replicate 16 1, accumulatedDamage := []\<rparr>)\<rparr>, backend = Some b, sent = []\<rparr>)"
    if "damage b = Some small_segment" for b
    using that small_fb small_no_damage
    by (simp add: ogon_send_surface_bits_def small_front_def send_damage_def Let_def rect_list_ops upd_front_def clear_damage_def new_encoder_def)
  let ?b = "small_screen\<lparr>waitingSyncReply := False\<rparr>"
  let ?waiting = "(small_front (Some new_encoder))\<lparr>front_state := example_machine\<lparr>currentState := OGON_STATE_WAITING_SYNC_REPLY\<rparr>\<rparr>"
  let ?drawn = "?f\<lparr>encoder := Some (new_encoder\<lparr>clientView := replicate 16 1, accumulatedDamage := []\<rparr>)\<rparr>"
  have b: "damage ?b = Some small_segment" by (simp add: small_screen_def)
  have same: "upd_front (\<lambda>f. f\<lparr>encoder := Some new_encoder\<rparr>) \<lparr>front = ?waiting, backend = Some ?b, sent = []\<rparr> = \<lparr>front = ?waiting, backend = Some ?b, sent = []\<rparr>"
    by (simp add: upd_front_def small_front_def)
  have ev: "set_event OGON_EVENT_BACKEND_SYNC_REPLY_RECEIVED \<lparr>front = ?waiting, backend = Some ?b, sent = []\<rparr> = \<lparr>front = ?f, backend = Some ?b, sent = []\<rparr>"
    by (simp add: set_event_def upd_front_def) (simp add: example_machine_def ogon_state_set_wait_frame_sent_def)
  have st: "state_of \<lparr>front = ?waiting, backend = Some ?b, sent = []\<rparr> = OGON_STATE_WAITING_SYNC_REPLY"
    "state_of \<lparr>front = ?f, backend = Some ?b, sent = []\<rparr> = OGON_STATE_WAITING_FRAME_SENT" "encoder ?f = Some new_encoder" "encoder ?waiting = Some new_encoder"
    by (simp_all add: small_front_def example_machine_def ogon_state_get_def)
  have r: "reply_front rect_list small_env \<lparr>front = ?waiting, backend = Some ?b, sent = []\<rparr> = Some (True, [], \<lparr>front = ?drawn, backend = Some ?b, sent = []\<rparr>)"
    unfolding reply_front_def reply_expected_def Let_def using send [OF b] small_consume b st
    by (simp add: same ev small_env_def)
  have "\<exists>s. sent_front rect_list small_env \<lparr>front = ?drawn, backend = Some ?b, sent = []\<rparr> = Some (True, [], s) \<and> awaits (front s)"
    by (simp add: sent_front_def small_env_def frontend_handle_frame_sent_def small_front_def example_machine_def ogon_state_get_def ack_missing_def
        fresh_bw_def set_event_def upd_front_def ogon_state_set_waiting_timer_def handle_wait_timer_state_def ogon_state_should_create_frame_def
        ogon_state_set_waiting_sync_reply_def rect_list_ops Let_def small_screen_def emit_def awaits_def)
  then obtain s where s: "sent_front rect_list small_env \<lparr>front = ?drawn, backend = Some ?b, sent = []\<rparr> = Some (True, [], s)" "awaits (front s)" by blast
  show ?thesis using r s
    by (simp add: frontend_handle_sync_reply_def small_waiting_def small_world_def link_at_def put_link_def Let_def)
qed


end
