(* ===== verification/Bitmap_Proofs.thy ===== *)
theory Bitmap_Proofs
  imports Bitmap_Update
begin

text \<open>
  What a bitmap update sends: the fragments of a rectangle cover it, the compressor stays inside the
  frame buffer, and the updates fit the client's request size.
\<close>

definition box :: "nat \<times> nat \<times> nat \<times> nat \<Rightarrow> (nat \<times> nat) set" where
  "box fr = (case fr of (x, y, w, h) \<Rightarrow> {(a, b). x \<le> a \<and> a < x + w \<and> y \<le> b \<and> b < y + h})"

text \<open>The rectangles the region code hands over: not empty, and inside the desktop.\<close>

definition rect_inside :: "'r ogon_bitmap_encoder \<Rightarrow> RDP_RECT \<Rightarrow> bool" where
  "rect_inside e r \<longleftrightarrow> 1 \<le> unat (rr_width r) \<and> 1 \<le> unat (rr_height r) \<and>
     unat (rr_x r) + unat (rr_width r) \<le> unat (desktopWidth e) \<and> unat (rr_y r) + unat (rr_height r) \<le> unat (desktopHeight e)"

definition rdp_box :: "RDP_RECT \<Rightarrow> (nat \<times> nat) set" where
  "rdp_box r = box (unat (rr_x r), unat (rr_y r), unat (rr_width r), unat (rr_height r))"

text \<open>The space a fragment may take in the stream, and that it can be read and sent.\<close>

definition fragment_need :: "nat \<Rightarrow> fragment \<Rightarrow> nat" where
  "fragment_need bpp fr = (case fr of (x, y, w, h) \<Rightarrow> h * w * bpp + 3)"

definition fragment_ok :: "'r ogon_bitmap_encoder \<Rightarrow> nat \<Rightarrow> fragment \<Rightarrow> bool" where
  "fragment_ok e maxRectSize fr = (case fr of (x, y, w, h) \<Rightarrow> 1 \<le> w \<and> w \<le> 64 \<and> 1 \<le> h \<and> h \<le> 64 \<and>
     (x + w) * 4 \<le> unat (scanLine e) \<and> y + h \<le> unat (desktopHeight e) \<and> w * h * unat (dstBytesPerPixel e) \<le> maxRectSize)"

definition bitmap_fragment :: "BITMAP_DATA \<Rightarrow> fragment" where
  "bitmap_fragment b = (unat (bd_destLeft b), unat (bd_destTop b), unat (bd_width b), unat (bd_height b))"

definition bitmap_ok :: "nat \<Rightarrow> BITMAP_DATA \<Rightarrow> bool" where
  "bitmap_ok bpp b \<longleftrightarrow> unat (bd_bitmapLength b) = length (bd_data b) \<and> length (bd_data b) \<le> fragment_need bpp (bitmap_fragment b) \<and>
     bd_destRight b = bd_destLeft b + bd_width b - 1 \<and> bd_destBottom b = bd_destTop b + bd_height b - 1"

text \<open>
  What the compressors are documented to do: the output is at most as long as the bitmap and a header.
\<close>

definition compressor_ok :: "nat \<Rightarrow> (u8 list \<Rightarrow> nat \<Rightarrow> nat \<Rightarrow> u8 list option) \<Rightarrow> bool" where
  "compressor_ok bpp compress \<longleftrightarrow> (\<forall>bs w h. \<exists>out. compress bs w h = Some out \<and> length out \<le> h * w * bpp + 3)"

definition rects_need :: "nat \<Rightarrow> nat \<Rightarrow> RDP_RECT list \<Rightarrow> nat" where
  "rects_need bpp m rs = sum_list (map (\<lambda>r. case rect_fragments bpp m r of None \<Rightarrow> 0
     | Some frs \<Rightarrow> sum_list (map (fragment_need bpp) frs)) rs)"

definition bitmap_size :: "BITMAP_DATA \<Rightarrow> nat" where "bitmap_size b = unat (bd_bitmapLength b) + 26"

definition pdu_size :: "BITMAP_DATA list \<Rightarrow> nat" where "pdu_size bs = sum_list (map bitmap_size bs)"

definition bitmap_box :: "BITMAP_DATA \<Rightarrow> (nat \<times> nat) set" where "bitmap_box b = box (bitmap_fragment b)"

text \<open>Everything the sender relies on: the encoder of a session, its frame buffer and the functions it calls.\<close>

definition bitmap_sender_ok :: "(u8 list \<Rightarrow> nat \<Rightarrow> nat \<Rightarrow> u8 list option) \<Rightarrow> 'r ogon_bitmap_encoder \<Rightarrow> u8 list \<Rightarrow> bool" where
  "bitmap_sender_ok compress e data \<longleftrightarrow> encoder_ok e \<and> unat (scanLine e) mod 16 = 0 \<and> unat (dstBytesPerPixel e) \<le> 4 \<and>
     unat (desktopWidth e) \<le> 32764 \<and> unat (desktopHeight e) \<le> 32764 \<and>
     1024 \<le> unat (multifragMaxRequestSize e) \<and> unat (multifragMaxRequestSize e) < 2 ^ 31 \<and>
     length data = unat (desktopHeight e) * unat (scanLine e) \<and> compressor_ok (unat (dstBytesPerPixel e)) compress"

text \<open>A PDU the client accepts: not empty, within the request size, and of bitmaps of at most 64x64 pixels.\<close>

definition pdu_ok :: "'r ogon_bitmap_encoder \<Rightarrow> BITMAP_DATA list \<Rightarrow> bool" where
  "pdu_ok e pdu \<longleftrightarrow> pdu \<noteq> [] \<and> pdu_size pdu + 2 \<le> unat (multifragMaxRequestSize e) \<and>
     (\<forall>b \<in> set pdu. bitmap_ok (unat (dstBytesPerPixel e)) b \<and> 1 \<le> unat (bd_width b) \<and> unat (bd_width b) \<le> 64 \<and>
        1 \<le> unat (bd_height b) \<and> unat (bd_height b) \<le> 64)"

text \<open>An instance: a screen of four pixels, and a compressor that copies.\<close>

definition small_encoder :: "RECTANGLE_16 list ogon_bitmap_encoder" where
  "small_encoder = \<lparr>desktopWidth = 4, desktopHeight = 1, bitsPerPixel = 32, bytesPerPixel = 4, scanLine = 16, dstBitsPerPixel = 32,
     dstBytesPerPixel = 4, multifragMaxRequestSize = 1024, clientView = replicate 16 1, accumulatedDamage = [], rdpRects = [],
     rdpRectsAllocated = 0, bmpStreamSize = 64, h264_context = False\<rparr>"

definition raw_compress :: "u8 list \<Rightarrow> nat \<Rightarrow> nat \<Rightarrow> u8 list option" where
  "raw_compress bs w h = Some (take (h * w * 4) bs)"

section \<open>Fragments\<close>

lemma align_rect_result:
  assumes "align_rect x w = (x', w')"
  shows "x' \<le> x" "x + w \<le> x' + w'" "(x' + w') mod 4 = 0" "x' + w' < x + w + 4" "w \<le> w'" "w' mod 4 = 0"
proof -
  have x': "x' = x - x mod 4" "w' = (if (w + x mod 4) mod 4 \<noteq> 0 then w + x mod 4 + (4 - (w + x mod 4) mod 4) else w + x mod 4)"
    using assms by (auto simp: align_rect_def Let_def split: if_splits)
  show "x' \<le> x" "x + w \<le> x' + w'" "x' + w' < x + w + 4" "w \<le> w'"
    using mod_less_divisor [of 4 x] mod_less_divisor [of 4 "w + x mod 4"] unfolding x' by (auto intro: mod_less_eq_dividend)
  show "w' mod 4 = 0" unfolding x'(2) by presburger
  moreover have "x' mod 4 = 0" unfolding x'(1) by presburger
  ultimately show "(x' + w') mod 4 = 0" by presburger
qed

text \<open>The lines of the frame buffer have room for the alignment.\<close>

lemma align_rect_line:
  assumes "align_rect x w = (x', w')" "x + w \<le> width" "width * 4 \<le> line" "line mod 16 = 0"
  shows "(x' + w') * 4 \<le> line"
proof -
  obtain q where q: "line = 16 * q" using assms(4) by (auto simp: mod_eq_0_iff_dvd dvd_def)
  obtain p where p: "x' + w' = 4 * p" using align_rect_result(3) [OF assms(1)] by (auto simp: mod_eq_0_iff_dvd dvd_def)
  have "4 * p < 4 * q + 4" using align_rect_result(4) [OF assms(1)] assms(2,3) q p by linarith
  then show ?thesis using p q by simp
qed

lemma shrink_width_fits: "w * bpp \<le> m \<Longrightarrow> shrink_width w bpp m = w"
  by (subst shrink_width.simps) simp

lemma shrink_height_result:
  "w * bpp \<le> m \<Longrightarrow> 1 \<le> h \<Longrightarrow> 1 \<le> shrink_height h w bpp m \<and> shrink_height h w bpp m \<le> h \<and> w * shrink_height h w bpp m * bpp \<le> m"
proof (induction h w bpp m rule: shrink_height.induct)
  case (1 h w bpp m)
  show ?case
  proof (cases "w * h * bpp > m")
    case True
    then have "2 \<le> h" using "1.prems" by (cases "h = 1") auto
    then have next_ok: "1 \<le> (if h = 3 then 2 else h div 2)" "(if h = 3 then 2 else h div 2) \<le> h" by auto
    have "shrink_height h w bpp m = shrink_height (if h = 3 then 2 else h div 2) w bpp m"
      using True by (subst shrink_height.simps) simp
    then show ?thesis using "1.IH" [OF True "1.prems"(1) next_ok(1)] order_trans [OF _ next_ok(2)] by simp
  next
    case False
    then have "shrink_height h w bpp m = h" by (subst shrink_height.simps) simp
    then show ?thesis using False "1.prems" by simp
  qed
qed

lemma ceil_div_less: "0 < (w :: nat) \<Longrightarrow> k < (n + w - 1) div w \<longleftrightarrow> k * w < n"
proof -
  assume w: "0 < w"
  have "k < (n + w - 1) div w \<longleftrightarrow> Suc k \<le> (n + w - 1) div w" by (simp only: Suc_le_eq)
  also have "\<dots> \<longleftrightarrow> Suc k * w \<le> n + w - 1" by (rule less_eq_div_iff_mult_less_eq [OF w])
  also have "\<dots> \<longleftrightarrow> k * w < n" using w by auto
  finally show ?thesis .
qed

lemma fragment_at_result:
  assumes "0 < w" "0 < h" "x * w < pw" "y * h < ph"
  shows "fragment_at px py pw ph w h (y, x) = (px + x * w, py + y * h, min w (pw - x * w), min h (ph - y * h))"
  using assms by (auto simp: fragment_at_def Let_def)

lemma fragments_cover:
  assumes "0 < w" "0 < h"
  shows "(\<Union>fr \<in> set (fragments px py pw ph w h). box fr) = box (px, py, pw, ph)"
proof (intro set_eqI iffI)
  fix p
  assume "p \<in> (\<Union>fr \<in> set (fragments px py pw ph w h). box fr)"
  then obtain x y where xy: "x * w < pw" "y * h < ph" "p \<in> box (fragment_at px py pw ph w h (y, x))"
    using ceil_div_less [OF assms(1)] ceil_div_less [OF assms(2)] by (auto simp: fragments_def Let_def)
  then show "p \<in> box (px, py, pw, ph)"
    unfolding fragment_at_result [OF assms xy(1,2)] by (auto simp: box_def)
next
  fix p
  assume "p \<in> box (px, py, pw, ph)"
  then obtain a b where p: "p = (px + a, py + b)" "a < pw" "b < ph"
    by (auto simp: box_def) (metis add_less_cancel_left le_add_diff_inverse)
  define x y where "x = a div w" "y = b div h"
  then have at: "x * w \<le> a" "a < x * w + w" "y * h \<le> b" "b < y * h + h"
    using assms by (auto simp: dividend_less_div_times add.commute)
  then have lt: "x * w < pw" "y * h < ph" using p by auto
  have "p \<in> box (fragment_at px py pw ph w h (y, x))"
    unfolding fragment_at_result [OF assms lt] using p at by (auto simp: box_def)
  moreover have "fragment_at px py pw ph w h (y, x) \<in> set (fragments px py pw ph w h)"
    unfolding fragments_def Let_def set_map set_product set_upt
    using ceil_div_less [OF assms(1)] ceil_div_less [OF assms(2)] lt by (intro imageI) simp
  ultimately show "p \<in> (\<Union>fr \<in> set (fragments px py pw ph w h). box fr)" by blast
qed

lemma fragments_size:
  assumes "0 < w" "0 < h" "(x, y, fw, fh) \<in> set (fragments px py pw ph w h)"
  shows "1 \<le> fw" "fw \<le> w" "1 \<le> fh" "fh \<le> h" "x + fw \<le> px + pw" "y + fh \<le> py + ph"
proof -
  obtain i j where ij: "i * w < pw" "j * h < ph" "(x, y, fw, fh) = fragment_at px py pw ph w h (j, i)"
    using assms(3) ceil_div_less [OF assms(1)] ceil_div_less [OF assms(2)] by (auto simp: fragments_def Let_def)
  then show "1 \<le> fw" "fw \<le> w" "1 \<le> fh" "fh \<le> h" "x + fw \<le> px + pw" "y + fh \<le> py + ph"
    using assms(1,2) unfolding fragment_at_result [OF assms(1,2) ij(1,2)] by auto
qed

lemma box_mono: "x' \<le> x \<Longrightarrow> x + w \<le> x' + w' \<Longrightarrow> box (x, y, w, h) \<subseteq> box (x', y, w', h)"
  by (auto simp: box_def)

lemma rect_fragments_result:
  assumes e: "encoder_ok e" "unat (scanLine e) mod 16 = 0" "unat (desktopWidth e) \<le> 32764" "unat (desktopHeight e) \<le> 32764"
    and r: "rect_inside e r" and bpp: "bpp = unat (dstBytesPerPixel e)" "bpp \<le> 4" "256 \<le> m"
  shows "\<exists>frs. rect_fragments bpp m r = Some frs \<and> rdp_box r \<subseteq> (\<Union>fr \<in> set frs. box fr) \<and> (\<forall>fr \<in> set frs. fragment_ok e m fr)"
proof -
  let ?x = "unat (rr_x r)" and ?y = "unat (rr_y r)" and ?w = "unat (rr_width r)" and ?h = "unat (rr_height r)"
  have in_desk: "?x + ?w \<le> unat (desktopWidth e)" "?y + ?h \<le> unat (desktopHeight e)" "1 \<le> ?w" "1 \<le> ?h"
    using r by (simp_all add: rect_inside_def)
  have small: "?x < 2 ^ 15" "?y < 2 ^ 15" "?w < 2 ^ 15" "?h < 2 ^ 15" using in_desk e(3,4) by simp_all
  then have sint: "sint (rr_x r) = int ?x" "sint (rr_y r) = int ?y" "sint (rr_width r) = int ?w" "sint (rr_height r) = int ?h"
    by (simp_all add: sint_u16)
  obtain px pw where al: "align_rect ?x ?w = (px, pw)" by (rule prod.exhaust)
  note a = align_rect_result [OF al]
  define w where "w = (if pw > 64 then 64 else pw)"
  define h where "h = shrink_height (if ?h > 64 then 64 else ?h) w bpp m"
  have w: "4 \<le> w" "w \<le> 64" using a(5,6) in_desk(3) by (auto simp: w_def)
  have "w * bpp \<le> 64 * 4" using w(2) bpp(2) by (intro mult_le_mono)
  then have wm: "w * bpp \<le> m" using bpp(3) by simp
  have h: "1 \<le> h" "h \<le> 64" "w * h * bpp \<le> m"
    using shrink_height_result [OF wm, of "if ?h > 64 then 64 else ?h"] in_desk(4) unfolding h_def by (auto split: if_splits)
  have pw: "pw < 2 ^ 15" using a(1,4) in_desk(1) e(3) al by (auto simp: align_rect_def Let_def split: if_splits)
  have pos: "\<not> uint (rr_width r) < 1" "\<not> uint (rr_height r) < 1"
    using in_desk(3,4) unfolding uint_nat by linarith+
  have eq: "rect_fragments bpp m r = Some (fragments px ?y pw ?h w h)"
    using in_desk(3,4) w h(1) pw pos
    by (simp add: rect_fragments_def sint al Let_def shrink_width_fits [OF wm] w_def [symmetric] h_def [symmetric] not_less [symmetric])
  have cover: "(\<Union>fr \<in> set (fragments px ?y pw ?h w h). box fr) = box (px, ?y, pw, ?h)"
    using w(1) h(1) by (intro fragments_cover) simp_all
  have line: "(px + pw) * 4 \<le> unat (scanLine e)"
    using align_rect_line [OF al in_desk(1) _ e(2)] e(1) by (simp add: encoder_ok_def)
  have "fragment_ok e m fr" if "fr \<in> set (fragments px ?y pw ?h w h)" for fr
  proof -
    obtain x y fw fh where fr: "fr = (x, y, fw, fh)" by (metis prod.exhaust)
    have "0 < w" "0 < h" using w(1) h(1) by simp_all
    note f = fragments_size [OF this that [unfolded fr]]
    have "fw * fh * bpp \<le> w * h * bpp" using f by (intro mult_le_mono) simp_all
    then have size: "fw * fh * unat (dstBytesPerPixel e) \<le> m" using h(3) unfolding bpp(1) by (rule order_trans)
    have "(x + fw) * 4 \<le> (px + pw) * 4" using f by (intro mult_le_mono1) simp
    from order_trans [OF this line] have right: "(x + fw) * 4 \<le> unat (scanLine e)" .
    have "y + fh \<le> unat (desktopHeight e)" using f in_desk(2) by (blast intro: order_trans)
    then show ?thesis using f w(2) h(2) size right unfolding fr fragment_ok_def prod.case
      by (blast intro: order_trans)
  qed
  then show ?thesis using eq cover box_mono [OF a(1,2), of ?y ?h] unfolding rdp_box_def by auto
qed

lemma fragment_reads:
  assumes "encoder_ok e" "fragment_ok e m (x, y, w, h)" "length data = unat (desktopHeight e) * unat (scanLine e)"
  shows "y * unat (scanLine e) + x * 4 + (h - 1) * unat (scanLine e) + w * 4 \<le> length data"
proof -
  have "y * unat (scanLine e) + x * 4 + (h - 1) * unat (scanLine e) + w * 4 = (y + (h - 1)) * unat (scanLine e) + (x + w) * 4"
    by (simp add: algebra_simps)
  also have "\<dots> \<le> (y + (h - 1)) * unat (scanLine e) + unat (scanLine e)" using assms(2) by (simp add: fragment_ok_def)
  also have "\<dots> = (y + h) * unat (scanLine e)" using assms(2) by (cases h) (simp_all add: fragment_ok_def)
  also have "\<dots> \<le> unat (desktopHeight e) * unat (scanLine e)" using assms(2) by (intro mult_le_mono1) (simp add: fragment_ok_def)
  finally show ?thesis using assms(3) by simp
qed

lemma compress_fragments_result:
  assumes e: "encoder_ok e" "bpp = unat (dstBytesPerPixel e)" "bpp \<le> 4" and data: "length data = unat (desktopHeight e) * unat (scanLine e)"
    and comp: "compressor_ok bpp compress" and mem: "\<And>n. mem n"
  shows "(\<And>fr. fr \<in> set frs \<Longrightarrow> fragment_ok e m fr) \<Longrightarrow> \<exists>r. compress_fragments compress mem e data frs (rem, bitmaps) = Some r \<and>
    (case r of None \<Rightarrow> rem < sum_list (map (fragment_need bpp) frs)
     | Some (rem', bitmaps') \<Rightarrow> rem \<le> rem' + sum_list (map (fragment_need bpp) frs) \<and>
         (\<exists>new. bitmaps' = bitmaps @ new \<and> map bitmap_fragment new = frs \<and> (\<forall>b \<in> set new. bitmap_ok bpp b)))"
proof (induction frs arbitrary: rem bitmaps)
  case (Cons fr frs)
  obtain x y w h where fr: "fr = (x, y, w, h)" by (metis prod.exhaust)
  have ok: "fragment_ok e m (x, y, w, h)" using Cons.prems fr by simp
  note dims = ok [unfolded fragment_ok_def prod.case]
  obtain out where out: "compress (drop (y * unat (scanLine e) + x * 4) data) w h = Some out" "length out \<le> h * w * bpp + 3"
    using comp unfolding compressor_ok_def by blast
  have lim: "h * w * bpp \<le> 64 * 64 * 4" using dims e(3) by (intro mult_le_mono) simp_all
  have xy: "x + w < 2 ^ 32" "y + h < 2 ^ 32" "length out < 2 ^ 32"
    using dims unsigned_less [of "scanLine e", where 'a = nat] unsigned_less [of "desktopHeight e", where 'a = nat] out(2) lim by simp_all
  define b where "b = \<lparr>bd_destLeft = of_nat x, bd_destTop = of_nat y, bd_destRight = of_nat (x + w - 1), bd_destBottom = of_nat (y + h - 1),
    bd_width = of_nat w, bd_height = of_nat h, bd_bitsPerPixel = dstBitsPerPixel e, bd_cbScanWidth = of_nat (w * bpp),
    bd_cbUncompressedSize = of_nat (w * h * bpp), bd_bitmapLength = of_nat (length out), bd_data = out\<rparr>"
  have b: "bitmap_fragment b = fr" "bitmap_ok bpp b"
    using xy out(2) dims unat_of_nat_u32 [of x] unat_of_nat_u32 [of y] unat_of_nat_u32 [of w] unat_of_nat_u32 [of h]
      unat_of_nat_u32 [of "length out"]
    by (auto simp: b_def fr bitmap_fragment_def bitmap_ok_def fragment_need_def of_nat_diff)
  have step: "compress_fragment compress mem e data fr (rem, bitmaps) =
      (if rem < h * w * bpp + 3 then Some None else Some (Some (rem - length out, bitmaps @ [b])))"
    using fragment_reads [OF e(1) ok data] out e(1,2) mem
    by (simp add: compress_fragment_def fr Let_def b_def encoder_ok_def not_less)
  show ?case
  proof (cases "rem < h * w * bpp + 3")
    case True
    then show ?thesis using step by (simp add: fr fragment_need_def)
  next
    case False
    obtain r where r: "compress_fragments compress mem e data frs (rem - length out, bitmaps @ [b]) = Some r"
      "case r of None \<Rightarrow> rem - length out < sum_list (map (fragment_need bpp) frs)
       | Some (rem', bitmaps') \<Rightarrow> rem - length out \<le> rem' + sum_list (map (fragment_need bpp) frs) \<and>
           (\<exists>new. bitmaps' = (bitmaps @ [b]) @ new \<and> map bitmap_fragment new = frs \<and> (\<forall>b \<in> set new. bitmap_ok bpp b))"
      using Cons.IH [of "rem - length out" "bitmaps @ [b]"] Cons.prems by auto
    have "compress_fragments compress mem e data (fr # frs) (rem, bitmaps) = Some r" using step False r(1) by simp
    moreover have "fragment_need bpp fr = h * w * bpp + 3" by (simp add: fr fragment_need_def)
    ultimately show ?thesis using r(2) out(2) False b
    proof (cases r)
      case (Some st)
      then obtain rem' new where st: "st = (rem', (bitmaps @ [b]) @ new)" "map bitmap_fragment new = frs" "\<forall>b \<in> set new. bitmap_ok bpp b"
        "rem - length out \<le> rem' + sum_list (map (fragment_need bpp) frs)" using r(2) by (cases st) auto
      then show ?thesis
        using \<open>compress_fragments compress mem e data (fr # frs) (rem, bitmaps) = Some r\<close> \<open>fragment_need bpp fr = _\<close> Some out(2) b
        by (auto intro!: exI [of _ "b # new"])
    qed auto
  qed
qed simp

lemma compress_rects_result:
  assumes e: "encoder_ok e" "unat (scanLine e) mod 16 = 0" "unat (desktopWidth e) \<le> 32764" "unat (desktopHeight e) \<le> 32764"
    and bpp: "bpp = unat (dstBytesPerPixel e)" "bpp \<le> 4" "256 \<le> m"
    and data: "length data = unat (desktopHeight e) * unat (scanLine e)"
    and comp: "compressor_ok bpp compress" and mem: "\<And>n. mem n"
  shows "(\<And>r. r \<in> set rs \<Longrightarrow> rect_inside e r) \<Longrightarrow> \<exists>res. compress_rects compress mem e data m rs (rem, bitmaps) = Some res \<and>
    (case res of None \<Rightarrow> rem < rects_need bpp m rs
     | Some (rem', bitmaps') \<Rightarrow> rem \<le> rem' + rects_need bpp m rs \<and>
         (\<exists>new. bitmaps' = bitmaps @ new \<and> (\<forall>r \<in> set rs. rdp_box r \<subseteq> \<Union> (bitmap_box ` set new)) \<and>
           (\<forall>b \<in> set new. bitmap_ok bpp b \<and> fragment_ok e m (bitmap_fragment b))))"
proof (induction rs arbitrary: rem bitmaps)
  case (Cons r rs)
  obtain frs where frs: "rect_fragments bpp m r = Some frs" "rdp_box r \<subseteq> (\<Union>fr \<in> set frs. box fr)" "\<And>fr. fr \<in> set frs \<Longrightarrow> fragment_ok e m fr"
    using rect_fragments_result [OF e _ bpp, of r] Cons.prems by auto
  have need: "rects_need bpp m (r # rs) = sum_list (map (fragment_need bpp) frs) + rects_need bpp m rs"
    by (simp add: rects_need_def frs(1))
  obtain res where res: "compress_fragments compress mem e data frs (rem, bitmaps) = Some res"
    "case res of None \<Rightarrow> rem < sum_list (map (fragment_need bpp) frs)
     | Some (rem', bitmaps') \<Rightarrow> rem \<le> rem' + sum_list (map (fragment_need bpp) frs) \<and>
         (\<exists>new. bitmaps' = bitmaps @ new \<and> map bitmap_fragment new = frs \<and> (\<forall>b \<in> set new. bitmap_ok bpp b))"
    using compress_fragments_result [where mem = mem, OF e(1) bpp(1,2) data comp mem, of frs m rem bitmaps] frs(3) by blast
  show ?case
  proof (cases res)
    case None
    then show ?thesis using frs(1) res need bpp(1) by simp
  next
    case (Some st)
    then obtain rem' new where st: "st = (rem', bitmaps @ new)" "map bitmap_fragment new = frs" "\<forall>b \<in> set new. bitmap_ok bpp b"
      "rem \<le> rem' + sum_list (map (fragment_need bpp) frs)" using res(2) by (cases st) auto
    have new_frs: "set frs = bitmap_fragment ` set new" by (simp add: st(2) [symmetric])
    have step: "compress_rects compress mem e data m (r # rs) (rem, bitmaps) = compress_rects compress mem e data m rs (rem', bitmaps @ new)"
      using frs(1) res(1) Some st(1) bpp(1) by simp
    obtain res' where res': "compress_rects compress mem e data m rs (rem', bitmaps @ new) = Some res'"
      "case res' of None \<Rightarrow> rem' < rects_need bpp m rs
       | Some (rem'', bitmaps') \<Rightarrow> rem' \<le> rem'' + rects_need bpp m rs \<and>
           (\<exists>more. bitmaps' = (bitmaps @ new) @ more \<and> (\<forall>r \<in> set rs. rdp_box r \<subseteq> \<Union> (bitmap_box ` set more)) \<and>
             (\<forall>b \<in> set more. bitmap_ok bpp b \<and> fragment_ok e m (bitmap_fragment b)))"
      using Cons.IH [of rem' "bitmaps @ new"] Cons.prems by auto
    show ?thesis
    proof (cases res')
      case None
      then show ?thesis using step res' need st(4) by simp
    next
      case (Some st')
      then obtain rem'' more where st': "st' = (rem'', (bitmaps @ new) @ more)" "rem' \<le> rem'' + rects_need bpp m rs"
        "\<forall>r \<in> set rs. rdp_box r \<subseteq> \<Union> (bitmap_box ` set more)" "\<forall>b \<in> set more. bitmap_ok bpp b \<and> fragment_ok e m (bitmap_fragment b)"
        using res'(2) by (cases st') auto
      have "rdp_box r \<subseteq> \<Union> (bitmap_box ` set new)" using frs(2) by (auto simp: new_frs bitmap_box_def)
      moreover have "\<forall>b \<in> set new. bitmap_ok bpp b \<and> fragment_ok e m (bitmap_fragment b)" using st(3) frs(3) new_frs by auto
      ultimately have "\<exists>all. (bitmaps @ new) @ more = bitmaps @ all \<and> (\<forall>q \<in> set (r # rs). rdp_box q \<subseteq> \<Union> (bitmap_box ` set all)) \<and>
          (\<forall>b \<in> set all. bitmap_ok bpp b \<and> fragment_ok e m (bitmap_fragment b))"
        using st'(3,4) by (intro exI [of _ "new @ more"]) auto
      moreover have "rem \<le> rem'' + rects_need bpp m (r # rs)" using st(4) st'(2) need by simp
      ultimately show ?thesis unfolding step res'(1) using Some st'(1) by simp
    qed
  qed
qed (auto simp: rects_need_def)

lemma pdu_size_simps [simp]: "pdu_size [] = 0" "pdu_size (b # bs) = bitmap_size b + pdu_size bs" "pdu_size (xs @ ys) = pdu_size xs + pdu_size ys"
  by (simp_all add: pdu_size_def)

lemma bitmap_size_word:
  assumes "bitmap_size b < 2 ^ 31"
  shows "unat (bd_bitmapLength b + bitmapUpdateDataHeaderSize) = bitmap_size b"
proof -
  have "unat (bd_bitmapLength b) + unat bitmapUpdateDataHeaderSize < 2 ^ 32" using assms by (simp add: bitmap_size_def bitmapUpdateDataHeaderSize_def)
  then show ?thesis by (subst unat_add_lem [THEN iffD1]) (simp_all add: bitmap_size_def bitmapUpdateDataHeaderSize_def)
qed

lemma unat_add_small: "unat (a :: u32) < 2 ^ 31 \<Longrightarrow> unat b < 2 ^ 31 \<Longrightarrow> unat (a + b) = unat a + unat b"
  by (subst unat_add_lem [THEN iffD1]) simp_all

lemma pack_bitmaps_result:
  assumes lim: "unat maxData < 2 ^ 31" and fits: "\<And>b. b \<in> set bs \<Longrightarrow> bitmap_size b \<le> unat maxData"
    and cur: "unat s = pdu_size cur" "bs = [] \<Longrightarrow> cur = []" "bs \<noteq> [] \<Longrightarrow> pdu_size cur + bitmap_size (hd bs) \<le> unat maxData"
  shows "\<exists>pdus ok. pack_bitmaps send maxData s cur bs = (pdus, ok) \<and> (\<exists>rest. concat pdus @ rest = cur @ bs) \<and>
    (\<forall>pdu \<in> set pdus. pdu \<noteq> [] \<and> pdu_size pdu \<le> unat maxData) \<and>
    ((\<forall>pdu. send pdu) \<longrightarrow> ok \<and> concat pdus = cur @ bs)"
  using fits cur
proof (induction bs arbitrary: s cur)
  case (Cons b bs)
  define s' where "s' = s + (bd_bitmapLength b + bitmapUpdateDataHeaderSize)"
  have bsz: "bitmap_size b < 2 ^ 31" using Cons.prems(1) [of b] lim by (simp add: order_le_less_trans)
  have sz: "pdu_size (cur @ [b]) \<le> unat maxData" using Cons.prems(4) by simp
  have s': "unat s' = pdu_size (cur @ [b])"
    unfolding s'_def using Cons.prems(2,4) lim bsz by (subst unat_add_small) (simp_all add: bitmap_size_word)
  have noexceed: "\<not> s' > maxData" using sz s' by (simp add: word_less_nat_alt)
  define nx where "nx = (case bs of [] \<Rightarrow> 0 | b' # _ \<Rightarrow> bd_bitmapLength b' + bitmapUpdateDataHeaderSize)"
  have eq: "pack_bitmaps send maxData s cur (b # bs) =
      (if nx = 0 \<or> s' + nx > maxData
       then if send (cur @ [b]) then let (pdus, ok) = pack_bitmaps send maxData 0 [] bs in ((cur @ [b]) # pdus, ok) else ([cur @ [b]], False)
       else pack_bitmaps send maxData s' (cur @ [b]) bs)"
    using noexceed by (simp add: s'_def [symmetric] nx_def [symmetric] Let_def)
  show ?case
  proof (cases "nx = 0 \<or> s' + nx > maxData")
    case True
    have "\<exists>pdus ok. pack_bitmaps send maxData 0 [] bs = (pdus, ok) \<and> (\<exists>rest. concat pdus @ rest = [] @ bs) \<and>
      (\<forall>pdu \<in> set pdus. pdu \<noteq> [] \<and> pdu_size pdu \<le> unat maxData) \<and> ((\<forall>pdu. send pdu) \<longrightarrow> ok \<and> concat pdus = [] @ bs)"
      by (rule Cons.IH) (use Cons.prems(1) in \<open>auto simp: neq_Nil_conv\<close>)
    then obtain pdus ok where p: "pack_bitmaps send maxData 0 [] bs = (pdus, ok)" "\<exists>rest. concat pdus @ rest = bs"
      "\<forall>pdu \<in> set pdus. pdu \<noteq> [] \<and> pdu_size pdu \<le> unat maxData" "(\<forall>pdu. send pdu) \<longrightarrow> ok \<and> concat pdus = bs" by auto
    show ?thesis
    proof (cases "send (cur @ [b])")
      case True
      with \<open>nx = 0 \<or> _\<close> have "pack_bitmaps send maxData s cur (b # bs) = ((cur @ [b]) # pdus, ok)" by (simp add: eq p(1) del: pack_bitmaps.simps)
      then show ?thesis using p(2-4) sz by (auto simp del: pack_bitmaps.simps)
    next
      case False
      with \<open>nx = 0 \<or> _\<close> have "pack_bitmaps send maxData s cur (b # bs) = ([cur @ [b]], False)" by (simp add: eq del: pack_bitmaps.simps)
      then show ?thesis using False sz by (auto simp del: pack_bitmaps.simps)
    qed
  next
    case False
    then obtain b' bs' where bs: "bs = b' # bs'" by (cases bs) (auto simp: nx_def)
    have "bitmap_size b' < 2 ^ 31" using Cons.prems(1) [of b'] lim by (simp add: bs order_le_less_trans)
    then have nx: "unat nx = bitmap_size b'" by (simp add: nx_def bs bitmap_size_word)
    have "unat (s' + nx) = pdu_size (cur @ [b]) + bitmap_size b'"
      using sz lim nx s' \<open>bitmap_size b' < 2 ^ 31\<close> by (subst unat_add_small) simp_all
    then have "pdu_size (cur @ [b]) + bitmap_size (hd bs) \<le> unat maxData" using False by (simp add: bs word_less_nat_alt)
    moreover have "pack_bitmaps send maxData s cur (b # bs) = pack_bitmaps send maxData s' (cur @ [b]) bs" using False by (simp add: eq del: pack_bitmaps.simps)
    ultimately show ?thesis using Cons.IH [OF _ s'] Cons.prems(1) by (simp add: bs del: pack_bitmaps.simps)
  qed
qed auto

lemma request_size_words:
  assumes "1024 \<le> unat (m :: u32)"
  shows "unat (m - bitmapUpdateHeaderSize) = unat m - 2" "unat (m - bitmapUpdateHeaderSize - bitmapUpdateDataHeaderSize - 3) = unat m - 31"
proof -
  have eq: "m - bitmapUpdateHeaderSize - bitmapUpdateDataHeaderSize - 3 = m - 31" by (simp add: bitmapUpdateHeaderSize_def bitmapUpdateDataHeaderSize_def)
  have "(31 :: u32) \<le> m" "(2 :: u32) \<le> m" using assms by (simp_all add: word_le_nat_alt)
  then show "unat (m - bitmapUpdateHeaderSize) = unat m - 2" "unat (m - bitmapUpdateHeaderSize - bitmapUpdateDataHeaderSize - 3) = unat m - 31"
    unfolding eq by (simp_all add: unat_sub bitmapUpdateHeaderSize_def)
qed

lemma bitmap_fits:
  assumes "bitmap_ok bpp b" "fragment_ok e m (bitmap_fragment b)" "bpp = unat (dstBytesPerPixel e)"
  shows "bitmap_size b \<le> m + 29"
proof -
  have "unat (bd_bitmapLength b) \<le> unat (bd_height b) * unat (bd_width b) * bpp + 3"
    using assms(1) by (simp add: bitmap_ok_def fragment_need_def bitmap_fragment_def)
  moreover have "unat (bd_width b) * unat (bd_height b) * bpp \<le> m"
    using assms(2,3) by (simp add: fragment_ok_def bitmap_fragment_def)
  ultimately show ?thesis by (simp add: bitmap_size_def mult.commute)
qed

lemma pdu_okI:
  assumes "pdu \<noteq> []" "pdu_size pdu + 2 \<le> unat (multifragMaxRequestSize e)"
    and "\<And>b. b \<in> set pdu \<Longrightarrow> bitmap_ok (unat (dstBytesPerPixel e)) b \<and> fragment_ok e m (bitmap_fragment b)"
  shows "pdu_ok e pdu"
  using assms by (simp add: pdu_ok_def fragment_ok_def bitmap_fragment_def)

text \<open>
  C13: A bitmap update covers the damage. For rectangles on a screen of at most 32764 by 32764 pixels
  \<open>ogon_send_bitmap_bits\<close> reads and writes inside its buffers, every PDU it sends is not empty, stays within
  the client's request size and holds bitmaps of at most 64 by 64 pixels whose lengths are those of their
  data. If the stream of the encoder has room for the fragments and every PDU is sent, it returns 0, and
  every pixel of every rectangle is in a bitmap that was sent.
\<close>

theorem bitmap_update_complete:
  assumes ok: "bitmap_sender_ok compress e data" and mem: "\<And>n. mem n"
    and rects: "rects \<noteq> []" "\<And>r. r \<in> set rects \<Longrightarrow> rect_inside e r"
  shows "\<exists>ret pdus. ogon_send_bitmap_bits compress mem send e (Some data) rects = Some (ret, pdus) \<and> (\<forall>pdu \<in> set pdus. pdu_ok e pdu) \<and>
    (rects_need (unat (dstBytesPerPixel e)) (unat (multifragMaxRequestSize e) - 31) rects \<le> unat (bmpStreamSize e) \<and> (\<forall>pdu. send pdu) \<longrightarrow>
       ret = 0 \<and> (\<forall>r \<in> set rects. rdp_box r \<subseteq> \<Union> (bitmap_box ` set (concat pdus))))"
proof -
  note o = ok [unfolded bitmap_sender_ok_def]
  define m where "m = unat (multifragMaxRequestSize e) - 31"
  define bpp where "bpp = unat (dstBytesPerPixel e)"
  note words = request_size_words [of "multifragMaxRequestSize e"]
  have "256 \<le> m" using o unfolding m_def by linarith
  then obtain res where res: "compress_rects compress mem e data m rects (unat (bmpStreamSize e), []) = Some res"
    "case res of None \<Rightarrow> unat (bmpStreamSize e) < rects_need bpp m rects
     | Some (rem', bitmaps') \<Rightarrow> unat (bmpStreamSize e) \<le> rem' + rects_need bpp m rects \<and>
         (\<exists>new. bitmaps' = [] @ new \<and> (\<forall>r \<in> set rects. rdp_box r \<subseteq> \<Union> (bitmap_box ` set new)) \<and>
           (\<forall>b \<in> set new. bitmap_ok bpp b \<and> fragment_ok e m (bitmap_fragment b)))"
    using compress_rects_result [where mem = mem and rs = rects and bitmaps = "[]" and rem = "unat (bmpStreamSize e)" and bpp = bpp and m = m
        and e = e and data = data and compress = compress] o mem rects(2)
    by (auto simp: bpp_def)
  show ?thesis
  proof (cases res)
    case None
    then show ?thesis using res rects(1) words o by (simp add: ogon_send_bitmap_bits_def Let_def m_def [symmetric] bpp_def [symmetric])
  next
    case (Some st)
    then obtain rem' new where st: "st = (rem', new)" "\<forall>r \<in> set rects. rdp_box r \<subseteq> \<Union> (bitmap_box ` set new)"
      "\<forall>b \<in> set new. bitmap_ok bpp b \<and> fragment_ok e m (bitmap_fragment b)" using res(2) by (cases st) auto
    let ?max = "multifragMaxRequestSize e - bitmapUpdateHeaderSize"
    have max: "unat ?max = m + 29" using o words(1) by (simp add: m_def)
    have small: "bitmap_size b \<le> unat ?max" if "b \<in> set new" for b
      using bitmap_fits [of bpp b e m] st(3) that max by (simp add: bpp_def)
    have "\<exists>pdus ok. pack_bitmaps send ?max 0 [] new = (pdus, ok) \<and> (\<exists>rest. concat pdus @ rest = [] @ new) \<and>
        (\<forall>pdu \<in> set pdus. pdu \<noteq> [] \<and> pdu_size pdu \<le> unat ?max) \<and> ((\<forall>pdu. send pdu) \<longrightarrow> ok \<and> concat pdus = [] @ new)"
    proof (rule pack_bitmaps_result)
      show "unat ?max < 2 ^ 31" using o max unfolding m_def by linarith
      show "pdu_size [] + bitmap_size (hd new) \<le> unat ?max" if "new \<noteq> []" using small that by simp
    qed (use small in simp_all)
    then obtain pdus ok' rest where p: "pack_bitmaps send ?max 0 [] new = (pdus, ok')" "concat pdus @ rest = new"
      "\<forall>pdu \<in> set pdus. pdu \<noteq> [] \<and> pdu_size pdu \<le> unat ?max" "(\<forall>pdu. send pdu) \<longrightarrow> ok' \<and> concat pdus = new" by auto
    have sub: "\<forall>pdu \<in> set pdus. set pdu \<subseteq> set new" unfolding p(2) [symmetric] by auto
    have room: "unat ?max + 2 = unat (multifragMaxRequestSize e)" using max o unfolding m_def by linarith
    have "\<forall>pdu \<in> set pdus. pdu_ok e pdu"
    proof
      fix pdu
      assume pdu: "pdu \<in> set pdus"
      show "pdu_ok e pdu"
      proof (rule pdu_okI)
        show "pdu \<noteq> []" "pdu_size pdu + 2 \<le> unat (multifragMaxRequestSize e)" using p(3) pdu room by auto
      qed (use st(3) sub pdu bpp_def in blast)
    qed
    moreover have "ogon_send_bitmap_bits compress mem send e (Some data) rects = Some (if ok' then 0 else -1, pdus)"
      using res(1) Some st(1) p(1) words(2) o rects(1) by (simp add: ogon_send_bitmap_bits_def Let_def m_def)
    ultimately show ?thesis using st(2) p(4) by (auto simp del: set_concat)
  qed
qed

lemma raw_compressor: "compressor_ok 4 raw_compress"
  by (auto simp: compressor_ok_def raw_compress_def intro: trans_le_add1)

theorem bitmap_update_complete_witness:
  "\<exists>pdus. ogon_send_bitmap_bits raw_compress (\<lambda>_. True) (\<lambda>_. True) small_encoder (Some (replicate 16 7))
      [\<lparr>rr_x = 1, rr_y = 0, rr_width = 2, rr_height = 1\<rparr>] = Some (0, pdus) \<and> (\<forall>pdu \<in> set pdus. pdu_ok small_encoder pdu) \<and>
    rdp_box \<lparr>rr_x = 1, rr_y = 0, rr_width = 2, rr_height = 1\<rparr> \<subseteq> \<Union> (bitmap_box ` set (concat pdus))"
proof -
  let ?r = "\<lparr>rr_x = 1, rr_y = 0, rr_width = 2, rr_height = 1\<rparr>"
  have "bitmap_sender_ok raw_compress small_encoder (replicate 16 7)"
    using raw_compressor by (simp add: bitmap_sender_ok_def encoder_ok_def small_encoder_def)
  moreover have "rect_inside small_encoder ?r" by (simp add: rect_inside_def small_encoder_def)
  moreover have "rects_need 4 993 [?r] \<le> 64" 
    by (simp add: rects_need_def rect_fragments_def align_rect_def shrink_width.simps shrink_height.simps fragments_def fragment_at_def
        fragment_need_def)
  ultimately show ?thesis
    using bitmap_update_complete [of raw_compress small_encoder "replicate 16 7" "\<lambda>_. True" "[?r]" "\<lambda>_. True"]
    by (auto simp: small_encoder_def)
qed

end
