(* ===== verification/Progressive.thy ===== *)
theory Progressive
  imports Surface
begin

text \<open>
  The progressive RemoteFX stream read back: a reader that only follows the length fields finds the
  blocks, and in the region block the tiles, that were written.
\<close>

section \<open>A reader of blocks\<close>

definition read_block :: "wire \<Rightarrow> u8 list \<Rightarrow> (u16 \<times> u8 list \<times> u8 list) option" where
  "read_block W bs =
     (let n = unat (rd32 W (drop 2 bs)) in
      if length bs < 6 \<or> n < 6 \<or> n > length bs then None else Some (rd16 W bs, take (n - 6) (drop 6 bs), drop n bs))"

fun read_blocks :: "wire \<Rightarrow> nat \<Rightarrow> u8 list \<Rightarrow> (u16 \<times> u8 list) list option" where
  "read_blocks W 0 bs = (if bs = [] then Some [] else None)"
| "read_blocks W (Suc k) bs =
     (case read_block W bs of
        None \<Rightarrow> None
      | Some (t, body, rest) \<Rightarrow> map_option (Cons (t, body)) (read_blocks W k rest))"

text \<open>A message as the encoder makes it: the lengths are those of the data, and the counts fit their fields.\<close>

definition tile_ok :: "RFX_TILE \<Rightarrow> bool" where
  "tile_ok t \<longleftrightarrow> length (YData t) = unat (YLen t) \<and> length (CbData t) = unat (CbLen t) \<and> length (CrData t) = unat (CrLen t)"

definition tile_size :: "RFX_TILE \<Rightarrow> nat" where
  "tile_size t = 22 + unat (YLen t) + unat (CbLen t) + unat (CrLen t)"

definition message_size :: "RFX_MESSAGE \<Rightarrow> nat" where
  "message_size msg = 18 + 8 * length (rfx_rects msg) + 5 * unat (numQuant msg) + sum_list (map tile_size (rfx_tiles msg))"

definition message_ok :: "RFX_MESSAGE \<Rightarrow> bool" where
  "message_ok msg \<longleftrightarrow> (\<forall>t \<in> set (rfx_tiles msg). tile_ok t) \<and> length (quantVals msg) = 10 * unat (numQuant msg) \<and>
     length (rfx_rects msg) < 2 ^ 16 \<and> length (rfx_tiles msg) < 2 ^ 16 \<and> message_size msg < 2 ^ 32"

definition block_body :: "wire \<Rightarrow> wire_item list \<Rightarrow> u8 list" where
  "block_body W items = wire_bytes W (drop 2 items)"

text \<open>The blocks that are written, and the region block split into its header and its tiles.\<close>

definition region_head :: "RFX_MESSAGE \<Rightarrow> wire_item list" where
  "region_head msg =
     [W8 64, W16 (of_nat (length (rfx_rects msg))), W8 (numQuant msg), W8 0, W8 0, W16 (of_nat (length (rfx_tiles msg))), W32 (tiles_data_size msg)] @
     concat (map rect16_items (rfx_rects msg)) @
     concat (map (\<lambda>i. quant_items (drop (10 * i) (quantVals msg))) [0..<unat (numQuant msg)])"

definition blocks_of :: "wire \<Rightarrow> RFX_MESSAGE \<Rightarrow> (u16 \<times> u8 list) list" where
  "blocks_of W msg =
     [(0xCCC0, wire_bytes W [W32 0xCACCACCA, W16 0x0100]), (0xCCC3, wire_bytes W [W8 0, W16 64, W8 0]),
      (0xCCC1, wire_bytes W [W32 (frameIdx msg), W16 1]),
      (0xCCC4, wire_bytes W (region_head msg @ concat (map tile_items (rfx_tiles msg)))), (0xCCC2, [])]"

definition small_tile :: RFX_TILE where
  "small_tile = \<lparr>quantIdxY = 0, quantIdxCb = 0, quantIdxCr = 0, xIdx = 0, yIdx = 0, YLen = 2, CbLen = 1, CrLen = 0, YData = [1, 2],
     CbData = [3], CrData = []\<rparr>"

definition small_message :: RFX_MESSAGE where
  "small_message = \<lparr>frameIdx = 7, rfx_rects = [\<lparr>rr_x = 0, rr_y = 0, rr_width = 64, rr_height = 64\<rparr>], numQuant = 1,
     quantVals = replicate 10 6, rfx_tiles = [small_tile, small_tile]\<rparr>"

section \<open>Sizes\<close>

lemma tile_items_size: "tile_ok t \<Longrightarrow> wire_size (tile_items t) = tile_size t"
  by (simp add: tile_items_def tile_size_def tile_ok_def)

lemma tile_data_unat: "unat (22 + tile_data_size t) = tile_size t" "unat (tile_data_size t) = tile_size t - 22"
proof -
  have lim: "unat (YLen t) < 2 ^ 16" "unat (CbLen t) < 2 ^ 16" "unat (CrLen t) < 2 ^ 16"
    using unsigned_less [of "YLen t", where 'a = nat] unsigned_less [of "CbLen t", where 'a = nat] unsigned_less [of "CrLen t", where 'a = nat]
    by simp_all
  have "tile_data_size t = of_nat (unat (YLen t) + unat (CbLen t) + unat (CrLen t))"
    by (simp add: tile_data_size_def of_nat_unat)
  moreover from this have "22 + tile_data_size t = of_nat (22 + unat (YLen t) + unat (CbLen t) + unat (CrLen t))" by simp
  ultimately show "unat (22 + tile_data_size t) = tile_size t" "unat (tile_data_size t) = tile_size t - 22"
    using unat_of_nat_u32 [of "unat (YLen t) + unat (CbLen t) + unat (CrLen t)"]
      unat_of_nat_u32 [of "22 + unat (YLen t) + unat (CbLen t) + unat (CrLen t)"] lim
    by (simp_all only: tile_size_def) simp_all
qed

lemma tiles_data_of_nat: "tiles_data_size msg = of_nat (sum_list (map tile_size (rfx_tiles msg)))"
proof -
  have "of_nat (length ts) * 22 + sum_list (map tile_data_size ts) = (of_nat (sum_list (map tile_size ts)) :: u32)" for ts
  proof (induction ts)
    case (Cons t ts)
    have "(of_nat (tile_size t) :: u32) = 22 + tile_data_size t" by (simp add: tile_data_unat(1) [symmetric] of_nat_unat)
    then show ?case using Cons by (simp add: algebra_simps)
  qed simp
  then show ?thesis by (simp add: tiles_data_size_def)
qed

lemma region_len_unat: "message_ok msg \<Longrightarrow> unat (region_len msg) = message_size msg"
proof -
  assume "message_ok msg"
  then have "message_size msg < 2 ^ 32" by (simp add: message_ok_def)
  moreover have "region_len msg = of_nat (message_size msg)"
    by (simp add: region_len_def message_size_def tiles_data_of_nat of_nat_unat algebra_simps)
  ultimately show ?thesis using unat_of_nat_u32 by simp
qed

lemma wire_size_concat: "wire_size (concat xss) = sum_list (map wire_size xss)"
  by (induction xss) simp_all

lemma region_items_size:
  assumes "message_ok msg"
  shows "wire_size (region_items msg) = message_size msg"
proof -
  have "wire_size (concat (map tile_items (rfx_tiles msg))) = sum_list (map tile_size (rfx_tiles msg))"
    unfolding wire_size_concat using assms by (auto simp: message_ok_def tile_items_size intro!: arg_cong [where f = sum_list])
  moreover have "wire_size (concat (map rect16_items (rfx_rects msg))) = 8 * length (rfx_rects msg)"
    by (simp add: wire_size_concat comp_def rect16_items_def sum_list_triv)
  moreover have "wire_size (concat (map (\<lambda>i. quant_items (drop (10 * i) (quantVals msg))) [0..<unat (numQuant msg)])) = 5 * unat (numQuant msg)"
    by (simp add: wire_size_concat comp_def quant_items_def sum_list_triv)
  ultimately show ?thesis by (simp add: region_items_def message_size_def)
qed

section \<open>Reading back\<close>

lemma read_blocks_numeral:
  "read_blocks W (numeral n) bs =
     (case read_block W bs of
        None \<Rightarrow> None
      | Some (t, body, rest) \<Rightarrow> map_option (Cons (t, body)) (read_blocks W (pred_numeral n) rest))"
  by (simp add: numeral_eq_Suc)

context wire_format
begin

lemma read_block_written:
  assumes "unat n = wire_size (W16 t # W32 n # items)"
  shows "read_block W (wire_bytes W (W16 t # W32 n # items) @ rest) = Some (t, wire_bytes W items, rest)"
  using assms by (auto simp: read_block_def Let_def read16 read32 len16 len32)

lemma read_tiles:
  "(\<And>t. t \<in> set ts \<Longrightarrow> tile_ok t) \<Longrightarrow>
     read_blocks W (length ts) (wire_bytes W (concat (map tile_items ts))) = Some (map (\<lambda>t. (0xCCC5, block_body W (tile_items t))) ts)"
proof (induction ts)
  case (Cons t ts)
  have "unat (22 + tile_data_size t) = wire_size (tile_items t)" using Cons.prems tile_data_unat(1) tile_items_size by simp
  then have "read_block W (wire_bytes W (tile_items t) @ wire_bytes W (concat (map tile_items ts))) =
      Some (0xCCC5, block_body W (tile_items t), wire_bytes W (concat (map tile_items ts)))"
    unfolding block_body_def tile_items_def by (subst read_block_written) (simp_all add: wire_size_def)
  then show ?case using Cons by simp
qed simp

end

lemma write_blocks_total:
  "(\<And>n items. (n, items) \<in> set bs \<Longrightarrow> wire_size items \<le> unat n) \<Longrightarrow> \<exists>ok items. write_blocks grow bs = Some (ok, items) \<and>
     ((\<forall>n. grow n) \<longrightarrow> ok \<and> items = concat (map snd bs))"
proof (induction bs)
  case (Cons b bs)
  obtain n items where b: "b = (n, items)" by (cases b)
  have "wire_size items \<le> unat n" using Cons.prems b by simp
  moreover obtain ok rest where "write_blocks grow bs = Some (ok, rest)" "(\<forall>n. grow n) \<longrightarrow> ok \<and> rest = concat (map snd bs)"
    using Cons by auto
  ultimately show ?case by (auto simp: b)
qed auto

lemma progressive_blocks_fit: "message_ok msg \<Longrightarrow> (n, items) \<in> set (progressive_blocks msg) \<Longrightarrow> wire_size items \<le> unat n"
  by (auto simp: progressive_blocks_def region_items_size region_len_unat)

lemma region_items_split:
  "region_items msg = W16 0xCCC4 # W32 (region_len msg) # region_head msg @ concat (map tile_items (rfx_tiles msg))"
  by (simp add: region_items_def region_head_def)

lemma region_head_size: "wire_size (region_head msg) = 12 + 8 * length (rfx_rects msg) + 5 * unat (numQuant msg)"
  by (simp add: region_head_def wire_size_concat comp_def rect16_items_def quant_items_def sum_list_triv)

context wire_format
begin

lemma progressive_read:
  assumes "message_ok msg"
  shows "read_blocks W 5 (wire_bytes W (concat (map snd (progressive_blocks msg)))) = Some (blocks_of W msg)"
proof -
  let ?body = "region_head msg @ concat (map tile_items (rfx_tiles msg))"
  have "unat (region_len msg) = wire_size (W16 0xCCC4 # W32 (region_len msg) # ?body)"
    using region_len_unat [OF assms] region_items_size [OF assms] region_items_split [of msg] by simp
  note r = read_block_written [OF this]
  have f: "read_block W (wire_bytes W [W16 t, W32 n]) = Some (t, [], [])" if "unat n = 6" for t n
    using read_block_written [of n t "[]" "[]"] that by simp
  have fixed: "read_block W (wire_bytes W (W16 t # W32 n # items) @ rest) = Some (t, wire_bytes W items, rest)"
    if "unat n = 6 + wire_size items" for t n items rest
    using read_block_written [of n t items rest] that by simp
  have "concat (map snd (progressive_blocks msg)) =
      [W16 0xCCC0, W32 12, W32 0xCACCACCA, W16 0x0100] @ [W16 0xCCC3, W32 10, W8 0, W16 64, W8 0] @
      [W16 0xCCC1, W32 12, W32 (frameIdx msg), W16 1] @ (W16 0xCCC4 # W32 (region_len msg) # ?body) @ [W16 0xCCC2, W32 6]"
    by (simp add: progressive_blocks_def region_items_split)
  then have "wire_bytes W (concat (map snd (progressive_blocks msg))) =
      wire_bytes W (W16 0xCCC0 # W32 12 # [W32 0xCACCACCA, W16 0x0100]) @ wire_bytes W (W16 0xCCC3 # W32 10 # [W8 0, W16 64, W8 0]) @
      wire_bytes W (W16 0xCCC1 # W32 12 # [W32 (frameIdx msg), W16 1]) @ wire_bytes W (W16 0xCCC4 # W32 (region_len msg) # ?body) @
      wire_bytes W [W16 0xCCC2, W32 6] @ []" by simp
  then show ?thesis
    unfolding blocks_of_def by (simp add: read_blocks_numeral fixed r f del: wire_bytes_simps(2,3))
qed

end

text \<open>
  C14: Whatever message the RemoteFX encoder makes, the progressive writer never writes more than the
  capacity it ensured before, and when the stream can grow a reader that follows the length fields finds
  exactly the five blocks, and in the region block, behind its header, exactly the tiles.
\<close>

theorem progressive_stream_reads_back:
  assumes "wire_format W" "message_ok msg"
  shows "\<exists>ok items. ogon_rfx_write_message_progressive_simple RLGR1 grow msg = Some (ok, items) \<and>
    ((\<forall>n. grow n) \<longrightarrow> ok \<and> read_blocks W 5 (wire_bytes W items) = Some (blocks_of W msg) \<and>
       read_blocks W (length (rfx_tiles msg)) (drop (12 + 8 * length (rfx_rects msg) + 5 * unat (numQuant msg)) (snd (blocks_of W msg ! 3))) =
         Some (map (\<lambda>t. (0xCCC5, block_body W (tile_items t))) (rfx_tiles msg)))"
proof -
  obtain ok items where w: "write_blocks grow (progressive_blocks msg) = Some (ok, items)"
    "(\<forall>n. grow n) \<longrightarrow> ok \<and> items = concat (map snd (progressive_blocks msg))"
    using write_blocks_total [of "progressive_blocks msg" grow] progressive_blocks_fit [OF assms(2)] by blast
  have tiles: "\<And>t. t \<in> set (rfx_tiles msg) \<Longrightarrow> tile_ok t" using assms(2) by (simp add: message_ok_def)
  have "drop (12 + 8 * length (rfx_rects msg) + 5 * unat (numQuant msg)) (snd (blocks_of W msg ! 3)) =
      wire_bytes W (concat (map tile_items (rfx_tiles msg)))"
    using wire_format.length_wire_bytes [OF assms(1), of "region_head msg"] by (simp add: blocks_of_def region_head_size)
  then show ?thesis
    using w wire_format.progressive_read [OF assms] wire_format.read_tiles [OF assms(1) tiles]
    by (auto simp: ogon_rfx_write_message_progressive_simple_def)
qed

theorem progressive_stream_reads_back_witness:
  "\<exists>items. ogon_rfx_write_message_progressive_simple RLGR1 (\<lambda>_. True) small_message = Some (True, items) \<and>
    read_blocks le_wire 5 (wire_bytes le_wire items) = Some (blocks_of le_wire small_message)"
proof -
  have "message_ok small_message"
    by (simp add: message_ok_def small_message_def small_tile_def tile_ok_def message_size_def tile_size_def)
  from progressive_stream_reads_back [OF le.wire_format_axioms this, of "\<lambda>_. True"] show ?thesis by auto
qed

end
