(* ===== verification/Spec2Isabelle.thy ===== *)
theory Spec2Isabelle
  imports Frame_State Bandwidth Event_Loop_Proofs Rdpgfx_Caps Rdpgfx_Send Backend_Delivery Pointer_Cache Encoder_Typing Frame_Loop Bitmap_Proofs Progressive
begin

text \<open>
  A verification library of ogon, a server for the Remote Desktop Protocol. File names below are
  relative to \<open>src/\<close>.

  \<^bold>\<open>The program and its parts.\<close> A backend (an X server, a greeter) paints into a frame buffer in shared
  memory, the damage buffer (\<open>backend/dmgbuf.c\<close>), and talks to the server over a pipe with framed protobuf
  messages: \<open>backend/protocol.c\<close> holds the messages, \<open>backend/service.c\<close> the backend's end and
  \<open>rdp-server/backend.c\<close> the server's end. The server runs one event loop (\<open>rdp-server/eventloop.c\<close>) per
  connection. A front connection (\<open>rdp-server/peer.h\<close>, \<open>frontend.c\<close>) asks the backend for damage with a sync
  request, and when the reply arrives sends a frame. An automaton (\<open>rdp-server/state.c\<close>) says when a
  request may be made, the bandwidth management (\<open>rdp-server/bandwidth_mgmt.c\<close>) how large the frame may be,
  and \<open>rdp-server/graphics.c\<close> and \<open>encoder.c\<close> compare the damage with what the client has, and encode and
  send what is left, as bitmap updates, as surface commands, or over the graphics pipeline channel
  (\<open>rdp-server/rdpgfx.c\<close>). Pointer shapes go through a cache that uses the hash of
  \<open>rdp-server/PMurHash.c\<close>.

  \<^bold>\<open>Conventions.\<close> A C integer is a word of its width, so that it wraps around where C's unsigned integers
  do; a C structure is a record with the source's field names, an enumeration a datatype. An access outside
  a buffer, a use after free, a division by zero is the result \<^const>\<open>None\<close> or an error of a sum type, so
  that a theorem that a function returns also says that it does none of these. What an allocation or a
  system call returns is an argument of the definition that makes the call. FreeRDP, WinPR, the generated
  protobuf code and the codecs are arguments too: the laws the code relies on are the assumptions of
  the locales \<open>wire_format\<close> (integers in a stream), \<open>region_laws\<close> (\<open>REGION16\<close>) and \<open>protobuf_laws\<close>, each of
  which is interpreted on a concrete implementation. Logging is left out.

  \<^bold>\<open>Shared theories.\<close>
  \<^item> \<open>Ogon_Prelude\<close>: names of the machine integers, generic lemmas, and the contracts \<open>latch\<close> and
    \<open>step_invariant\<close> of components with a step function.
  \<^item> \<open>Wire_Stream\<close>: byte streams, with little endian integers as the instance of \<open>wire_format\<close>.
  \<^item> \<open>Region16\<close>: rectangles and regions, with lists of rectangles as the instance of \<open>region_laws\<close>.
  \<^item> \<open>Framing\<close>: an abstract reader of frames with a header and a payload, and the locale \<open>framed_reader\<close> of
    what a reader of the code has to satisfy to implement it.

  \<^bold>\<open>Automaton and bandwidth.\<close> \<open>Frame_State\<close> models \<open>state.c\<close>: every event, and the decision to create a
  frame. A block holds until the event that releases it, no wake-up is lost, and one request gives one frame;
  each block is an interpretation of \<open>latch\<close>. \<open>Bandwidth\<close> models all of \<open>bandwidth_mgmt.c\<close>: every sequence of its
  operations stays in its arrays, charging conserves bits, and automatic mode has a floor for the
  frame rate but for one case, which is exhibited.

  \<^bold>\<open>Event loop.\<close> \<open>Event_Loop\<close> models both variants of \<open>eventloop.c\<close>, epoll and select, over a store of
  sources, with callbacks as arbitrary clients of the interface. \<open>Event_Loop_Proofs\<close> shows memory safety,
  that epoll calls no removed source (and select does), that rescheduled sources are delivered, and that
  a dispatch ends. A callback may reschedule for ever, so a dispatch has fuel: the entries plus the
  number of reschedules the callbacks still make are enough, and that is a theorem.

  \<^bold>\<open>Graphics pipeline channel.\<close> \<open>Rdpgfx\<close> models \<open>rdpgfx.c\<close>. \<open>Rdpgfx_Receive\<close> shows that the receiver does not
  depend on how data is cut into pieces, delivers the client's PDUs and stays inside what was received;
  \<open>Rdpgfx_Caps\<close> shows what is negotiated, and \<open>Rdpgfx_Send\<close> that what the server sends fits its streams and is
  reassembled by the client. Opening a used channel again is the exception to the first two.

  \<^bold>\<open>Backend pipe.\<close> \<open>Backend_Messages\<close> and \<open>Backend_Protobuf\<close> model \<open>protocol.c\<close>, \<open>Backend_Link\<close> the two ends of the
  pipe. \<open>Backend_Roundtrip\<close> shows that a message that was written is read back, \<open>Backend_Readers\<close> interprets
  \<open>framed_reader\<close> on both ends, and \<open>Backend_Delivery\<close> composes them: messages arrive, in order, for
  every way in which the pipe splits them; nobody is served before the version exchange.
  A write loop is given the results of its \<open>WriteFile\<close> calls; as many as there are bytes are enough.

  \<^bold>\<open>Pointer.\<close> \<open>Pointer\<close> and \<open>Mono_Pointer\<close> model the pointer handlers of \<open>backend.c\<close>; \<open>Pointer_Cache\<close> shows that the
  client shows the last shape, and the conversion in place against a reference. \<open>Murmur\<close> models
  \<open>PMurHash.c\<close> and shows that the progressive hash is MurmurHash3 of the concatenated pieces.

  \<^bold>\<open>From the frame buffer to the screen.\<close>
  \<^item> \<open>Dmgbuf\<close> (\<open>dmgbuf.c\<close>), \<open>Encoder\<close> (\<open>encoder.c\<close>) and \<open>Damage\<close> (the damage functions of \<open>graphics.c\<close> and
    \<open>frontend.c\<close>) hold the frame buffer, the view the server keeps of the client, and the damage between
    them. \<open>Damage_Proofs\<close> shows, in \<open>region_memory\<close>, that after a comparison the damage covers every pixel on
    which the view was stale; \<open>Encoder_Typing\<close> that no operation on an encoder leaves its buffers.
  \<^item> \<open>Bitmap_Update\<close> models \<open>ogon_send_bitmap_bits\<close>; \<open>Bitmap_Proofs\<close> shows that the fragments cover the damage
    and fit the client's request size.
  \<^item> \<open>Front_Connection\<close> is the state of a front connection with its requests, acknowledgements and
    graphics output (\<open>peer.c\<close>, \<open>frontend.c\<close>). \<open>Surface\<close> holds the other senders of \<open>graphics.c\<close> up to
    \<open>ogon_send_surface_bits\<close>; \<open>Progressive\<close> reads back the progressive RemoteFX stream it writes.
  \<^item> \<open>Display\<close> composes these parts in one step function, and \<open>Display_Proofs\<close> shows that outside the
    pending damage the client's screen is the frame buffer. \<open>Screen_Instance\<close> is a small instance.
  \<^item> \<open>Frame_Loop\<close> models the frame timer and the sync reply of \<open>frontend.c\<close> for all connections that show one
    backend, and shows that none of them waits for a reply that nobody has requested.

  \<^bold>\<open>Not modelled.\<close> Activation, codec selection and resizing of a front connection, and the handlers for
  frame buffer changes, beeps and session calls in \<open>backend.c\<close>; keyboard and mouse input with the shadowing
  escape (\<open>frontend.c\<close>); the connection threads and the shadowing hand-over between them (\<open>peer.c\<close>);
  the named pipes of virtual channels (\<open>channels.c\<close>). \<open>openh264.c\<close> calls a library, whose result is an
  argument of the sender here. \<open>icp/\<close> is remote calls over generated code, \<open>ogon.c\<close> and \<open>app_context.c\<close> start
  the process, and \<open>session-manager/\<close> is a separate C++ process around Thrift, PAM and system services. The
  backends themselves are code around the libraries of window systems.
\<close>

end
